theory Spec2Isabelle
  imports Complex_Main "HOL-Library.Char_ord" "HOL-Library.AList"
begin

section \<open>The fragment of Go's \<open>strings\<close> package used by the converter\<close>

text \<open>
  A Go string is a sequence of bytes; \<open>string\<close> (a list of \<open>char\<close>) models it byte for
  byte, so \<open>length\<close> is Go's \<open>len\<close>, \<open>take n s\<close> is \<open>s[:n]\<close> and \<open>s ! i\<close> is \<open>s[i]\<close>.
  The case conversions and \<open>TrimSpace\<close> below are the ASCII part of the library functions:
  they agree with Go on every string whose bytes are ASCII, which covers all GraphQL names
  (letters, digits and underscore).
\<close>

definition HasPrefix :: "string \<Rightarrow> string \<Rightarrow> bool" where
  "HasPrefix s p = (take (length p) s = p)"

definition HasSuffix :: "string \<Rightarrow> string \<Rightarrow> bool" where
  "HasSuffix s suffix =
     (length suffix \<le> length s \<and> drop (length s - length suffix) s = suffix)"

definition TrimPrefix :: "string \<Rightarrow> string \<Rightarrow> string" where
  "TrimPrefix s p = (if HasPrefix s p then drop (length p) s else s)"

definition TrimSuffix :: "string \<Rightarrow> string \<Rightarrow> string" where
  "TrimSuffix s suffix = (if HasSuffix s suffix then take (length s - length suffix) s else s)"

definition toLowerByte :: "char \<Rightarrow> char" where
  "toLowerByte c =
     (case map_of (zip ''ABCDEFGHIJKLMNOPQRSTUVWXYZ'' ''abcdefghijklmnopqrstuvwxyz'') c of
        Some l \<Rightarrow> l
      | None \<Rightarrow> c)"

definition toUpperByte :: "char \<Rightarrow> char" where
  "toUpperByte c =
     (case map_of (zip ''abcdefghijklmnopqrstuvwxyz'' ''ABCDEFGHIJKLMNOPQRSTUVWXYZ'') c of
        Some u \<Rightarrow> u
      | None \<Rightarrow> c)"

definition ToLower :: "string \<Rightarrow> string" where
  "ToLower s = map toLowerByte s"

definition ToUpper :: "string \<Rightarrow> string" where
  "ToUpper s = map toUpperByte s"

definition isSpaceByte :: "char \<Rightarrow> bool" where
  "isSpaceByte c = (c \<in> set [CHR 0x09, CHR 0x0A, CHR 0x0B, CHR 0x0C, CHR 0x0D, CHR 0x20])"

definition TrimSpace :: "string \<Rightarrow> string" where
  "TrimSpace s = rev (dropWhile isSpaceByte (rev (dropWhile isSpaceByte s)))"

text \<open>\<open>strings.Trim(s, cutset)\<close>: all leading and trailing bytes of the cutset removed.\<close>

definition Trim :: "string \<Rightarrow> string \<Rightarrow> string" where
  "Trim s cutset =
     rev (dropWhile (\<lambda>c. c \<in> set cutset) (rev (dropWhile (\<lambda>c. c \<in> set cutset) s)))"

text \<open>\<open>strings.Index\<close>: the offset of the first occurrence, \<open>None\<close> for Go's \<open>-1\<close>.\<close>

fun Index :: "string \<Rightarrow> string \<Rightarrow> nat option" where
  "Index [] sub = (if sub = [] then Some 0 else None)"
| "Index (c # s) sub =
     (if HasPrefix (c # s) sub then Some 0
      else (case Index s sub of None \<Rightarrow> None | Some i \<Rightarrow> Some (Suc i)))"

definition Contains :: "string \<Rightarrow> string \<Rightarrow> bool" where
  "Contains s sub = (Index s sub \<noteq> None)"

text \<open>
  \<open>strings.Count\<close> for a non-empty pattern: the number of non-overlapping occurrences.
  The recursion is on a bound for the remaining length, so that skipping a whole occurrence
  is a structural step.
\<close>

fun CountFrom :: "nat \<Rightarrow> string \<Rightarrow> string \<Rightarrow> nat" where
  "CountFrom 0 s sub = 0"
| "CountFrom (Suc n) s sub =
     (if s = [] \<or> sub = [] then 0
      else if HasPrefix s sub then Suc (CountFrom n (drop (length sub) s) sub)
      else CountFrom n (tl s) sub)"

definition Count :: "string \<Rightarrow> string \<Rightarrow> nat" where
  "Count s sub = CountFrom (length s) s sub"

text \<open>\<open>strings.Split(s, sep)\<close> and \<open>strings.Join(xs, sep)\<close> for a one-byte separator.\<close>

fun Split :: "string \<Rightarrow> char \<Rightarrow> string list" where
  "Split [] sep = [[]]"
| "Split (c # s) sep =
     (if c = sep then [] # Split s sep
      else (case Split s sep of [] \<Rightarrow> [[c]] | l # ls \<Rightarrow> (c # l) # ls))"

fun Join :: "string list \<Rightarrow> string \<Rightarrow> string" where
  "Join [] sep = []"
| "Join [x] sep = x"
| "Join (x # y # ys) sep = x @ sep @ Join (y # ys) sep"

section \<open>Configuration\<close>

text \<open>
  \<open>CustomPlurals\<close> is a Go map. Go does not fix the order in which a \<open>range\<close> loop visits a
  map; here and below a map that the code iterates over is an association list, and the
  loop visits it in list order. The theorems below that speak of every schema hold for
  every such list, hence for every order; an evaluation on a sample shows the result for the
  order of the sample's list.
\<close>

record Config =
  Title :: string
  Version :: string
  BaseURL :: string
  PathPrefix :: string
  DetectRESTPatterns :: bool
  CustomPlurals :: "(string \<times> string) list"
  PluralizeSuffixesES :: "string list"
  PluralizeSuffixIES :: string
  PluralizeDefaultSuffix :: string
  CRUDPrefixCreate :: string
  CRUDPrefixUpdate :: string
  CRUDPrefixDelete :: string

text \<open>The configuration that \<open>main\<close> builds when no flag is given.\<close>

definition defaultConfig :: Config where
  "defaultConfig =
     \<lparr> Title = ''Converted from GraphQL'', Version = ''1.0.0'', BaseURL = '''',
       PathPrefix = '''', DetectRESTPatterns = True, CustomPlurals = [],
       PluralizeSuffixesES = [''s'', ''x'', ''z'', ''ch'', ''sh''],
       PluralizeSuffixIES = ''y'', PluralizeDefaultSuffix = ''s'',
       CRUDPrefixCreate = ''create'', CRUDPrefixUpdate = ''update'',
       CRUDPrefixDelete = ''delete'' \<rparr>"

section \<open>Naming heuristics\<close>

definition isVowel :: "char \<Rightarrow> bool" where
  "isVowel r = (r \<in> set ''aeiouAEIOU'')"

definition isBuiltInType :: "string \<Rightarrow> bool" where
  "isBuiltInType name =
     (name = ''Query'' \<or> name = ''Mutation'' \<or> name = ''Subscription'' \<or> HasPrefix name ''__'')"

definition isScalarType :: "string \<Rightarrow> bool" where
  "isScalarType name =
     (name = ''Int'' \<or> name = ''Float'' \<or> name = ''String'' \<or> name = ''Boolean'' \<or> name = ''ID'')"

definition addPrefix :: "Config \<Rightarrow> string \<Rightarrow> string" where
  "addPrefix cfg path = (if PathPrefix cfg \<noteq> [] then PathPrefix cfg @ path else path)"

text \<open>The first loop of \<open>pluralize\<close>: the first custom suffix that matches decides.\<close>

fun pluralizeCustom :: "(string \<times> string) list \<Rightarrow> string \<Rightarrow> string option" where
  "pluralizeCustom [] word = None"
| "pluralizeCustom ((suffix, replacement) # rest) word =
     (if HasSuffix word suffix then Some (TrimSuffix word suffix @ replacement)
      else pluralizeCustom rest word)"

definition pluralize :: "Config \<Rightarrow> string \<Rightarrow> string" where
  "pluralize cfg word =
     (case pluralizeCustom (CustomPlurals cfg) word of
        Some r \<Rightarrow> r
      | None \<Rightarrow>
          if list_ex (\<lambda>suffix. HasSuffix word suffix) (PluralizeSuffixesES cfg)
          then word @ ''es''
          else if PluralizeSuffixIES cfg \<noteq> [] \<and> HasSuffix word (PluralizeSuffixIES cfg) \<and>
                  length word > 1 \<and> \<not> isVowel (word ! (length word - 2))
          then take (length word - 1) word @ ''ies''
          else word @ PluralizeDefaultSuffix cfg)"

fun singularizeCustom :: "(string \<times> string) list \<Rightarrow> string \<Rightarrow> string option" where
  "singularizeCustom [] word = None"
| "singularizeCustom ((suffix, replacement) # rest) word =
     (if HasSuffix word replacement then Some (TrimSuffix word replacement @ suffix)
      else singularizeCustom rest word)"

definition singularize :: "Config \<Rightarrow> string \<Rightarrow> string" where
  "singularize cfg word =
     (case singularizeCustom (CustomPlurals cfg) word of
        Some r \<Rightarrow> r
      | None \<Rightarrow>
          if PluralizeSuffixIES cfg \<noteq> [] \<and> HasSuffix word ''ies'' \<and> length word > 3
          then take (length word - 3) word @ PluralizeSuffixIES cfg
          else if HasSuffix word ''es'' \<and> length word > 2
          then (let base = take (length word - 2) word
                in if list_ex (\<lambda>suffix. HasSuffix base suffix) (PluralizeSuffixesES cfg)
                   then base
                   else take (length word - 1) word)
          else if HasSuffix word (PluralizeDefaultSuffix cfg) \<and> length word > 1
          then take (length word - length (PluralizeDefaultSuffix cfg)) word
          else word)"

definition capitalize :: "string \<Rightarrow> string" where
  "capitalize s = (if s = [] then s else ToUpper (take 1 s) @ drop 1 s)"

definition uncapitalize :: "string \<Rightarrow> string" where
  "uncapitalize s = (if s = [] then s else ToLower (take 1 s) @ drop 1 s)"

section \<open>The parsed schema (the parser library's \<open>ast\<close> package)\<close>

text \<open>
  The parser is an external library; these are the parts of its tree that the converter
  reads. A type reference (\<open>ast.Type\<close>) is either a named type (\<open>NamedType\<close> set, \<open>Elem\<close> nil)
  or a list (\<open>Elem\<close> set, \<open>NamedType\<close> empty), each with its \<open>NonNull\<close> flag; the two
  constructors are these two shapes.
\<close>

datatype GType = NamedT string bool | ListT GType bool

fun NamedType :: "GType \<Rightarrow> string" where
  "NamedType (NamedT n nn) = n"
| "NamedType (ListT e nn) = []"

fun Elem :: "GType \<Rightarrow> GType option" where
  "Elem (NamedT n nn) = None"
| "Elem (ListT e nn) = Some e"

fun NonNull :: "GType \<Rightarrow> bool" where
  "NonNull (NamedT n nn) = nn"
| "NonNull (ListT e nn) = nn"

text \<open>\<open>Type.Name()\<close>: the name of the innermost named type.\<close>

fun Type_Name :: "GType \<Rightarrow> string" where
  "Type_Name (NamedT n nn) = n"
| "Type_Name (ListT e nn) = Type_Name e"

text \<open>
  Of a directive argument's value the converter reads the field \<open>Raw\<close> and the result of the
  library method \<open>String()\<close>; the record keeps these two observations.
\<close>

record Value =
  val_Raw :: string
  val_String :: string

record Argument =
  arg_Name :: string
  arg_Value :: Value

record Directive =
  dir_Name :: string
  dir_Arguments :: "Argument list"

record ArgumentDefinition =
  ad_Description :: string
  ad_Name :: string
  ad_Type :: GType

record FieldDefinition =
  fd_Description :: string
  fd_Name :: string
  fd_Arguments :: "ArgumentDefinition list"
  fd_Type :: GType
  fd_Directives :: "Directive list"

datatype DefinitionKind = Scalar | Object | Interface | Union | Enum | InputObject

record EnumValueDefinition =
  ev_Name :: string

record Definition =
  def_Kind :: DefinitionKind
  def_Description :: string
  def_Name :: string
  def_Directives :: "Directive list"
  def_Fields :: "FieldDefinition list"
  def_Types :: "string list"
  def_EnumValues :: "EnumValueDefinition list"

text \<open>
  \<open>ast.Schema\<close>. \<open>Types\<close> maps a type name to a pointer to its definition, and the root
  pointers \<open>Query\<close>, \<open>Mutation\<close> and \<open>Subscription\<close> point to definitions of that same map.
  The model keeps the definitions in the association list \<open>ast_Types\<close>, which is the store,
  and represents a pointer to a definition by the key under which the definition is stored
  (\<open>None\<close> is the nil pointer). A write through a pointer is an update of the store at that
  key, so it is seen through every other pointer to the same definition.
\<close>

record ast_Schema =
  ast_Query :: "string option"
  ast_Mutation :: "string option"
  ast_Subscription :: "string option"
  ast_Types :: "(string \<times> Definition) list"

definition directiveForName :: "Directive list \<Rightarrow> string \<Rightarrow> Directive option" where
  "directiveForName ds name = find (\<lambda>d. dir_Name d = name) ds"

definition argumentForName :: "Argument list \<Rightarrow> string \<Rightarrow> Argument option" where
  "argumentForName as name = find (\<lambda>a. arg_Name a = name) as"

section \<open>The OpenAPI document (\<open>types.go\<close>)\<close>

text \<open>
  \<open>float64\<close> values are represented by the real number they denote; the converter only
  stores them. Maps of the document are association lists that are written with
  \<open>AList.update\<close> (a later write to a key replaces the earlier value) and read with \<open>map_of\<close>.
\<close>

datatype Schema = Schema
  (sType: string)
  (sFormat: string)
  (sDescription: string)
  (sProperties: "(string \<times> Schema) list")
  (sRequired: "string list")
  (sItems: "Schema option")
  (sRef: string)
  (sDeprecated: bool)
  (sEnum: "string list")
  (sOneOf: "Schema list")
  (sMinLength: "int option")
  (sMaxLength: "int option")
  (sMinimum: "real option")
  (sMaximum: "real option")
  (sPattern: string)

definition emptySchema :: Schema where
  "emptySchema = Schema [] [] [] [] [] None [] False [] [] None None None None []"

fun set_sType :: "string \<Rightarrow> Schema \<Rightarrow> Schema" where
  "set_sType v (Schema t f d ps rq it rf dp en oo mnl mxl mn mx pa) =
     Schema v f d ps rq it rf dp en oo mnl mxl mn mx pa"

fun set_sFormat :: "string \<Rightarrow> Schema \<Rightarrow> Schema" where
  "set_sFormat v (Schema t f d ps rq it rf dp en oo mnl mxl mn mx pa) =
     Schema t v d ps rq it rf dp en oo mnl mxl mn mx pa"

fun set_sDescription :: "string \<Rightarrow> Schema \<Rightarrow> Schema" where
  "set_sDescription v (Schema t f d ps rq it rf dp en oo mnl mxl mn mx pa) =
     Schema t f v ps rq it rf dp en oo mnl mxl mn mx pa"

fun set_sProperties :: "(string \<times> Schema) list \<Rightarrow> Schema \<Rightarrow> Schema" where
  "set_sProperties v (Schema t f d ps rq it rf dp en oo mnl mxl mn mx pa) =
     Schema t f d v rq it rf dp en oo mnl mxl mn mx pa"

fun set_sRequired :: "string list \<Rightarrow> Schema \<Rightarrow> Schema" where
  "set_sRequired v (Schema t f d ps rq it rf dp en oo mnl mxl mn mx pa) =
     Schema t f d ps v it rf dp en oo mnl mxl mn mx pa"

fun set_sItems :: "Schema option \<Rightarrow> Schema \<Rightarrow> Schema" where
  "set_sItems v (Schema t f d ps rq it rf dp en oo mnl mxl mn mx pa) =
     Schema t f d ps rq v rf dp en oo mnl mxl mn mx pa"

fun set_sRef :: "string \<Rightarrow> Schema \<Rightarrow> Schema" where
  "set_sRef v (Schema t f d ps rq it rf dp en oo mnl mxl mn mx pa) =
     Schema t f d ps rq it v dp en oo mnl mxl mn mx pa"

fun set_sDeprecated :: "bool \<Rightarrow> Schema \<Rightarrow> Schema" where
  "set_sDeprecated v (Schema t f d ps rq it rf dp en oo mnl mxl mn mx pa) =
     Schema t f d ps rq it rf v en oo mnl mxl mn mx pa"

fun set_sEnum :: "string list \<Rightarrow> Schema \<Rightarrow> Schema" where
  "set_sEnum v (Schema t f d ps rq it rf dp en oo mnl mxl mn mx pa) =
     Schema t f d ps rq it rf dp v oo mnl mxl mn mx pa"

fun set_sOneOf :: "Schema list \<Rightarrow> Schema \<Rightarrow> Schema" where
  "set_sOneOf v (Schema t f d ps rq it rf dp en oo mnl mxl mn mx pa) =
     Schema t f d ps rq it rf dp en v mnl mxl mn mx pa"

fun set_sMinLength :: "int option \<Rightarrow> Schema \<Rightarrow> Schema" where
  "set_sMinLength v (Schema t f d ps rq it rf dp en oo mnl mxl mn mx pa) =
     Schema t f d ps rq it rf dp en oo v mxl mn mx pa"

fun set_sMaxLength :: "int option \<Rightarrow> Schema \<Rightarrow> Schema" where
  "set_sMaxLength v (Schema t f d ps rq it rf dp en oo mnl mxl mn mx pa) =
     Schema t f d ps rq it rf dp en oo mnl v mn mx pa"

fun set_sMinimum :: "real option \<Rightarrow> Schema \<Rightarrow> Schema" where
  "set_sMinimum v (Schema t f d ps rq it rf dp en oo mnl mxl mn mx pa) =
     Schema t f d ps rq it rf dp en oo mnl mxl v mx pa"

fun set_sMaximum :: "real option \<Rightarrow> Schema \<Rightarrow> Schema" where
  "set_sMaximum v (Schema t f d ps rq it rf dp en oo mnl mxl mn mx pa) =
     Schema t f d ps rq it rf dp en oo mnl mxl mn v pa"

fun set_sPattern :: "string \<Rightarrow> Schema \<Rightarrow> Schema" where
  "set_sPattern v (Schema t f d ps rq it rf dp en oo mnl mxl mn mx pa) =
     Schema t f d ps rq it rf dp en oo mnl mxl mn mx v"

text \<open>The schema literals that the converter writes.\<close>

definition schemaOfType :: "string \<Rightarrow> Schema" where
  "schemaOfType t = set_sType t emptySchema"

definition schemaOfTypeFormat :: "string \<Rightarrow> string \<Rightarrow> Schema" where
  "schemaOfTypeFormat t f = set_sFormat f (set_sType t emptySchema)"

definition schemaOfRef :: "string \<Rightarrow> Schema" where
  "schemaOfRef r = set_sRef r emptySchema"

definition schemaArrayOf :: "Schema \<Rightarrow> Schema" where
  "schemaArrayOf items = set_sItems (Some items) (set_sType ''array'' emptySchema)"

definition schemaOfTypeDescription :: "string \<Rightarrow> string \<Rightarrow> Schema" where
  "schemaOfTypeDescription t d = set_sDescription d (set_sType t emptySchema)"

record MediaType =
  mt_Schema :: "Schema option"

record Response =
  resp_Description :: string
  resp_Content :: "(string \<times> MediaType) list"

record RequestBody =
  rb_Description :: string
  rb_Required :: bool
  rb_Content :: "(string \<times> MediaType) list"

record Parameter =
  p_Name :: string
  p_In :: string
  p_Description :: string
  p_Required :: bool
  p_Schema :: "Schema option"
  p_Style :: string
  p_Explode :: bool

record Operation =
  op_OperationID :: string
  op_Summary :: string
  op_Description :: string
  op_Parameters :: "Parameter list"
  op_RequestBody :: "RequestBody option"
  op_Responses :: "(string \<times> Response) list"
  op_Deprecated :: bool

record PathItem =
  pi_Get :: "Operation option"
  pi_Post :: "Operation option"
  pi_Put :: "Operation option"
  pi_Delete :: "Operation option"
  pi_Patch :: "Operation option"
  pi_Options :: "Operation option"

record Info =
  info_Title :: string
  info_Description :: string
  info_Version :: string

record Server =
  srv_URL :: string
  srv_Description :: string

record Components =
  comp_Schemas :: "(string \<times> Schema) list"

record OpenAPIDocument =
  doc_OpenAPI :: string
  doc_Info :: Info
  doc_Servers :: "Server list"
  doc_Paths :: "(string \<times> PathItem) list"
  doc_Components :: Components

definition emptyPathItem :: PathItem where
  "emptyPathItem =
     \<lparr> pi_Get = None, pi_Post = None, pi_Put = None, pi_Delete = None, pi_Patch = None,
       pi_Options = None \<rparr>"

definition jsonResponse200 :: "Schema \<Rightarrow> (string \<times> Response) list" where
  "jsonResponse200 schema =
     [(''200'', \<lparr> resp_Description = ''Successful response'',
                  resp_Content = [(''application/json'', \<lparr> mt_Schema = Some schema \<rparr>)] \<rparr>)]"

definition idPathParameter :: Parameter where
  "idPathParameter =
     \<lparr> p_Name = ''id'', p_In = ''path'', p_Description = [], p_Required = True,
       p_Schema = Some (schemaOfType ''string''), p_Style = [], p_Explode = False \<rparr>"

section \<open>Type mapper\<close>

fun convertFieldType :: "ast_Schema \<Rightarrow> GType \<Rightarrow> Schema" where
  "convertFieldType sch (ListT elem nn) = schemaArrayOf (convertFieldType sch elem)"
| "convertFieldType sch (NamedT typeName nn) =
     (if typeName = ''Int'' then schemaOfTypeFormat ''integer'' ''int32''
      else if typeName = ''Float'' then schemaOfTypeFormat ''number'' ''double''
      else if typeName = ''String'' then schemaOfType ''string''
      else if typeName = ''Boolean'' then schemaOfType ''boolean''
      else if typeName = ''ID'' then schemaOfType ''string''
      else if isBuiltInType typeName then schemaOfType ''object''
      else (case map_of (ast_Types sch) typeName of
              Some d \<Rightarrow>
                if def_Kind d = Object \<or> def_Kind d = InputObject \<or> def_Kind d = Enum \<or>
                   def_Kind d = Union \<or> def_Kind d = Interface
                then schemaOfRef (''#/components/schemas/'' @ typeName)
                else schemaOfType ''string''
            | None \<Rightarrow> schemaOfType ''string''))"

section \<open>Descriptions and summaries\<close>

definition camelToTitle :: "string \<Rightarrow> string" where
  "camelToTitle s =
     (case s of
        [] \<Rightarrow> []
      | r # rs \<Rightarrow>
          ToUpper [r] @
          concat (map (\<lambda>r. if CHR ''A'' \<le> r \<and> r \<le> CHR ''Z'' then [CHR '' '', r] else [r]) rs))"

definition actionVerbs :: "string list" where
  "actionVerbs =
     [''List '', ''Get '', ''Fetch '', ''Retrieve '', ''Find '',
      ''Create '', ''Add '', ''Insert '', ''Post '',
      ''Update '', ''Modify '', ''Edit '', ''Put '', ''Patch '',
      ''Delete '', ''Remove '', ''Destroy '',
      ''Search '', ''Query '', ''Filter '']"

definition addFieldNamePrefix :: "string \<Rightarrow> string \<Rightarrow> string" where
  "addFieldNamePrefix fieldName description =
     (if description = [] then camelToTitle fieldName
      else if list_ex (\<lambda>verb. HasPrefix description verb) actionVerbs then description
      else camelToTitle fieldName @ '' - '' @ description)"

text \<open>
  The loop of \<open>splitDescription\<close> over the punctuation candidates; the accumulator is the
  pair \<open>(firstPunctIdx, firstPunctLen)\<close>, \<open>None\<close> while \<open>firstPunctIdx\<close> is \<open>-1\<close>.
\<close>

fun firstPunct :: "string \<Rightarrow> string list \<Rightarrow> (nat \<times> nat) option \<Rightarrow> (nat \<times> nat) option" where
  "firstPunct text [] acc = acc"
| "firstPunct text (punc # rest) acc =
     (case Index text punc of
        None \<Rightarrow> firstPunct text rest acc
      | Some idx \<Rightarrow>
          (case acc of
             None \<Rightarrow> firstPunct text rest (Some (idx, length punc))
           | Some (firstPunctIdx, firstPunctLen) \<Rightarrow>
               if idx < firstPunctIdx then firstPunct text rest (Some (idx, length punc))
               else firstPunct text rest acc))"

definition splitDescription :: "string \<Rightarrow> string \<times> string" where
  "splitDescription text =
     (if text = [] then ([], [])
      else (case firstPunct text [''. '', ''! '', ''? '', '': '', ''; '', '' - ''] None of
              None \<Rightarrow> (text, text)
            | Some (firstPunctIdx, firstPunctLen) \<Rightarrow>
                (if firstPunctLen = 3 then TrimSpace (take firstPunctIdx text)
                 else TrimSpace (take (firstPunctIdx + 1) text),
                 TrimSpace text)))"

definition tripleQuote :: string where
  "tripleQuote = [CHR 0x22, CHR 0x22, CHR 0x22]"

text \<open>
  The loop of \<open>extractSchemaDescription\<close> over the lines of the source text, with the
  variables \<open>desc\<close> and \<open>inBlockComment\<close>; a \<open>break\<close> returns \<open>desc\<close>.
\<close>

fun extractLines :: "string list \<Rightarrow> string list \<Rightarrow> bool \<Rightarrow> string list" where
  "extractLines [] desc inBlockComment = desc"
| "extractLines (line # rest) desc inBlockComment =
     (let trimmed = TrimSpace line in
      if HasPrefix trimmed tripleQuote then
        (if inBlockComment then extractLines rest desc False
         else if Count trimmed tripleQuote \<ge> 2 then
           extractLines rest
             (desc @ [TrimSpace (TrimSuffix (TrimPrefix trimmed tripleQuote) tripleQuote)]) False
         else extractLines rest desc True)
      else if inBlockComment then extractLines rest (desc @ [trimmed]) inBlockComment
      else if HasPrefix trimmed ''type '' \<or> HasPrefix trimmed ''interface '' \<or>
              HasPrefix trimmed ''scalar '' \<or> HasPrefix trimmed ''enum '' \<or>
              HasPrefix trimmed ''union '' \<or> HasPrefix trimmed ''input '' \<or>
              HasPrefix trimmed ''directive ''
      then desc
      else if trimmed = [] \<and> desc \<noteq> [] then desc
      else extractLines rest desc inBlockComment)"

definition extractSchemaDescription :: "string \<Rightarrow> string" where
  "extractSchemaDescription schemaSource =
     TrimSpace (Join (extractLines (Split schemaSource (CHR 0x0A)) [] False) [CHR 0x0A])"

section \<open>External collaborators\<close>

text \<open>
  The library functions whose results the converter only passes on are parameters of the
  model: \<open>LoadSchema\<close> is the parser (\<open>Inl\<close> carries the message of its error),
  \<open>SscanInt s\<close> is the integer that \<open>fmt.Sscanf(s, "%d", ...)\<close> stores when it reports one
  scanned item and no error, and \<open>SscanFloat\<close> is the same for \<open>"%f"\<close>.
\<close>

record Library =
  LoadSchema :: "string \<Rightarrow> string + ast_Schema"
  SscanInt :: "string \<Rightarrow> int option"
  SscanFloat :: "string \<Rightarrow> real option"

definition parseInt :: "Library \<Rightarrow> string \<Rightarrow> int option" where
  "parseInt lib s = SscanInt lib s"

definition parseFloat :: "Library \<Rightarrow> string \<Rightarrow> real option" where
  "parseFloat lib s = SscanFloat lib s"

section \<open>Directive processors\<close>

text \<open>One iteration of the loop of \<open>applyConstraints\<close> over the directive's arguments.\<close>

definition applyConstraint :: "Library \<Rightarrow> Schema \<Rightarrow> Argument \<Rightarrow> Schema" where
  "applyConstraint lib schema arg =
     (let raw = Trim (val_Raw (arg_Value arg)) [CHR 0x22] in
      if arg_Name arg = ''minLength'' \<or> arg_Name arg = ''maxLength'' then
        (case parseInt lib raw of
           Some v \<Rightarrow>
             if arg_Name arg = ''minLength'' then set_sMinLength (Some v) schema
             else set_sMaxLength (Some v) schema
         | None \<Rightarrow> schema)
      else if arg_Name arg = ''min'' \<or> arg_Name arg = ''max'' then
        (case parseFloat lib raw of
           Some v \<Rightarrow>
             if arg_Name arg = ''min'' then set_sMinimum (Some v) schema
             else set_sMaximum (Some v) schema
         | None \<Rightarrow> schema)
      else if arg_Name arg = ''pattern'' then set_sPattern raw schema
      else if arg_Name arg = ''format'' then set_sFormat raw schema
      else schema)"

definition applyConstraints :: "Library \<Rightarrow> Schema \<Rightarrow> Directive \<Rightarrow> Schema" where
  "applyConstraints lib schema directive =
     foldl (applyConstraint lib) schema (dir_Arguments directive)"

definition applySpecifiedBy :: "Schema \<Rightarrow> string \<Rightarrow> Schema" where
  "applySpecifiedBy schema url =
     (let schema1 =
            (if Contains url ''rfc4122'' \<or> Contains (ToLower url) ''uuid''
             then set_sFormat ''uuid'' schema
             else if Contains (ToLower url) ''date-time'' then set_sFormat ''date-time'' schema
             else schema)
      in if sDescription schema1 \<noteq> []
         then set_sDescription (sDescription schema1 @ [CHR 0x0A, CHR 0x0A] @ ''Spec: '' @ url) schema1
         else set_sDescription (''Spec: '' @ url) schema1)"

section \<open>Type converter\<close>

text \<open>
  The receiver of the converter's methods. \<open>c_schema\<close> is the parsed schema that the
  receiver points to, and \<open>c_doc\<close> the document under construction; a method that writes to
  either returns the receiver after the write.
\<close>

record Converter =
  c_config :: Config
  c_schema :: ast_Schema
  c_doc :: OpenAPIDocument

text \<open>\<open>c.doc.Components.Schemas[name] = schema\<close>\<close>

definition setComponentSchema :: "string \<Rightarrow> Schema \<Rightarrow> Converter \<Rightarrow> Converter" where
  "setComponentSchema name schema c =
     c\<lparr> c_doc := (c_doc c)\<lparr> doc_Components :=
          \<lparr> comp_Schemas = AList.update name schema (comp_Schemas (doc_Components (c_doc c))) \<rparr> \<rparr> \<rparr>"

definition convertEnumType :: "Converter \<Rightarrow> Definition \<Rightarrow> Converter" where
  "convertEnumType c typeDef =
     (let schema = set_sEnum (map ev_Name (def_EnumValues typeDef)) (schemaOfType ''string'');
          schema1 = (if def_Description typeDef \<noteq> []
                     then set_sDescription (def_Description typeDef) schema else schema)
      in setComponentSchema (def_Name typeDef) schema1 c)"

definition convertUnionType :: "Converter \<Rightarrow> Definition \<Rightarrow> Converter" where
  "convertUnionType c typeDef =
     (let oneOf = map (\<lambda>t. schemaOfRef (''#/components/schemas/'' @ t)) (def_Types typeDef);
          schema = set_sOneOf oneOf emptySchema;
          schema1 = (if def_Description typeDef \<noteq> []
                     then set_sDescription (def_Description typeDef) schema else schema)
      in setComponentSchema (def_Name typeDef) schema1 c)"

definition interfaceField :: "Converter \<Rightarrow> Schema \<Rightarrow> FieldDefinition \<Rightarrow> Schema" where
  "interfaceField c schema field =
     (let propSchema = convertFieldType (c_schema c) (fd_Type field);
          propSchema1 = (if fd_Description field \<noteq> []
                         then set_sDescription
                                (addFieldNamePrefix (fd_Name field) (fd_Description field)) propSchema
                         else propSchema)
      in set_sProperties (AList.update (fd_Name field) propSchema1 (sProperties schema)) schema)"

definition convertInterfaceType :: "Converter \<Rightarrow> Definition \<Rightarrow> Converter" where
  "convertInterfaceType c typeDef =
     (let schema = schemaOfType ''object'';
          schema1 = (if def_Description typeDef \<noteq> []
                     then set_sDescription (def_Description typeDef) schema else schema);
          schema2 = foldl (interfaceField c) schema1 (def_Fields typeDef)
      in setComponentSchema (def_Name typeDef) schema2 c)"

text \<open>
  The body of the loop of \<open>convertType\<close> up to the comment "Handle object/list references":
  the property schema of one field after the description and the three directives.
\<close>

definition fieldPropSchema :: "Library \<Rightarrow> Converter \<Rightarrow> FieldDefinition \<Rightarrow> Schema" where
  "fieldPropSchema lib c field =
     (let propSchema = convertFieldType (c_schema c) (fd_Type field);
          propSchema1 =
            (if fd_Description field \<noteq> []
             then set_sDescription
                    (addFieldNamePrefix (fd_Name field) (fd_Description field)) propSchema
             else propSchema);
          propSchema2 =
            (case directiveForName (fd_Directives field) ''deprecated'' of
               None \<Rightarrow> propSchema1
             | Some deprecated \<Rightarrow>
                 (case argumentForName (dir_Arguments deprecated) ''reason'' of
                    None \<Rightarrow> set_sDeprecated True propSchema1
                  | Some reason \<Rightarrow>
                      set_sDescription
                        (camelToTitle (fd_Name field) @ '' - DEPRECATED: '' @
                         Trim (val_String (arg_Value reason)) [CHR 0x22])
                        (set_sDeprecated True propSchema1)));
          propSchema3 =
            (case directiveForName (fd_Directives field) ''constraint'' of
               None \<Rightarrow> propSchema2
             | Some constraint \<Rightarrow> applyConstraints lib propSchema2 constraint)
      in (case map_of (ast_Types (c_schema c)) (Type_Name (fd_Type field)) of
            None \<Rightarrow> propSchema3
          | Some fieldType \<Rightarrow>
              (case directiveForName (def_Directives fieldType) ''specifiedBy'' of
                 None \<Rightarrow> propSchema3
               | Some specifiedBy \<Rightarrow>
                   (case argumentForName (dir_Arguments specifiedBy) ''url'' of
                      None \<Rightarrow> propSchema3
                    | Some urlArg \<Rightarrow>
                        applySpecifiedBy propSchema3
                          (Trim (val_String (arg_Value urlArg)) [CHR 0x22])))))"

text \<open>
  The rest of the loop body. The result is the field as the iteration leaves it (the code
  assigns to \<open>field.Name\<close>) and the schema under construction; a list of a type that is
  neither scalar nor built-in leaves both unchanged (\<open>continue\<close>).
\<close>

definition objectReferenceSchema :: "Config \<Rightarrow> string \<Rightarrow> string \<Rightarrow> Schema" where
  "objectReferenceSchema cfg fieldTypeName fieldName =
     schemaOfTypeDescription ''string''
       (''Reference to '' @ fieldTypeName @ ''.id - use GET /'' @
        pluralize cfg (ToLower fieldTypeName) @ ''/{'' @ fieldName @ ''Id}'')"

definition addProperty :: "FieldDefinition \<Rightarrow> Schema \<Rightarrow> Schema \<Rightarrow> Schema" where
  "addProperty field propSchema schema =
     (let schema1 = set_sProperties (AList.update (fd_Name field) propSchema (sProperties schema)) schema
      in if NonNull (fd_Type field)
         then set_sRequired (sRequired schema1 @ [fd_Name field]) schema1
         else schema1)"

definition convertTypeField ::
  "Library \<Rightarrow> Converter \<Rightarrow> Schema \<Rightarrow> FieldDefinition \<Rightarrow> FieldDefinition \<times> Schema" where
  "convertTypeField lib c schema field =
     (let propSchema = fieldPropSchema lib c field;
          fieldTypeName = Type_Name (fd_Type field)
      in (case Elem (fd_Type field) of
            Some elem \<Rightarrow>
              (let elemType = NamedType elem in
               if \<not> isScalarType elemType \<and> \<not> isBuiltInType elemType then (field, schema)
               else (field, addProperty field propSchema schema))
          | None \<Rightarrow>
              if \<not> isScalarType fieldTypeName \<and> \<not> isBuiltInType fieldTypeName then
                (let propSchema1 = objectReferenceSchema (c_config c) fieldTypeName (fd_Name field);
                     field1 = field\<lparr> fd_Name := fd_Name field @ ''Id'' \<rparr>
                 in (field1, addProperty field1 propSchema1 schema))
              else (field, addProperty field propSchema schema)))"

text \<open>
  The loop over \<open>typeDef.Fields\<close>: the fields as the loop leaves them, and the schema. Inside
  the loop the code reads from the parsed schema only kinds and directives of definitions,
  which nothing writes to, so the loop reads the receiver as it is on entry.
\<close>

fun convertTypeFields ::
  "Library \<Rightarrow> Converter \<Rightarrow> Schema \<Rightarrow> FieldDefinition list \<Rightarrow> FieldDefinition list \<times> Schema" where
  "convertTypeFields lib c schema [] = ([], schema)"
| "convertTypeFields lib c schema (field # rest) =
     (case convertTypeField lib c schema field of
        (field1, schema1) \<Rightarrow>
          (case convertTypeFields lib c schema1 rest of
             (fields1, schema2) \<Rightarrow> (field1 # fields1, schema2)))"

text \<open>
  \<open>convertType\<close> receives a pointer to a definition, here the key \<open>ptr\<close> of the store. The
  renamed fields are written back to the store under that key.
\<close>

definition convertType :: "Library \<Rightarrow> Converter \<Rightarrow> string \<Rightarrow> Converter" where
  "convertType lib c ptr =
     (case map_of (ast_Types (c_schema c)) ptr of
        None \<Rightarrow> c
      | Some typeDef \<Rightarrow>
          if def_Kind typeDef \<noteq> Object \<and> def_Kind typeDef \<noteq> InputObject then c
          else
            (let schema = schemaOfType ''object'';
                 schema1 = (if def_Description typeDef \<noteq> []
                            then set_sDescription (def_Description typeDef) schema else schema)
             in (case convertTypeFields lib c schema1 (def_Fields typeDef) of
                   (fields1, schema2) \<Rightarrow>
                     setComponentSchema (def_Name typeDef) schema2
                       (c\<lparr> c_schema := (c_schema c)\<lparr> ast_Types :=
                             AList.update ptr (typeDef\<lparr> def_Fields := fields1 \<rparr>)
                               (ast_Types (c_schema c)) \<rparr> \<rparr>))))"

section \<open>REST pattern detector\<close>

text \<open>
  \<open>rp_Type\<close> is a pointer to a definition of the parsed schema (see \<open>ast_Schema\<close>), and
  \<open>rp_Operations\<close> is the Go map from operation names to booleans; a missing key reads as
  \<open>false\<close>.
\<close>

record RESTPattern =
  rp_Resource :: string
  rp_Plural :: string
  rp_Type :: "string option"
  rp_Operations :: "(string \<times> bool) list"

definition hasOperation :: "RESTPattern \<Rightarrow> string \<Rightarrow> bool" where
  "hasOperation pattern op = (map_of (rp_Operations pattern) op = Some True)"

text \<open>\<open>c.schema.Types[typeName]\<close>: the pointer stored under the name, nil if there is none.\<close>

definition lookupType :: "ast_Schema \<Rightarrow> string \<Rightarrow> string option" where
  "lookupType sch typeName =
     (case map_of (ast_Types sch) typeName of None \<Rightarrow> None | Some d \<Rightarrow> Some typeName)"

text \<open>Reading through a pointer to a definition.\<close>

definition deref :: "ast_Schema \<Rightarrow> string option \<Rightarrow> Definition option" where
  "deref sch ptr = (case ptr of None \<Rightarrow> None | Some k \<Rightarrow> map_of (ast_Types sch) k)"

text \<open>\<open>if patterns[resource] == nil { patterns[resource] = &RESTPattern{...} }\<close>\<close>

definition ensurePattern ::
  "string \<Rightarrow> string \<Rightarrow> (string \<times> RESTPattern) list \<Rightarrow> (string \<times> RESTPattern) list" where
  "ensurePattern resource plural patterns =
     (if map_of patterns resource = None
      then AList.update resource
             \<lparr> rp_Resource = resource, rp_Plural = plural, rp_Type = None, rp_Operations = [] \<rparr>
             patterns
      else patterns)"

text \<open>\<open>patterns[resource].Operations[op] = true\<close>\<close>

definition markOperation ::
  "string \<Rightarrow> string \<Rightarrow> (string \<times> RESTPattern) list \<Rightarrow> (string \<times> RESTPattern) list" where
  "markOperation resource op patterns =
     AList.map_entry resource
       (\<lambda>pattern. pattern\<lparr> rp_Operations := AList.update op True (rp_Operations pattern) \<rparr>)
       patterns"

text \<open>\<open>patterns[resource].Type = c.schema.Types[typeName]\<close>\<close>

definition bindType ::
  "string \<Rightarrow> string option \<Rightarrow> (string \<times> RESTPattern) list \<Rightarrow> (string \<times> RESTPattern) list" where
  "bindType resource ptr patterns =
     AList.map_entry resource (\<lambda>pattern. pattern\<lparr> rp_Type := ptr \<rparr>) patterns"

text \<open>The body of the first pass, for one field of the query type.\<close>

definition detectListField ::
  "Converter \<Rightarrow> (string \<times> RESTPattern) list \<Rightarrow> FieldDefinition \<Rightarrow> (string \<times> RESTPattern) list" where
  "detectListField c patterns field =
     (case Elem (fd_Type field) of
        None \<Rightarrow> patterns
      | Some elem \<Rightarrow>
          if NamedType elem \<noteq> [] then
            (let typeName = NamedType elem;
                 singular = singularize (c_config c) (fd_Name field)
             in if singular \<noteq> fd_Name field
                then bindType singular (lookupType (c_schema c) typeName)
                       (markOperation singular ''list''
                          (ensurePattern singular (fd_Name field) patterns))
                else patterns)
          else patterns)"

definition hasOnlyIdArgument :: "FieldDefinition \<Rightarrow> bool" where
  "hasOnlyIdArgument field =
     (case fd_Arguments field of [a] \<Rightarrow> ad_Name a = ''id'' | _ \<Rightarrow> False)"

definition detectGetField ::
  "Converter \<Rightarrow> (string \<times> RESTPattern) list \<Rightarrow> FieldDefinition \<Rightarrow> (string \<times> RESTPattern) list" where
  "detectGetField c patterns field =
     (if hasOnlyIdArgument field then
        (let typeName = Type_Name (fd_Type field) in
         if fd_Name field = singularize (c_config c) typeName \<or>
            ToLower (fd_Name field) = ToLower typeName
         then bindType (fd_Name field) (lookupType (c_schema c) typeName)
                (markOperation (fd_Name field) ''get''
                   (ensurePattern (fd_Name field) (pluralize (c_config c) (fd_Name field))
                      patterns))
         else patterns)
      else patterns)"

definition detectQueryField ::
  "Converter \<Rightarrow> (string \<times> RESTPattern) list \<Rightarrow> FieldDefinition \<Rightarrow> (string \<times> RESTPattern) list" where
  "detectQueryField c patterns field = detectGetField c (detectListField c patterns field) field"

text \<open>One of the three checks of the second pass: a prefix and the operation it stands for.\<close>

definition detectCRUD ::
  "string \<Rightarrow> string \<Rightarrow> string \<Rightarrow> (string \<times> RESTPattern) list \<Rightarrow> (string \<times> RESTPattern) list" where
  "detectCRUD prefix op name patterns =
     (if prefix \<noteq> [] \<and> HasPrefix name prefix then
        (let resource = uncapitalize (TrimPrefix name prefix) in
         if map_of patterns resource \<noteq> None then markOperation resource op patterns
         else patterns)
      else patterns)"

definition detectMutationField ::
  "Converter \<Rightarrow> (string \<times> RESTPattern) list \<Rightarrow> FieldDefinition \<Rightarrow> (string \<times> RESTPattern) list" where
  "detectMutationField c patterns field =
     (let name = fd_Name field in
      detectCRUD (CRUDPrefixDelete (c_config c)) ''delete'' name
        (detectCRUD (CRUDPrefixUpdate (c_config c)) ''update'' name
           (detectCRUD (CRUDPrefixCreate (c_config c)) ''create'' name patterns)))"

definition queryPass :: "Converter \<Rightarrow> (string \<times> RESTPattern) list" where
  "queryPass c =
     (case deref (c_schema c) (ast_Query (c_schema c)) of
        None \<Rightarrow> []
      | Some queryType \<Rightarrow> foldl (detectQueryField c) [] (def_Fields queryType))"

definition mutationPass ::
  "Converter \<Rightarrow> (string \<times> RESTPattern) list \<Rightarrow> (string \<times> RESTPattern) list" where
  "mutationPass c patterns =
     (case deref (c_schema c) (ast_Mutation (c_schema c)) of
        None \<Rightarrow> patterns
      | Some mutationType \<Rightarrow> foldl (detectMutationField c) patterns (def_Fields mutationType))"

text \<open>
  \<open>detectRESTPatterns\<close>; \<open>candidatePatterns\<close> is the map \<open>patterns\<close> when the two passes are
  done. The notice that the code prints for every pattern it keeps is not modelled.
\<close>

definition candidatePatterns :: "Converter \<Rightarrow> (string \<times> RESTPattern) list" where
  "candidatePatterns c = mutationPass c (queryPass c)"

definition detectRESTPatterns :: "Converter \<Rightarrow> (string \<times> RESTPattern) list" where
  "detectRESTPatterns c =
     filter (\<lambda>(resource, pattern). hasOperation pattern ''list'' \<and> hasOperation pattern ''create'')
       (candidatePatterns c)"

section \<open>Operations from root fields\<close>

text \<open>
  The block "Handle deprecated directive", which \<open>convertQueryField\<close>,
  \<open>convertMutationField\<close> and \<open>convertSubscriptionField\<close> each contain in the same words.
\<close>

definition applyDeprecated :: "Directive list \<Rightarrow> Operation \<Rightarrow> Operation" where
  "applyDeprecated directives op =
     (case directiveForName directives ''deprecated'' of
        None \<Rightarrow> op
      | Some deprecated \<Rightarrow>
          (case argumentForName (dir_Arguments deprecated) ''reason'' of
             None \<Rightarrow> op\<lparr> op_Deprecated := True \<rparr>
           | Some reason \<Rightarrow>
               (let depReason = Trim (val_String (arg_Value reason)) [CHR 0x22] in
                op\<lparr> op_Deprecated := True,
                    op_Summary := ''DEPRECATED: '' @ depReason,
                    op_Description :=
                      (if op_Description op \<noteq> []
                       then ''DEPRECATED: '' @ depReason @ [CHR 0x0A, CHR 0x0A] @ op_Description op
                       else ''DEPRECATED: '' @ depReason) \<rparr>)))"

definition queryParameter :: "ast_Schema \<Rightarrow> ArgumentDefinition \<Rightarrow> Parameter" where
  "queryParameter sch arg =
     \<lparr> p_Name = ad_Name arg, p_In = ''query'', p_Description = ad_Description arg,
       p_Required = NonNull (ad_Type arg),
       p_Schema = Some (convertFieldType sch (ad_Type arg)),
       p_Style = (if Elem (ad_Type arg) \<noteq> None then ''form'' else []),
       p_Explode = (Elem (ad_Type arg) \<noteq> None) \<rparr>"

definition convertQueryField :: "Converter \<Rightarrow> FieldDefinition \<Rightarrow> Operation" where
  "convertQueryField c field =
     (case splitDescription (addFieldNamePrefix (fd_Name field) (fd_Description field)) of
        (summary, description) \<Rightarrow>
          (let op = \<lparr> op_OperationID = fd_Name field, op_Summary = summary,
                      op_Description = description, op_Parameters = [], op_RequestBody = None,
                      op_Responses = jsonResponse200 (convertFieldType (c_schema c) (fd_Type field)),
                      op_Deprecated = False \<rparr>;
               op1 = (if op_Summary op = []
                      then op\<lparr> op_Summary := camelToTitle (fd_Name field), op_Description := [] \<rparr>
                      else op);
               op2 = applyDeprecated (fd_Directives field) op1
           in op2\<lparr> op_Parameters :=
                     op_Parameters op2 @ map (queryParameter (c_schema c)) (fd_Arguments field) \<rparr>))"

text \<open>The loop of \<open>convertMutationField\<close> over the arguments, filling the body schema.\<close>

definition bodyProperty :: "ast_Schema \<Rightarrow> Schema \<Rightarrow> ArgumentDefinition \<Rightarrow> Schema" where
  "bodyProperty sch bodySchema arg =
     (let propSchema = convertFieldType sch (ad_Type arg);
          propSchema1 = (if ad_Description arg \<noteq> []
                         then set_sDescription (ad_Description arg) propSchema else propSchema);
          bodySchema1 = set_sProperties
                          (AList.update (ad_Name arg) propSchema1 (sProperties bodySchema)) bodySchema
      in if NonNull (ad_Type arg)
         then set_sRequired (sRequired bodySchema1 @ [ad_Name arg]) bodySchema1
         else bodySchema1)"

definition convertMutationField :: "Converter \<Rightarrow> FieldDefinition \<Rightarrow> string \<Rightarrow> Operation" where
  "convertMutationField c field fallbackSummary =
     (case (if fd_Description field \<noteq> []
            then splitDescription (addFieldNamePrefix (fd_Name field) (fd_Description field))
            else if fallbackSummary \<noteq> [] then (fallbackSummary, fallbackSummary)
            else (camelToTitle (fd_Name field), [])) of
        (opSummary, opDescription) \<Rightarrow>
          (let op = \<lparr> op_OperationID = fd_Name field, op_Summary = opSummary,
                      op_Description = opDescription, op_Parameters = [], op_RequestBody = None,
                      op_Responses = jsonResponse200 (convertFieldType (c_schema c) (fd_Type field)),
                      op_Deprecated = False \<rparr>;
               op1 = applyDeprecated (fd_Directives field) op
           in if length (fd_Arguments field) > 0
              then op1\<lparr> op_RequestBody := Some
                     \<lparr> rb_Description = [], rb_Required = True,
                       rb_Content =
                         [(''application/json'',
                           \<lparr> mt_Schema = Some (foldl (bodyProperty (c_schema c))
                                                  (schemaOfType ''object'') (fd_Arguments field)) \<rparr>)] \<rparr> \<rparr>
              else op1))"

section \<open>Subscriptions\<close>

definition buildSubscriptionPath :: "Converter \<Rightarrow> FieldDefinition \<Rightarrow> string" where
  "buildSubscriptionPath c field =
     (let basePath = ''/'' @ fd_Name field in
      case find (\<lambda>arg. NonNull (ad_Type arg)) (fd_Arguments field) of
        Some arg \<Rightarrow> addPrefix (c_config c) (basePath @ ''/{'' @ ad_Name arg @ ''}'')
      | None \<Rightarrow> addPrefix (c_config c) basePath)"

text \<open>
  The loop of \<open>convertSubscriptionField\<close> over the arguments; the flag is the variable
  \<open>pathParamUsed\<close>.
\<close>

fun subscriptionParameters ::
  "ast_Schema \<Rightarrow> bool \<Rightarrow> ArgumentDefinition list \<Rightarrow> Parameter list" where
  "subscriptionParameters sch pathParamUsed [] = []"
| "subscriptionParameters sch pathParamUsed (arg # rest) =
     (if NonNull (ad_Type arg) \<and> \<not> pathParamUsed then
        \<lparr> p_Name = ad_Name arg, p_In = ''path'', p_Description = ad_Description arg,
          p_Required = True, p_Schema = Some (convertFieldType sch (ad_Type arg)),
          p_Style = [], p_Explode = False \<rparr>
        # subscriptionParameters sch True rest
      else queryParameter sch arg # subscriptionParameters sch pathParamUsed rest)"

definition sseDescription :: "string \<Rightarrow> string \<Rightarrow> string" where
  "sseDescription fieldName returnTypeName =
     ''Server-Sent Events (SSE) stream.'' @ [CHR 0x0A, CHR 0x0A] @
     ''Each event is formatted as:'' @ [CHR 0x0A] @
     ''  event: '' @ fieldName @ [CHR 0x0A] @
     ''  data: <JSON-encoded '' @ returnTypeName @ '' object>'' @ [CHR 0x0A, CHR 0x0A] @
     ''Example:'' @ [CHR 0x0A] @
     ''  event: '' @ fieldName @ [CHR 0x0A] @
     ''  data: {'' @ [CHR 0x22] @ ''id'' @ [CHR 0x22] @ '':'' @ [CHR 0x22] @ ''123'' @ [CHR 0x22] @
     '',...}'' @ [CHR 0x0A, CHR 0x0A] @
     ''The connection remains open and events are pushed as they occur.'' @ [CHR 0x0A] @
     ''Use the EventSource API in browsers or any SSE client library.''"

definition convertSubscriptionField :: "Converter \<Rightarrow> FieldDefinition \<Rightarrow> Operation" where
  "convertSubscriptionField c field =
     (case splitDescription (addFieldNamePrefix (fd_Name field) (fd_Description field)) of
        (summary, description) \<Rightarrow>
          (let returnTypeName =
                 (case Elem (fd_Type field) of
                    Some elem \<Rightarrow> NamedType elem
                  | None \<Rightarrow> Type_Name (fd_Type field));
               sse = sseDescription (fd_Name field) returnTypeName;
               sse1 = (if description \<noteq> [] then description @ [CHR 0x0A, CHR 0x0A] @ sse else sse);
               op = \<lparr> op_OperationID = ''subscribe'' @ capitalize (fd_Name field),
                      op_Summary = ''Subscribe: '' @ summary,
                      op_Description = sse1, op_Parameters = [], op_RequestBody = None,
                      op_Responses =
                        [(''200'',
                          \<lparr> resp_Description = ''SSE stream of '' @ returnTypeName @ '' events'',
                            resp_Content =
                              [(''text/event-stream'',
                                \<lparr> mt_Schema = Some (schemaOfTypeDescription ''string''
                                    (''Server-Sent Events stream. Each event contains a '' @
                                     returnTypeName @ '' object in JSON format.'')) \<rparr>)] \<rparr>)],
                      op_Deprecated = False \<rparr>;
               op1 = (if op_Summary op = [] \<or> op_Summary op = ''Subscribe: ''
                      then op\<lparr> op_Summary := ''Subscribe to '' @ camelToTitle (fd_Name field) \<rparr>
                      else op);
               op2 = applyDeprecated (fd_Directives field) op1
           in op2\<lparr> op_Parameters :=
                     op_Parameters op2 @ subscriptionParameters (c_schema c) False (fd_Arguments field) \<rparr>))"

section \<open>Path builder\<close>

text \<open>
  The two outcomes of \<open>Convert\<close> other than a document: the error it returns when the
  parser fails, and the run-time panic of reading a field through a nil pointer.
\<close>

datatype error = ParseError string | NilPointerDereference

text \<open>\<open>if c.doc.Paths[path] == nil { c.doc.Paths[path] = &PathItem{} }\<close>\<close>

definition ensurePath :: "string \<Rightarrow> Converter \<Rightarrow> Converter" where
  "ensurePath path c =
     (if map_of (doc_Paths (c_doc c)) path = None
      then c\<lparr> c_doc := (c_doc c)\<lparr> doc_Paths := AList.update path emptyPathItem (doc_Paths (c_doc c)) \<rparr> \<rparr>
      else c)"

text \<open>An assignment to a field of \<open>c.doc.Paths[path]\<close>.\<close>

definition updatePath :: "string \<Rightarrow> (PathItem \<Rightarrow> PathItem) \<Rightarrow> Converter \<Rightarrow> Converter" where
  "updatePath path f c =
     c\<lparr> c_doc := (c_doc c)\<lparr> doc_Paths := AList.map_entry path f (doc_Paths (c_doc c)) \<rparr> \<rparr>"

definition setGet :: "string \<Rightarrow> Operation \<Rightarrow> Converter \<Rightarrow> Converter" where
  "setGet path op c = updatePath path (\<lambda>item. item\<lparr> pi_Get := Some op \<rparr>) (ensurePath path c)"

definition plainOperation :: "string \<Rightarrow> string \<Rightarrow> Parameter list \<Rightarrow> Schema \<Rightarrow> Operation" where
  "plainOperation operationID summary parameters schema =
     \<lparr> op_OperationID = operationID, op_Summary = summary, op_Description = [],
       op_Parameters = parameters, op_RequestBody = None,
       op_Responses = jsonResponse200 schema, op_Deprecated = False \<rparr>"

text \<open>
  The body of the first loop of \<open>convertQueries\<close>, for one detected pattern. The state is the
  receiver and the keys of \<open>processedFields\<close>. \<open>pattern.Type.Name\<close> reads through the
  pattern's pointer and panics if it is nil.
\<close>

definition queryPatternList ::
  "string \<Rightarrow> RESTPattern \<Rightarrow> Converter \<times> string list \<Rightarrow> error + Converter \<times> string list" where
  "queryPatternList resource pattern st =
     (case st of (c, processedFields) \<Rightarrow>
        (let plural = rp_Plural pattern;
             path = addPrefix (c_config c) (''/'' @ plural)
         in if hasOperation pattern ''list'' then
              (case deref (c_schema c) (rp_Type pattern) of
                 None \<Rightarrow> Inl NilPointerDereference
               | Some typeDef \<Rightarrow>
                   Inr (setGet path
                          (plainOperation (''list'' @ capitalize plural) (''List '' @ plural) []
                             (schemaArrayOf (schemaOfRef (''#/components/schemas/'' @ def_Name typeDef))))
                          c,
                        processedFields @ [plural]))
            else Inr (c, processedFields)))"

definition queryPatternGet ::
  "string \<Rightarrow> RESTPattern \<Rightarrow> Converter \<times> string list \<Rightarrow> error + Converter \<times> string list" where
  "queryPatternGet resource pattern st =
     (case st of (c, processedFields) \<Rightarrow>
        (let plural = rp_Plural pattern;
             idPath = addPrefix (c_config c) (''/'' @ plural @ ''/{id}'')
         in if hasOperation pattern ''get'' then
              (case deref (c_schema c) (rp_Type pattern) of
                 None \<Rightarrow> Inl NilPointerDereference
               | Some typeDef \<Rightarrow>
                   Inr (setGet idPath
                          (plainOperation (''get'' @ capitalize resource)
                             (''Get '' @ resource @ '' by ID'') [idPathParameter]
                             (schemaOfRef (''#/components/schemas/'' @ def_Name typeDef)))
                          c,
                        processedFields @ [resource]))
            else Inr (c, processedFields)))"

fun queryPatterns ::
  "(string \<times> RESTPattern) list \<Rightarrow> Converter \<times> string list \<Rightarrow> error + Converter \<times> string list" where
  "queryPatterns [] st = Inr st"
| "queryPatterns ((resource, pattern) # rest) st =
     (case queryPatternList resource pattern st of
        Inl e \<Rightarrow> Inl e
      | Inr st1 \<Rightarrow>
          (case queryPatternGet resource pattern st1 of
             Inl e \<Rightarrow> Inl e
           | Inr st2 \<Rightarrow> queryPatterns rest st2))"

text \<open>The body of the second loop: a query field that no pattern has consumed.\<close>

definition remainingQuery :: "string list \<Rightarrow> Converter \<Rightarrow> FieldDefinition \<Rightarrow> Converter" where
  "remainingQuery processedFields c field =
     (if fd_Name field \<in> set processedFields then c
      else if HasPrefix (fd_Name field) ''__'' then c
      else setGet (addPrefix (c_config c) (''/'' @ fd_Name field)) (convertQueryField c field) c)"

text \<open>The third loop: sub-resource endpoints for the list fields of the object types.\<close>

definition subResourceField :: "Definition \<Rightarrow> Converter \<Rightarrow> FieldDefinition \<Rightarrow> Converter" where
  "subResourceField typeDef c field =
     (case Elem (fd_Type field) of
        None \<Rightarrow> c
      | Some elem \<Rightarrow>
          if NamedType elem \<noteq> [] then
            (if isScalarType (NamedType elem) then c
             else
               (let resourceName = ToLower (def_Name typeDef);
                    path = addPrefix (c_config c)
                             (''/'' @ pluralize (c_config c) resourceName @ ''/{id}/'' @ fd_Name field)
                in setGet path
                     (plainOperation (''get'' @ def_Name typeDef @ capitalize (fd_Name field))
                        (''Get '' @ fd_Name field @ '' by '' @ resourceName) [idPathParameter]
                        (schemaArrayOf (schemaOfRef (''#/components/schemas/'' @ NamedType elem))))
                     c))
          else c)"

definition subResourceType :: "Converter \<Rightarrow> string \<Rightarrow> Converter" where
  "subResourceType c ptr =
     (case map_of (ast_Types (c_schema c)) ptr of
        None \<Rightarrow> c
      | Some typeDef \<Rightarrow>
          if isBuiltInType (def_Name typeDef) \<or> def_Kind typeDef \<noteq> Object then c
          else foldl (subResourceField typeDef) c (def_Fields typeDef))"

definition subResources :: "Converter \<Rightarrow> Converter" where
  "subResources c = foldl subResourceType c (map fst (ast_Types (c_schema c)))"

definition convertQueries ::
  "Converter \<Rightarrow> string \<Rightarrow> (string \<times> RESTPattern) list \<Rightarrow> error + Converter" where
  "convertQueries c queryType restPatterns =
     (case queryPatterns restPatterns (c, []) of
        Inl e \<Rightarrow> Inl e
      | Inr (c1, processedFields) \<Rightarrow>
          (let fields1 = (case map_of (ast_Types (c_schema c1)) queryType of
                            None \<Rightarrow> []
                          | Some d \<Rightarrow> def_Fields d)
           in Inr (subResources (foldl (remainingQuery processedFields) c1 fields1))))"

text \<open>
  The first loop of \<open>convertMutations\<close>: the three blocks of its body, for one detected
  pattern and the fields of the mutation type.
\<close>

definition mutationPatternCreate ::
  "FieldDefinition list \<Rightarrow> string \<Rightarrow> RESTPattern \<Rightarrow> Converter \<times> string list \<Rightarrow>
   Converter \<times> string list" where
  "mutationPatternCreate fields1 resource pattern st =
     (case st of (c, processedFields) \<Rightarrow>
        if hasOperation pattern ''create'' then
          (let path = addPrefix (c_config c) (''/'' @ rp_Plural pattern);
               c1 = ensurePath path c
           in case find (\<lambda>field. fd_Name field = CRUDPrefixCreate (c_config c) @ capitalize resource)
                     fields1 of
                None \<Rightarrow> (c1, processedFields)
              | Some createField \<Rightarrow>
                  (updatePath path
                     (\<lambda>item. item\<lparr> pi_Post :=
                        Some (convertMutationField c1 createField (''Create '' @ resource)) \<rparr>) c1,
                   processedFields @ [fd_Name createField]))
        else (c, processedFields))"

definition mutationPatternUpdate ::
  "FieldDefinition list \<Rightarrow> string \<Rightarrow> RESTPattern \<Rightarrow> Converter \<times> string list \<Rightarrow>
   Converter \<times> string list" where
  "mutationPatternUpdate fields1 resource pattern st =
     (case st of (c, processedFields) \<Rightarrow>
        if hasOperation pattern ''update'' then
          (let path = addPrefix (c_config c) (''/'' @ rp_Plural pattern @ ''/{id}'');
               c1 = ensurePath path c
           in case find (\<lambda>field. fd_Name field = CRUDPrefixUpdate (c_config c) @ capitalize resource)
                     fields1 of
                None \<Rightarrow> (c1, processedFields)
              | Some updateField \<Rightarrow>
                  (let op = convertMutationField c1 updateField (''Update '' @ resource);
                       op1 = op\<lparr> op_Parameters := [idPathParameter] @ op_Parameters op \<rparr>
                   in (updatePath path (\<lambda>item. item\<lparr> pi_Put := Some op1 \<rparr>) c1,
                       processedFields @ [fd_Name updateField])))
        else (c, processedFields))"

definition mutationPatternDelete ::
  "FieldDefinition list \<Rightarrow> string \<Rightarrow> RESTPattern \<Rightarrow> Converter \<times> string list \<Rightarrow>
   Converter \<times> string list" where
  "mutationPatternDelete fields1 resource pattern st =
     (case st of (c, processedFields) \<Rightarrow>
        if hasOperation pattern ''delete'' then
          (let path = addPrefix (c_config c) (''/'' @ rp_Plural pattern @ ''/{id}'');
               c1 = ensurePath path c
           in case find (\<lambda>field. fd_Name field = CRUDPrefixDelete (c_config c) @ capitalize resource)
                     fields1 of
                None \<Rightarrow> (c1, processedFields)
              | Some deleteField \<Rightarrow>
                  (let op = convertMutationField c1 deleteField (''Delete '' @ resource);
                       op1 = (if hasOnlyIdArgument deleteField
                              then op\<lparr> op_Parameters := [idPathParameter], op_RequestBody := None \<rparr>
                              else op)
                   in (updatePath path (\<lambda>item. item\<lparr> pi_Delete := Some op1 \<rparr>) c1,
                       processedFields @ [fd_Name deleteField])))
        else (c, processedFields))"

definition mutationPattern ::
  "FieldDefinition list \<Rightarrow> Converter \<times> string list \<Rightarrow> string \<times> RESTPattern \<Rightarrow>
   Converter \<times> string list" where
  "mutationPattern fields1 st entry =
     (case entry of (resource, pattern) \<Rightarrow>
        mutationPatternDelete fields1 resource pattern
          (mutationPatternUpdate fields1 resource pattern
             (mutationPatternCreate fields1 resource pattern st)))"

text \<open>The second loop: a mutation field that no pattern has consumed.\<close>

definition remainingMutation :: "string list \<Rightarrow> Converter \<Rightarrow> FieldDefinition \<Rightarrow> Converter" where
  "remainingMutation processedFields c field =
     (if fd_Name field \<in> set processedFields then c
      else
        (let path = addPrefix (c_config c) (''/'' @ fd_Name field);
             operation = convertMutationField c field []
         in updatePath path (\<lambda>item. item\<lparr> pi_Post := Some operation \<rparr>) (ensurePath path c)))"

definition convertMutations ::
  "Converter \<Rightarrow> string \<Rightarrow> (string \<times> RESTPattern) list \<Rightarrow> Converter" where
  "convertMutations c mutationType restPatterns =
     (let fields1 = (case map_of (ast_Types (c_schema c)) mutationType of
                       None \<Rightarrow> []
                     | Some d \<Rightarrow> def_Fields d)
      in case foldl (mutationPattern fields1) (c, []) restPatterns of
           (c1, processedFields) \<Rightarrow> foldl (remainingMutation processedFields) c1 fields1)"

definition subscriptionField :: "Converter \<Rightarrow> FieldDefinition \<Rightarrow> Converter" where
  "subscriptionField c field =
     (if HasPrefix (fd_Name field) ''__'' then c
      else
        (let operation = convertSubscriptionField c field;
             path = buildSubscriptionPath c field
         in setGet path operation c))"

definition convertSubscriptions :: "Converter \<Rightarrow> string \<Rightarrow> Converter" where
  "convertSubscriptions c subscriptionType =
     (let fields1 = (case map_of (ast_Types (c_schema c)) subscriptionType of
                       None \<Rightarrow> []
                     | Some d \<Rightarrow> def_Fields d)
      in foldl subscriptionField c fields1)"

section \<open>Convert\<close>

text \<open>The title and description that \<open>Convert\<close> puts into the document.\<close>

definition documentInfo :: "Config \<Rightarrow> string \<Rightarrow> Info" where
  "documentInfo cfg schemaSource =
     (let schemaDesc = extractSchemaDescription schemaSource;
          td =
            (if schemaDesc \<noteq> [] then
               (case Split schemaDesc (CHR 0x0A) of
                  [] \<Rightarrow> (Title cfg, schemaDesc)
                | line0 # lines1 \<Rightarrow>
                    (let firstLine = TrimSpace line0 in
                     if firstLine \<noteq> [] \<and> Title cfg = ''Converted from GraphQL''
                     then (firstLine,
                           if lines1 \<noteq> [] then TrimSpace (Join lines1 [CHR 0x0A]) else [])
                     else (Title cfg, schemaDesc)))
             else (Title cfg, schemaDesc));
          footer = ''Converted from GraphQL ('' @ Version cfg @ '')'';
          description =
            (if snd td \<noteq> []
             then snd td @ [CHR 0x0A, CHR 0x0A] @ ''---'' @ [CHR 0x0A, CHR 0x0A] @ footer
             else footer)
      in \<lparr> info_Title = fst td, info_Description = description, info_Version = Version cfg \<rparr>)"

text \<open>The body of the loop "Convert types to schemas", for one entry of \<open>schema.Types\<close>.\<close>

definition convertTypeDef :: "Library \<Rightarrow> Converter \<Rightarrow> string \<Rightarrow> Converter" where
  "convertTypeDef lib c ptr =
     (case map_of (ast_Types (c_schema c)) ptr of
        None \<Rightarrow> c
      | Some typeDef \<Rightarrow>
          if isBuiltInType (def_Name typeDef) then c
          else (case def_Kind typeDef of
                  Enum \<Rightarrow> convertEnumType c typeDef
                | Union \<Rightarrow> convertUnionType c typeDef
                | Interface \<Rightarrow> convertInterfaceType c typeDef
                | _ \<Rightarrow> convertType lib c ptr))"

definition convertTypes :: "Library \<Rightarrow> Converter \<Rightarrow> Converter" where
  "convertTypes lib c = foldl (convertTypeDef lib) c (map fst (ast_Types (c_schema c)))"

text \<open>The document that \<open>Convert\<close> creates before the passes, and the receiver with it.\<close>

definition initialDocument :: "Config \<Rightarrow> string \<Rightarrow> OpenAPIDocument" where
  "initialDocument cfg schemaSource =
     \<lparr> doc_OpenAPI = ''3.0.0'',
       doc_Info = documentInfo cfg schemaSource,
       doc_Servers = (if BaseURL cfg \<noteq> []
                      then [\<lparr> srv_URL = BaseURL cfg, srv_Description = [] \<rparr>]
                      else []),
       doc_Paths = [],
       doc_Components = \<lparr> comp_Schemas = [] \<rparr> \<rparr>"

definition initialConverter :: "Config \<Rightarrow> string \<Rightarrow> ast_Schema \<Rightarrow> Converter" where
  "initialConverter cfg schemaSource sch =
     \<lparr> c_config = cfg, c_schema = sch, c_doc = initialDocument cfg schemaSource \<rparr>"

text \<open>The last part of \<open>Convert\<close>, "Convert queries and mutations".\<close>

definition convertRootTypes ::
  "Converter \<Rightarrow> (string \<times> RESTPattern) list \<Rightarrow> error + Converter" where
  "convertRootTypes c1 restPatterns =
     (case (case ast_Query (c_schema c1) of
              None \<Rightarrow> Inr c1
            | Some queryType \<Rightarrow> convertQueries c1 queryType restPatterns) of
        Inl e \<Rightarrow> Inl e
      | Inr c2 \<Rightarrow>
          (let c3 = (case ast_Mutation (c_schema c2) of
                       None \<Rightarrow> c2
                     | Some mutationType \<Rightarrow> convertMutations c2 mutationType restPatterns);
               c4 = (case ast_Subscription (c_schema c3) of
                       None \<Rightarrow> c3
                     | Some subscriptionType \<Rightarrow> convertSubscriptions c3 subscriptionType)
           in Inr c4))"

text \<open>
  \<open>Convert_state\<close> follows \<open>Convert\<close> and yields the receiver as the call leaves it; what
  \<open>Convert\<close> returns is that receiver's document.
\<close>

definition Convert_state :: "Library \<Rightarrow> Config \<Rightarrow> string \<Rightarrow> error + Converter" where
  "Convert_state lib cfg schemaSource =
     (case LoadSchema lib schemaSource of
        Inl err \<Rightarrow> Inl (ParseError (''failed to parse GraphQL schema: '' @ err))
      | Inr sch \<Rightarrow>
          (let c = initialConverter cfg schemaSource sch;
               restPatterns = (if DetectRESTPatterns cfg then detectRESTPatterns c else []);
               c1 = convertTypes lib c
           in convertRootTypes c1 restPatterns))"

definition Convert :: "Library \<Rightarrow> Config \<Rightarrow> string \<Rightarrow> error + OpenAPIDocument" where
  "Convert lib cfg schemaSource =
     (case Convert_state lib cfg schemaSource of Inl e \<Rightarrow> Inl e | Inr c \<Rightarrow> Inr (c_doc c))"

section \<open>Notions used in the statements\<close>

text \<open>
  The fields that a root pointer of the parsed schema leads to (none if the pointer is nil).
\<close>

definition rootFields :: "ast_Schema \<Rightarrow> string option \<Rightarrow> FieldDefinition list" where
  "rootFields sch ptr = (case deref sch ptr of None \<Rightarrow> [] | Some d \<Rightarrow> def_Fields d)"

text \<open>Whether a map of patterns has a pattern for the resource with the operation flag set.\<close>

definition flagSet :: "(string \<times> RESTPattern) list \<Rightarrow> string \<Rightarrow> string \<Rightarrow> bool" where
  "flagSet patterns resource op =
     (case map_of patterns resource of None \<Rightarrow> False | Some pattern \<Rightarrow> hasOperation pattern op)"

text \<open>
  A root query field that is plural for the resource: it returns a list of a named type,
  and singularizing its name gives the resource and changes the name.
\<close>

definition pluralListField :: "Config \<Rightarrow> string \<Rightarrow> FieldDefinition \<Rightarrow> bool" where
  "pluralListField cfg resource field =
     (case Elem (fd_Type field) of
        None \<Rightarrow> False
      | Some elem \<Rightarrow>
          NamedType elem \<noteq> [] \<and> singularize cfg (fd_Name field) = resource \<and>
          resource \<noteq> fd_Name field)"

text \<open>
  A mutation field that a CRUD prefix relates to the resource: its name starts with the
  (non-empty) prefix, and the rest of the name, first letter lowered, is the resource.
\<close>

definition crudMutationFor :: "string \<Rightarrow> string \<Rightarrow> FieldDefinition \<Rightarrow> bool" where
  "crudMutationFor prefix resource field =
     (prefix \<noteq> [] \<and> HasPrefix (fd_Name field) prefix \<and>
      uncapitalize (TrimPrefix (fd_Name field) prefix) = resource)"

text \<open>The configured prefix that stands for an operation name of the second pass.\<close>

definition crudPrefixOf :: "Config \<Rightarrow> string \<Rightarrow> string" where
  "crudPrefixOf cfg op =
     (if op = ''create'' then CRUDPrefixCreate cfg
      else if op = ''update'' then CRUDPrefixUpdate cfg
      else if op = ''delete'' then CRUDPrefixDelete cfg
      else [])"

text \<open>
  The word takes the default-suffix rule of \<open>pluralize\<close>: no custom suffix, no ES suffix and
  not the IES rule.
\<close>

definition defaultSuffixRuleOnly :: "Config \<Rightarrow> string \<Rightarrow> bool" where
  "defaultSuffixRuleOnly cfg w =
     (pluralizeCustom (CustomPlurals cfg) w = None \<and>
      \<not> list_ex (\<lambda>suffix. HasSuffix w suffix) (PluralizeSuffixesES cfg) \<and>
      \<not> (PluralizeSuffixIES cfg \<noteq> [] \<and> HasSuffix w (PluralizeSuffixIES cfg) \<and>
         length w > 1 \<and> \<not> isVowel (w ! (length w - 2))))"

text \<open>
  The name is declared in the parsed schema as an object, input object, enum, union or
  interface type.
\<close>

definition declaredComposite :: "ast_Schema \<Rightarrow> string \<Rightarrow> bool" where
  "declaredComposite sch name =
     (case map_of (ast_Types sch) name of
        None \<Rightarrow> False
      | Some d \<Rightarrow> def_Kind d \<in> set [Object, InputObject, Enum, Union, Interface])"

subsection \<open>A sample schema\<close>

text \<open>
  The parsed form of
  \<^verbatim>\<open>
  type Query { users: [User!]!  user(id: ID!): User }
  type Mutation { createUser(name: String!): User!  addComment(text: String!): Post! }
  type Subscription { messageStream(since: String, channelId: ID!, userId: ID!): Post! }
  type User { id: ID!  name: String!  posts: [Post!]! }
  type Post { id: ID!  author: User!  tags: [String!]!  reviewer: __Type }
  \<close>
  with the introspection field \<open>__schema\<close> that the parser adds to the query type and some
  of the types of its prelude.
\<close>

definition mkField :: "string \<Rightarrow> ArgumentDefinition list \<Rightarrow> GType \<Rightarrow> FieldDefinition" where
  "mkField name args t =
     \<lparr> fd_Description = [], fd_Name = name, fd_Arguments = args, fd_Type = t,
       fd_Directives = [] \<rparr>"

definition mkArgument :: "string \<Rightarrow> GType \<Rightarrow> ArgumentDefinition" where
  "mkArgument name t = \<lparr> ad_Description = [], ad_Name = name, ad_Type = t \<rparr>"

definition mkDefinition :: "DefinitionKind \<Rightarrow> string \<Rightarrow> FieldDefinition list \<Rightarrow> Definition" where
  "mkDefinition kind name fields1 =
     \<lparr> def_Kind = kind, def_Description = [], def_Name = name, def_Directives = [],
       def_Fields = fields1, def_Types = [], def_EnumValues = [] \<rparr>"

definition sampleSubscriptionField :: FieldDefinition where
  "sampleSubscriptionField =
     mkField ''messageStream''
       [mkArgument ''since'' (NamedT ''String'' False),
        mkArgument ''channelId'' (NamedT ''ID'' True),
        mkArgument ''userId'' (NamedT ''ID'' True)]
       (NamedT ''Post'' True)"

definition sampleSchema :: ast_Schema where
  "sampleSchema =
     \<lparr> ast_Query = Some ''Query'', ast_Mutation = Some ''Mutation'',
       ast_Subscription = Some ''Subscription'',
       ast_Types =
         [(''Query'', mkDefinition Object ''Query''
             [mkField ''users'' [] (ListT (NamedT ''User'' True) True),
              mkField ''user'' [mkArgument ''id'' (NamedT ''ID'' True)] (NamedT ''User'' False),
              mkField ''__schema'' [] (NamedT ''__Schema'' True)]),
          (''Mutation'', mkDefinition Object ''Mutation''
             [mkField ''createUser'' [mkArgument ''name'' (NamedT ''String'' True)]
                (NamedT ''User'' True),
              mkField ''addComment'' [mkArgument ''text'' (NamedT ''String'' True)]
                (NamedT ''Post'' True)]),
          (''Subscription'', mkDefinition Object ''Subscription'' [sampleSubscriptionField]),
          (''User'', mkDefinition Object ''User''
             [mkField ''id'' [] (NamedT ''ID'' True),
              mkField ''name'' [] (NamedT ''String'' True),
              mkField ''posts'' [] (ListT (NamedT ''Post'' True) True)]),
          (''Post'', mkDefinition Object ''Post''
             [mkField ''id'' [] (NamedT ''ID'' True),
              mkField ''author'' [] (NamedT ''User'' True),
              mkField ''tags'' [] (ListT (NamedT ''String'' True) True),
              mkField ''reviewer'' [] (NamedT ''__Type'' False)]),
          (''String'', mkDefinition Scalar ''String'' []),
          (''ID'', mkDefinition Scalar ''ID'' []),
          (''__Schema'', mkDefinition Object ''__Schema'' []),
          (''__Type'', mkDefinition Object ''__Type'' [])] \<rparr>"

text \<open>A parser that rejects the text \<open>type\<close> and reads every other text as the sample.\<close>

definition sampleLibrary :: Library where
  "sampleLibrary =
     \<lparr> LoadSchema = (\<lambda>s. if s = ''type'' then Inl ''Unexpected <EOF>'' else Inr sampleSchema),
       SscanInt = (\<lambda>s. None), SscanFloat = (\<lambda>s. None) \<rparr>"

definition emptyDocument :: OpenAPIDocument where
  "emptyDocument =
     \<lparr> doc_OpenAPI = ''3.0.0'',
       doc_Info = \<lparr> info_Title = [], info_Description = [], info_Version = [] \<rparr>,
       doc_Servers = [], doc_Paths = [], doc_Components = \<lparr> comp_Schemas = [] \<rparr> \<rparr>"

definition sampleConverter :: Converter where
  "sampleConverter = \<lparr> c_config = defaultConfig, c_schema = sampleSchema, c_doc = emptyDocument \<rparr>"

subsection \<open>Schemas with root types of other names\<close>

text \<open>
  What the parser adds to every schema: the fields \<open>__schema\<close> and \<open>__type\<close>, appended to
  the fields of the query type, and the types of its prelude, given here by name and kind
  (\<open>Convert\<close> skips every definition whose name starts with two underscores and never reads
  the fields of one).
\<close>

definition introspectionFields :: "FieldDefinition list" where
  "introspectionFields =
     [mkField ''__schema'' [] (NamedT ''__Schema'' True),
      mkField ''__type'' [mkArgument ''name'' (NamedT ''String'' True)] (NamedT ''__Type'' False)]"

definition preludeTypes :: "(string \<times> Definition) list" where
  "preludeTypes =
     [(''Int'', mkDefinition Scalar ''Int'' []),
      (''Float'', mkDefinition Scalar ''Float'' []),
      (''String'', mkDefinition Scalar ''String'' []),
      (''Boolean'', mkDefinition Scalar ''Boolean'' []),
      (''ID'', mkDefinition Scalar ''ID'' []),
      (''__Schema'', mkDefinition Object ''__Schema'' []),
      (''__Type'', mkDefinition Object ''__Type'' []),
      (''__TypeKind'', mkDefinition Enum ''__TypeKind'' []),
      (''__Field'', mkDefinition Object ''__Field'' []),
      (''__InputValue'', mkDefinition Object ''__InputValue'' []),
      (''__EnumValue'', mkDefinition Object ''__EnumValue'' []),
      (''__Directive'', mkDefinition Object ''__Directive'' []),
      (''__DirectiveLocation'', mkDefinition Enum ''__DirectiveLocation'' [])]"

text \<open>
  The parsed form of a schema whose query type is also its mutation type
  \<^verbatim>\<open>
  schema { query: Root  mutation: Root }
  type Root { version: String }
  \<close>
  and a parser that yields it. Both root pointers lead to the definition of \<open>Root\<close>, whose
  fields are the declared one and the two that the parser adds to the query type.
\<close>

definition sharedRootSchema :: ast_Schema where
  "sharedRootSchema =
     \<lparr> ast_Query = Some ''Root'', ast_Mutation = Some ''Root'', ast_Subscription = None,
       ast_Types =
         (''Root'', mkDefinition Object ''Root''
            (mkField ''version'' [] (NamedT ''String'' False) # introspectionFields)) #
         preludeTypes \<rparr>"

definition sharedRootLibrary :: Library where
  "sharedRootLibrary =
     \<lparr> LoadSchema = (\<lambda>s. Inr sharedRootSchema), SscanInt = (\<lambda>s. None),
       SscanFloat = (\<lambda>s. None) \<rparr>"

text \<open>
  The parsed form of a schema whose subscription type is not named \<open>Subscription\<close>
  \<^verbatim>\<open>
  schema { query: Query  subscription: Events }
  type Query { version: String }
  type Events { messageStream(channelId: ID!, userId: ID): Post! }
  type Post { id: ID! }
  \<close>
  and a parser that yields it.
\<close>

definition eventsSchema :: ast_Schema where
  "eventsSchema =
     \<lparr> ast_Query = Some ''Query'', ast_Mutation = None, ast_Subscription = Some ''Events'',
       ast_Types =
         [(''Query'', mkDefinition Object ''Query''
             (mkField ''version'' [] (NamedT ''String'' False) # introspectionFields)),
          (''Events'', mkDefinition Object ''Events''
             [mkField ''messageStream''
                [mkArgument ''channelId'' (NamedT ''ID'' True),
                 mkArgument ''userId'' (NamedT ''ID'' False)]
                (NamedT ''Post'' True)]),
          (''Post'', mkDefinition Object ''Post'' [mkField ''id'' [] (NamedT ''ID'' True)])] @
         preludeTypes \<rparr>"

definition eventsLibrary :: Library where
  "eventsLibrary =
     \<lparr> LoadSchema = (\<lambda>s. Inr eventsSchema), SscanInt = (\<lambda>s. None), SscanFloat = (\<lambda>s. None) \<rparr>"

text \<open>The operations of a path item, and the property that C10 asks of each of them.\<close>

definition operationsOf :: "PathItem \<Rightarrow> Operation list" where
  "operationsOf item =
     concat (map (\<lambda>slot. case slot of None \<Rightarrow> [] | Some op \<Rightarrow> [op])
       [pi_Get item, pi_Post item, pi_Put item, pi_Delete item, pi_Patch item, pi_Options item])"

definition hasResponse200 :: "Operation \<Rightarrow> bool" where
  "hasResponse200 op = (map_of (op_Responses op) ''200'' \<noteq> None)"

definition everyOperationHas200 :: "(string \<times> PathItem) list \<Rightarrow> bool" where
  "everyOperationHas200 paths =
     list_all (\<lambda>entry. list_all hasResponse200 (operationsOf (snd entry))) paths"

text \<open>
  Every type that a field of the query type names is declared in the parsed schema. The
  parser validates this for every field of every type before it returns a schema.
\<close>

definition queryTypesDeclared :: "ast_Schema \<Rightarrow> bool" where
  "queryTypesDeclared sch =
     list_all (\<lambda>field. map_of (ast_Types sch) (Type_Name (fd_Type field)) \<noteq> None)
       (rootFields sch (ast_Query sch))"

text \<open>The pointer of a pattern leads to a definition of the schema.\<close>

definition typeBound :: "ast_Schema \<Rightarrow> string \<times> RESTPattern \<Rightarrow> bool" where
  "typeBound sch entry = (deref sch (rp_Type (snd entry)) \<noteq> None)"

text \<open>What \<open>Convert\<close> returns for the sample, and one of its operations.\<close>

definition sampleDocument :: OpenAPIDocument where
  "sampleDocument =
     (case Convert sampleLibrary defaultConfig [] of Inr doc \<Rightarrow> doc | Inl e \<Rightarrow> emptyDocument)"

definition sampleUsersItem :: PathItem where
  "sampleUsersItem =
     (case map_of (doc_Paths sampleDocument) ''/users'' of
        Some item \<Rightarrow> item
      | None \<Rightarrow> emptyPathItem)"

definition sampleCreateUser :: Operation where
  "sampleCreateUser = convertMutationField sampleConverter
     (mkField ''createUser'' [mkArgument ''name'' (NamedT ''String'' True)] (NamedT ''User'' True))
     ''Create user''"

text \<open>
  The three ways in which the loop of \<open>convertType\<close> treats a field: it drops a list of a
  type that is neither scalar nor built-in, it turns a non-list reference to such a type
  into an identifier under the name with \<open>Id\<close> appended, and it keeps every other field.
\<close>

definition droppedField :: "FieldDefinition \<Rightarrow> bool" where
  "droppedField field =
     (case Elem (fd_Type field) of
        None \<Rightarrow> False
      | Some elem \<Rightarrow> \<not> isScalarType (NamedType elem) \<and> \<not> isBuiltInType (NamedType elem))"

definition referenceField :: "FieldDefinition \<Rightarrow> bool" where
  "referenceField field =
     (Elem (fd_Type field) = None \<and> \<not> isScalarType (Type_Name (fd_Type field)) \<and>
      \<not> isBuiltInType (Type_Name (fd_Type field)))"

definition renamedField :: "FieldDefinition \<Rightarrow> FieldDefinition" where
  "renamedField field =
     (if referenceField field then field\<lparr> fd_Name := fd_Name field @ ''Id'' \<rparr> else field)"

text \<open>The definitions that the loop "Convert types to schemas" hands to \<open>convertType\<close>.\<close>

definition convertedDefinition :: "Definition \<Rightarrow> bool" where
  "convertedDefinition d =
     (\<not> isBuiltInType (def_Name d) \<and> (def_Kind d = Object \<or> def_Kind d = InputObject))"

definition afterConversion :: "Definition \<Rightarrow> Definition" where
  "afterConversion d =
     (if convertedDefinition d then d\<lparr> def_Fields := map renamedField (def_Fields d) \<rparr> else d)"

text \<open>
  \<open>schema.Types\<close> is a map (its keys are distinct), and the parser stores every definition
  under its name.
\<close>

definition typesByName :: "ast_Schema \<Rightarrow> bool" where
  "typesByName sch =
     (distinct (map fst (ast_Types sch)) \<and>
      list_all (\<lambda>entry. def_Name (snd entry) = fst entry) (ast_Types sch))"

text \<open>The schema with which the loop of \<open>convertType\<close> starts for a definition.\<close>

definition initialObjectSchema :: "Definition \<Rightarrow> Schema" where
  "initialObjectSchema d =
     (if def_Description d \<noteq> []
      then set_sDescription (def_Description d) (schemaOfType ''object'')
      else schemaOfType ''object'')"

text \<open>
  Two receivers that differ at most in the paths of their documents: the passes that follow
  the type conversion change nothing else.
\<close>

definition sameExceptPaths :: "Converter \<Rightarrow> Converter \<Rightarrow> bool" where
  "sameExceptPaths c c' =
     (c_config c' = c_config c \<and> c_schema c' = c_schema c \<and>
      doc_Components (c_doc c') = doc_Components (c_doc c))"

subsection \<open>A schema with colliding names\<close>

text \<open>
  The parsed form of
  \<^verbatim>\<open>
  type Query { version: String }
  type Bus { stops: [Stop!]!  ownerId: [Tag!]!  owner: User  kinds: [__Type!]! }
  type Buse { stops: [Tag!]! }
  type Comment { author: User!  authorId: ID! }
  type Stop { id: ID! }
  type Tag { id: ID! }
  type User { id: ID! }
  \<close>
  and a parser that yields it.
\<close>

definition collisionSchema :: ast_Schema where
  "collisionSchema =
     \<lparr> ast_Query = Some ''Query'', ast_Mutation = None, ast_Subscription = None,
       ast_Types =
         [(''Query'', mkDefinition Object ''Query''
             [mkField ''version'' [] (NamedT ''String'' False)]),
          (''Bus'', mkDefinition Object ''Bus''
             [mkField ''stops'' [] (ListT (NamedT ''Stop'' True) True),
              mkField ''ownerId'' [] (ListT (NamedT ''Tag'' True) True),
              mkField ''owner'' [] (NamedT ''User'' False),
              mkField ''kinds'' [] (ListT (NamedT ''__Type'' True) True)]),
          (''Buse'', mkDefinition Object ''Buse''
             [mkField ''stops'' [] (ListT (NamedT ''Tag'' True) True)]),
          (''Comment'', mkDefinition Object ''Comment''
             [mkField ''author'' [] (NamedT ''User'' True),
              mkField ''authorId'' [] (NamedT ''ID'' True)]),
          (''Stop'', mkDefinition Object ''Stop'' [mkField ''id'' [] (NamedT ''ID'' True)]),
          (''Tag'', mkDefinition Object ''Tag'' [mkField ''id'' [] (NamedT ''ID'' True)]),
          (''User'', mkDefinition Object ''User'' [mkField ''id'' [] (NamedT ''ID'' True)]),
          (''String'', mkDefinition Scalar ''String'' []),
          (''ID'', mkDefinition Scalar ''ID'' []),
          (''__Type'', mkDefinition Object ''__Type'' [])] \<rparr>"

definition collisionLibrary :: Library where
  "collisionLibrary =
     \<lparr> LoadSchema = (\<lambda>s. Inr collisionSchema), SscanInt = (\<lambda>s. None),
       SscanFloat = (\<lambda>s. None) \<rparr>"

definition collisionDocument :: OpenAPIDocument where
  "collisionDocument =
     (case Convert collisionLibrary defaultConfig [] of
        Inr doc \<Rightarrow> doc
      | Inl e \<Rightarrow> emptyDocument)"

text \<open>The component schema of a type in a document, and the GET operation of a path.\<close>

definition componentOf :: "OpenAPIDocument \<Rightarrow> string \<Rightarrow> Schema option" where
  "componentOf doc name = map_of (comp_Schemas (doc_Components doc)) name"

definition getOperationOf :: "OpenAPIDocument \<Rightarrow> string \<Rightarrow> Operation option" where
  "getOperationOf doc path =
     (case map_of (doc_Paths doc) path of None \<Rightarrow> None | Some item \<Rightarrow> pi_Get item)"

subsection \<open>Sub-resource endpoints\<close>

text \<open>
  The path of the sub-resource endpoint of a field of a type, the element type for which
  the third loop of \<open>convertQueries\<close> emits an endpoint (\<open>None\<close> if it emits none for the
  field), and the responses of such an endpoint.
\<close>

definition subResourcePath :: "Config \<Rightarrow> string \<Rightarrow> string \<Rightarrow> string" where
  "subResourcePath cfg typeName fieldName =
     addPrefix cfg (''/'' @ pluralize cfg (ToLower typeName) @ ''/{id}/'' @ fieldName)"

definition subResourceTarget :: "FieldDefinition \<Rightarrow> string option" where
  "subResourceTarget field =
     (case Elem (fd_Type field) of
        None \<Rightarrow> None
      | Some elem \<Rightarrow>
          if NamedType elem \<noteq> [] \<and> \<not> isScalarType (NamedType elem)
          then Some (NamedType elem) else None)"

definition arrayOfRefResponses :: "string \<Rightarrow> (string \<times> Response) list" where
  "arrayOfRefResponses E =
     jsonResponse200 (schemaArrayOf (schemaOfRef (''#/components/schemas/'' @ E)))"

text \<open>
  Every sub-resource endpoint that a type definition, and that a schema, gives the path
  \<open>p\<close> has the element type \<open>E\<close>.
\<close>

definition typeAgrees :: "Config \<Rightarrow> string \<Rightarrow> string \<Rightarrow> Definition \<Rightarrow> bool" where
  "typeAgrees cfg p E d =
     (isBuiltInType (def_Name d) \<or> def_Kind d \<noteq> Object \<or>
      list_all
        (\<lambda>g. case subResourceTarget g of
               None \<Rightarrow> True
             | Some E' \<Rightarrow> subResourcePath cfg (def_Name d) (fd_Name g) \<noteq> p \<or> E' = E)
        (def_Fields d))"

definition pathAgrees :: "Config \<Rightarrow> ast_Schema \<Rightarrow> string \<Rightarrow> string \<Rightarrow> bool" where
  "pathAgrees cfg sch p E = list_all (\<lambda>entry. typeAgrees cfg p E (snd entry)) (ast_Types sch)"

text \<open>A name of the GraphQL grammar: letters, digits and underscores, not empty.\<close>

definition nameChars :: string where
  "nameChars = ''_abcdefghijklmnopqrstuvwxyzABCDEFGHIJKLMNOPQRSTUVWXYZ0123456789''"

definition validName :: "string \<Rightarrow> bool" where
  "validName name = (name \<noteq> [] \<and> list_all (\<lambda>c. c \<in> set nameChars) name)"

text \<open>The responses of the GET operation of a path, if the document has one.\<close>

definition getResponsesOf :: "OpenAPIDocument \<Rightarrow> string \<Rightarrow> (string \<times> Response) list option" where
  "getResponsesOf doc path = map_option op_Responses (getOperationOf doc path)"

text \<open>The parsed form of a schema without a query type, and a parser that yields it.\<close>

definition noQuerySchema :: ast_Schema where
  "noQuerySchema =
     \<lparr> ast_Query = None, ast_Mutation = None, ast_Subscription = None,
       ast_Types =
         [(''User'', mkDefinition Object ''User''
             [mkField ''posts'' [] (ListT (NamedT ''Post'' True) True)]),
          (''Post'', mkDefinition Object ''Post'' [mkField ''id'' [] (NamedT ''ID'' True)]),
          (''ID'', mkDefinition Scalar ''ID'' [])] \<rparr>"

definition noQueryLibrary :: Library where
  "noQueryLibrary =
     \<lparr> LoadSchema = (\<lambda>s. Inr noQuerySchema), SscanInt = (\<lambda>s. None), SscanFloat = (\<lambda>s. None) \<rparr>"

text \<open>
  The parsed form of a schema whose query type is not named \<open>Query\<close>
  \<^verbatim>\<open>
  schema { query: RootQuery }
  type RootQuery { me: User }
  type User { id: ID! }
  \<close>
  and a parser that yields it.
\<close>

definition aliasSchema :: ast_Schema where
  "aliasSchema =
     \<lparr> ast_Query = Some ''RootQuery'', ast_Mutation = None, ast_Subscription = None,
       ast_Types =
         [(''RootQuery'', mkDefinition Object ''RootQuery''
             [mkField ''me'' [] (NamedT ''User'' False)]),
          (''User'', mkDefinition Object ''User'' [mkField ''id'' [] (NamedT ''ID'' True)]),
          (''ID'', mkDefinition Scalar ''ID'' [])] \<rparr>"

definition aliasLibrary :: Library where
  "aliasLibrary =
     \<lparr> LoadSchema = (\<lambda>s. Inr aliasSchema), SscanInt = (\<lambda>s. None), SscanFloat = (\<lambda>s. None) \<rparr>"


section \<open>Suffixes\<close>

lemma HasSuffix_iff: "HasSuffix s x \<longleftrightarrow> (\<exists>p. s = p @ x)"
proof
  assume "HasSuffix s x"
  then have "s = take (length s - length x) s @ x"
    unfolding HasSuffix_def by (metis append_take_drop_id)
  then show "\<exists>p. s = p @ x" ..
next
  assume "\<exists>p. s = p @ x"
  then show "HasSuffix s x" unfolding HasSuffix_def by auto
qed

lemma HasSuffix_snoc: "HasSuffix (w @ [c]) (x @ [d]) \<longleftrightarrow> c = d \<and> HasSuffix w x"
  unfolding HasSuffix_iff
  by (metis append_assoc butlast_snoc last_snoc)

lemma HasSuffix_Nil: "HasSuffix w []"
  unfolding HasSuffix_def by simp

lemma HasSuffix_s_ies: "HasSuffix (w @ ''s'') ''ies'' = HasSuffix w ''ie''"
  using HasSuffix_snoc[of w "CHR ''s''" "''ie''" "CHR ''s''"] by simp

lemma HasSuffix_s_es: "HasSuffix (w @ ''s'') ''es'' = HasSuffix w ''e''"
  using HasSuffix_snoc[of w "CHR ''s''" "''e''" "CHR ''s''"] by simp

lemma HasSuffix_s_s: "HasSuffix (w @ ''s'') ''s''"
  using HasSuffix_snoc[of w "CHR ''s''" "[]" "CHR ''s''"] by (simp add: HasSuffix_Nil)

section \<open>Pluralize and singularize\<close>

lemma pluralize_default:
  "defaultSuffixRuleOnly defaultConfig w \<Longrightarrow> pluralize defaultConfig w = w @ ''s''"
  unfolding defaultSuffixRuleOnly_def pluralize_def defaultConfig_def
  by auto

lemma singularize_default_s:
  "singularize defaultConfig (w @ ''s'') =
     (if HasSuffix w ''ie'' \<and> length w > 2 then take (length w - 2) w @ ''y''
      else if HasSuffix w ''e'' \<and> length w > 1 then
        (if list_ex (\<lambda>suffix. HasSuffix (take (length w - 1) w) suffix)
              [''s'', ''x'', ''z'', ''ch'', ''sh'']
         then take (length w - 1) w else w)
      else if w = [] then ''s'' else w)"
  unfolding singularize_def defaultConfig_def
  by (auto simp add: HasSuffix_s_ies HasSuffix_s_es HasSuffix_s_s Let_def)

text \<open>
  C9, as stated: under the default configuration every word that takes only the
  default-suffix rule is restored by singularize after pluralize. The word \<open>movie\<close> takes
  only that rule, becomes \<open>movies\<close>, and comes back as \<open>movy\<close>.
\<close>

theorem roundtrip_movie_counterexample:
  "defaultSuffixRuleOnly defaultConfig ''movie'' \<and>
   pluralize defaultConfig ''movie'' = ''movies'' \<and>
   singularize defaultConfig (pluralize defaultConfig ''movie'') = ''movy'' \<and>
   singularize defaultConfig (pluralize defaultConfig ''movie'') \<noteq> ''movie''"
  by code_simp

text \<open>
  C9, amended: under the default configuration, a word \<open>w\<close> that takes only the
  default-suffix rule is restored by singularize after pluralize exactly when \<open>w\<close> is not
  empty, does not end in \<open>ie\<close> with more than two letters, and does not end in \<open>e\<close> after an
  ES suffix (\<open>s\<close>, \<open>x\<close>, \<open>z\<close>, \<open>ch\<close>, \<open>sh\<close>).
\<close>

theorem roundtrip_default_suffix:
  assumes "defaultSuffixRuleOnly defaultConfig w"
  shows "singularize defaultConfig (pluralize defaultConfig w) = w \<longleftrightarrow>
     w \<noteq> [] \<and> \<not> (HasSuffix w ''ie'' \<and> length w > 2) \<and>
     \<not> (HasSuffix w ''e'' \<and> length w > 1 \<and>
        list_ex (\<lambda>suffix. HasSuffix (take (length w - 1) w) suffix)
          (PluralizeSuffixesES defaultConfig))"
proof -
  have a: "take (length w - 2) w @ ''y'' \<noteq> w" if "length w > 2"
  proof
    assume "take (length w - 2) w @ ''y'' = w"
    then have "length (take (length w - 2) w @ ''y'') = length w" by (rule arg_cong)
    moreover have "length (take (length w - 2) w @ ''y'') = length w - 1" using that by simp
    ultimately show False using that by arith
  qed
  have b: "take (length w - 1) w \<noteq> w" if "length w > 1"
  proof
    assume "take (length w - 1) w = w"
    then have "length (take (length w - 1) w) = length w" by (rule arg_cong)
    moreover have "length (take (length w - 1) w) = length w - 1" by simp
    ultimately show False using that by arith
  qed
  have c: "PluralizeSuffixesES defaultConfig = [''s'', ''x'', ''z'', ''ch'', ''sh'']"
    by (simp add: defaultConfig_def)
  show ?thesis
    unfolding pluralize_default[OF assms] singularize_default_s c
    using a b by auto
qed

theorem roundtrip_default_suffix_witness:
  "defaultSuffixRuleOnly defaultConfig ''user'' \<and>
   singularize defaultConfig (pluralize defaultConfig ''user'') = ''user''"
proof -
  have h: "defaultSuffixRuleOnly defaultConfig ''user''" by code_simp
  have "''user'' \<noteq> [] \<and> \<not> (HasSuffix ''user'' ''ie'' \<and> length ''user'' > 2) \<and>
     \<not> (HasSuffix ''user'' ''e'' \<and> length ''user'' > 1 \<and>
        list_ex (\<lambda>suffix. HasSuffix (take (length ''user'' - 1) ''user'') suffix)
          (PluralizeSuffixesES defaultConfig))"
    by code_simp
  with roundtrip_default_suffix[OF h] h show ?thesis by blast
qed

section \<open>Type mapper\<close>

text \<open>
  C4, as stated: a reference to a declared object type maps to a \<open>$ref\<close>. In the sample
  schema \<open>__Type\<close> is a declared object type, and a reference to it maps to
  \<open>{type: object}\<close>.
\<close>

theorem convertFieldType_declared_object_counterexample:
  "map_option def_Kind (map_of (ast_Types sampleSchema) ''__Type'') = Some Object \<and>
   convertFieldType sampleSchema (NamedT ''__Type'' False) = schemaOfType ''object'' \<and>
   convertFieldType sampleSchema (NamedT ''__Type'' False) \<noteq>
     schemaOfRef ''#/components/schemas/__Type''"
  by code_simp

text \<open>
  C4, amended: the mapping is a total function into schemas (it has no error result).
  A list maps to an array of the mapping of its element; \<open>Int\<close>, \<open>Float\<close>, \<open>String\<close>,
  \<open>Boolean\<close> and \<open>ID\<close> map to (integer, int32), (number, double), string, boolean and
  string. Of the other names, a built-in name (\<open>Query\<close>, \<open>Mutation\<close>, \<open>Subscription\<close>, or a
  name that starts with two underscores) maps to \<open>{type: object}\<close> whether it is declared or
  not; any other name declared as an object, input object, enum, union or interface maps
  to a \<open>$ref\<close> to its component schema; and every remaining name (a declared scalar or an
  undeclared name) maps to \<open>{type: string}\<close>.
\<close>

theorem convertFieldType_mapping:
  "convertFieldType sch (ListT e nn) = schemaArrayOf (convertFieldType sch e) \<and>
   convertFieldType sch (NamedT ''Int'' nn) = schemaOfTypeFormat ''integer'' ''int32'' \<and>
   convertFieldType sch (NamedT ''Float'' nn) = schemaOfTypeFormat ''number'' ''double'' \<and>
   convertFieldType sch (NamedT ''String'' nn) = schemaOfType ''string'' \<and>
   convertFieldType sch (NamedT ''Boolean'' nn) = schemaOfType ''boolean'' \<and>
   convertFieldType sch (NamedT ''ID'' nn) = schemaOfType ''string'' \<and>
   (\<not> isScalarType n \<and> isBuiltInType n \<longrightarrow>
      convertFieldType sch (NamedT n nn) = schemaOfType ''object'') \<and>
   (\<not> isScalarType n \<and> \<not> isBuiltInType n \<and> declaredComposite sch n \<longrightarrow>
      convertFieldType sch (NamedT n nn) = schemaOfRef (''#/components/schemas/'' @ n)) \<and>
   (\<not> isScalarType n \<and> \<not> isBuiltInType n \<and> \<not> declaredComposite sch n \<longrightarrow>
      convertFieldType sch (NamedT n nn) = schemaOfType ''string'')"
  by (auto simp add: isScalarType_def declaredComposite_def split: option.splits)

theorem convertFieldType_mapping_witness:
  "convertFieldType sampleSchema (NamedT ''Subscription'' True) = schemaOfType ''object'' \<and>
   convertFieldType sampleSchema (NamedT ''User'' True) =
     schemaOfRef ''#/components/schemas/User'' \<and>
   convertFieldType sampleSchema (NamedT ''DateTime'' True) = schemaOfType ''string''"
proof -
  have h1: "\<not> isScalarType ''Subscription'' \<and> isBuiltInType ''Subscription''"
    by code_simp
  have h2: "\<not> isScalarType ''User'' \<and> \<not> isBuiltInType ''User'' \<and>
            declaredComposite sampleSchema ''User''"
    by code_simp
  have h3: "\<not> isScalarType ''DateTime'' \<and> \<not> isBuiltInType ''DateTime'' \<and>
            \<not> declaredComposite sampleSchema ''DateTime''"
    by code_simp
  from h1 h2 h3
    convertFieldType_mapping[of sampleSchema _ _ "''Subscription''"]
    convertFieldType_mapping[of sampleSchema _ _ "''User''"]
    convertFieldType_mapping[of sampleSchema _ _ "''DateTime''"]
  show ?thesis by simp
qed


section \<open>REST pattern detection\<close>

lemma map_of_filter_distinct:
  "distinct (map fst xs) \<Longrightarrow>
   map_of (filter (\<lambda>(k, v). P v) xs) k =
     (case map_of xs k of None \<Rightarrow> None | Some v \<Rightarrow> if P v then Some v else None)"
proof (induction xs)
  case Nil
  then show ?case by simp
next
  case (Cons x xs)
  obtain a b where x: "x = (a, b)" by (cases x)
  have notin: "map_of xs a = None" using Cons.prems x
    by (simp add: map_of_eq_None_iff)
  have notin': "map_of (filter (\<lambda>(k, v). P v) xs) a = None"
    using Cons.prems x by (auto simp add: map_of_eq_None_iff)
  show ?case using Cons x notin notin' by (auto split: option.splits)
qed

lemma distinct_ensurePattern:
  "distinct (map fst ps) \<Longrightarrow> distinct (map fst (ensurePattern r pl ps))"
  by (simp add: ensurePattern_def distinct_update)

lemma distinct_markOperation:
  "distinct (map fst ps) \<Longrightarrow> distinct (map fst (markOperation r op ps))"
  by (simp add: markOperation_def distinct_map_entry)

lemma distinct_bindType:
  "distinct (map fst ps) \<Longrightarrow> distinct (map fst (bindType r t ps))"
  by (simp add: bindType_def distinct_map_entry)

lemma distinct_detectQueryField:
  "distinct (map fst ps) \<Longrightarrow> distinct (map fst (detectQueryField c ps f))"
  by (auto simp add: detectQueryField_def detectListField_def detectGetField_def Let_def
      distinct_ensurePattern distinct_markOperation distinct_bindType split: option.splits)

lemma distinct_detectCRUD:
  "distinct (map fst ps) \<Longrightarrow> distinct (map fst (detectCRUD prefix op name ps))"
  by (simp add: detectCRUD_def Let_def distinct_markOperation)

lemma distinct_detectMutationField:
  "distinct (map fst ps) \<Longrightarrow> distinct (map fst (detectMutationField c ps f))"
  by (simp add: detectMutationField_def Let_def distinct_detectCRUD)

lemma distinct_foldl:
  assumes "\<And>ps f. distinct (map fst ps) \<Longrightarrow> distinct (map fst (step ps f))"
  shows "distinct (map fst ps) \<Longrightarrow> distinct (map fst (foldl step ps fs))"
  by (induction fs arbitrary: ps) (simp_all add: assms)

lemma distinct_queryPass: "distinct (map fst (queryPass c))"
  unfolding queryPass_def
  by (auto split: option.splits intro!: distinct_foldl distinct_detectQueryField)

lemma distinct_mutationPass:
  "distinct (map fst ps) \<Longrightarrow> distinct (map fst (mutationPass c ps))"
  unfolding mutationPass_def
  by (auto split: option.splits intro!: distinct_foldl distinct_detectMutationField)

lemma distinct_candidatePatterns: "distinct (map fst (candidatePatterns c))"
  unfolding candidatePatterns_def by (intro distinct_mutationPass distinct_queryPass)

lemma keys_markOperation: "fst ` set (markOperation r op ps) = fst ` set ps"
  by (simp add: markOperation_def dom_map_entry)

lemma keys_detectCRUD: "fst ` set (detectCRUD prefix op name ps) = fst ` set ps"
  by (simp add: detectCRUD_def Let_def keys_markOperation)

lemma keys_detectMutationField: "fst ` set (detectMutationField c ps f) = fst ` set ps"
  by (simp add: detectMutationField_def Let_def keys_detectCRUD)

lemma keys_mutation_fold:
  "fst ` set (foldl (detectMutationField c) ps fs) = fst ` set ps"
  by (induction fs arbitrary: ps) (simp_all add: keys_detectMutationField)

lemma keys_mutationPass: "fst ` set (mutationPass c ps) = fst ` set ps"
  unfolding mutationPass_def by (simp add: keys_mutation_fold split: option.splits)

lemma in_keys_iff: "r \<in> fst ` set ps \<longleftrightarrow> (\<exists>p. map_of ps r = Some p)"
  by (metis map_of_eq_None_iff not_Some_eq)

lemma flagSet_ensurePattern:
  "flagSet (ensurePattern r' pl ps) r op = flagSet ps r op"
  by (simp add: flagSet_def ensurePattern_def update_conv' hasOperation_def)

lemma keys_ensurePattern:
  "fst ` set (ensurePattern r' pl ps) = insert r' (fst ` set ps)"
  by (auto simp add: ensurePattern_def dom_update in_keys_iff)

lemma flagSet_markOperation:
  "flagSet (markOperation r' op' ps) r op =
     (flagSet ps r op \<or> (r = r' \<and> op = op' \<and> r' \<in> fst ` set ps))"
  by (auto simp add: flagSet_def markOperation_def map_of_map_entry hasOperation_def
      update_conv' in_keys_iff split: option.splits)

lemma flagSet_bindType: "flagSet (bindType r' t ps) r op = flagSet ps r op"
  by (auto simp add: flagSet_def bindType_def map_of_map_entry hasOperation_def
      split: option.splits)

lemma keys_bindType: "fst ` set (bindType r' t ps) = fst ` set ps"
  by (simp add: bindType_def dom_map_entry)

lemma flagSet_detectListField:
  "flagSet (detectListField c ps f) r op =
     (flagSet ps r op \<or> (op = ''list'' \<and> pluralListField (c_config c) r f))"
  by (auto simp add: detectListField_def pluralListField_def Let_def flagSet_bindType
      flagSet_markOperation flagSet_ensurePattern keys_ensurePattern split: option.splits)

lemma flagSet_detectGetField_other:
  "op \<noteq> ''get'' \<Longrightarrow> flagSet (detectGetField c ps f) r op = flagSet ps r op"
  by (auto simp add: detectGetField_def Let_def flagSet_bindType
      flagSet_markOperation flagSet_ensurePattern)

lemma flagSet_query_fold:
  "op \<noteq> ''get'' \<Longrightarrow>
   flagSet (foldl (detectQueryField c) ps fs) r op =
     (flagSet ps r op \<or> (op = ''list'' \<and> list_ex (pluralListField (c_config c) r) fs))"
  by (induction fs arbitrary: ps)
     (auto simp add: detectQueryField_def flagSet_detectGetField_other flagSet_detectListField)

lemma flagSet_Nil: "flagSet [] r op = False"
  by (simp add: flagSet_def)

lemma flagSet_queryPass:
  "op \<noteq> ''get'' \<Longrightarrow>
   flagSet (queryPass c) r op =
     (op = ''list'' \<and>
      list_ex (pluralListField (c_config c) r) (rootFields (c_schema c) (ast_Query (c_schema c))))"
  by (auto simp add: queryPass_def rootFields_def flagSet_query_fold flagSet_Nil
      split: option.splits)

lemma flagSet_detectCRUD:
  "flagSet (detectCRUD prefix op' name ps) r op =
     (flagSet ps r op \<or>
      (op = op' \<and> r \<in> fst ` set ps \<and> prefix \<noteq> [] \<and> HasPrefix name prefix \<and>
       uncapitalize (TrimPrefix name prefix) = r))"
  by (auto simp add: detectCRUD_def Let_def flagSet_markOperation in_keys_iff)

lemma flagSet_detectMutationField:
  "flagSet (detectMutationField c ps f) r op =
     (flagSet ps r op \<or>
      (r \<in> fst ` set ps \<and> crudMutationFor (crudPrefixOf (c_config c) op) r f))"
proof -
  consider "op = ''create''" | "op = ''update''" | "op = ''delete''"
    | "op \<noteq> ''create''" "op \<noteq> ''update''" "op \<noteq> ''delete''"
    by blast
  then show ?thesis
  proof cases
    case 1
    then show ?thesis
      by (simp add: detectMutationField_def Let_def flagSet_detectCRUD keys_detectCRUD
          crudMutationFor_def crudPrefixOf_def)
  next
    case 2
    then show ?thesis
      by (simp add: detectMutationField_def Let_def flagSet_detectCRUD keys_detectCRUD
          crudMutationFor_def crudPrefixOf_def)
  next
    case 3
    then show ?thesis
      by (simp add: detectMutationField_def Let_def flagSet_detectCRUD keys_detectCRUD
          crudMutationFor_def crudPrefixOf_def)
  next
    case 4
    then show ?thesis
      by (simp add: detectMutationField_def Let_def flagSet_detectCRUD keys_detectCRUD
          crudMutationFor_def crudPrefixOf_def)
  qed
qed

lemma flagSet_mutation_fold:
  "flagSet (foldl (detectMutationField c) ps fs) r op =
     (flagSet ps r op \<or>
      (r \<in> fst ` set ps \<and> list_ex (crudMutationFor (crudPrefixOf (c_config c) op) r) fs))"
proof (induction fs arbitrary: ps)
  case Nil
  then show ?case by simp
next
  case (Cons f fs)
  show ?case
    unfolding foldl_Cons Cons.IH flagSet_detectMutationField keys_detectMutationField
      list_ex_Cons_iff
    by blast
qed

lemma flagSet_mutationPass:
  "flagSet (mutationPass c ps) r op =
     (flagSet ps r op \<or>
      (r \<in> fst ` set ps \<and>
       list_ex (crudMutationFor (crudPrefixOf (c_config c) op) r)
         (rootFields (c_schema c) (ast_Mutation (c_schema c)))))"
  by (simp add: mutationPass_def rootFields_def flagSet_mutation_fold split: option.splits)

lemma no_crudMutation_without_prefix: "list_ex (crudMutationFor [] r) fs = False"
  by (simp add: list_ex_iff crudMutationFor_def)

lemma flagSet_present: "flagSet ps r op \<Longrightarrow> r \<in> fst ` set ps"
  unfolding flagSet_def by (cases "map_of ps r") (simp_all add: in_keys_iff)

lemma list_flag_iff:
  "flagSet (candidatePatterns c) r ''list'' \<longleftrightarrow>
     list_ex (pluralListField (c_config c) r) (rootFields (c_schema c) (ast_Query (c_schema c)))"
  by (simp add: candidatePatterns_def flagSet_mutationPass flagSet_queryPass crudPrefixOf_def
      no_crudMutation_without_prefix)

lemma create_flag_iff:
  "flagSet (candidatePatterns c) r ''create'' \<longleftrightarrow>
     r \<in> fst ` set (queryPass c) \<and>
     list_ex (crudMutationFor (CRUDPrefixCreate (c_config c)) r)
       (rootFields (c_schema c) (ast_Mutation (c_schema c)))"
  by (simp add: candidatePatterns_def flagSet_mutationPass flagSet_queryPass crudPrefixOf_def)

lemma detected_iff_flags:
  "r \<in> fst ` set (detectRESTPatterns c) \<longleftrightarrow>
     flagSet (candidatePatterns c) r ''list'' \<and> flagSet (candidatePatterns c) r ''create''"
proof -
  have "r \<in> fst ` set (detectRESTPatterns c) \<longleftrightarrow> map_of (detectRESTPatterns c) r \<noteq> None"
    by (simp add: in_keys_iff)
  also have "\<dots> \<longleftrightarrow>
        flagSet (candidatePatterns c) r ''list'' \<and> flagSet (candidatePatterns c) r ''create''"
    unfolding detectRESTPatterns_def flagSet_def
    by (simp add: map_of_filter_distinct[OF distinct_candidatePatterns] split: option.splits)
  finally show ?thesis .
qed

lemma detected_iff_fields:
  "r \<in> fst ` set (detectRESTPatterns c) \<longleftrightarrow>
     list_ex (pluralListField (c_config c) r) (rootFields (c_schema c) (ast_Query (c_schema c))) \<and>
     list_ex (crudMutationFor (CRUDPrefixCreate (c_config c)) r)
       (rootFields (c_schema c) (ast_Mutation (c_schema c)))"
proof -
  have "flagSet (queryPass c) r ''list'' \<Longrightarrow> r \<in> fst ` set (queryPass c)"
    by (rule flagSet_present)
  then show ?thesis
    unfolding detected_iff_flags list_flag_iff create_flag_iff
    using flagSet_queryPass[of "''list''" c r] by auto
qed

text \<open>
  C1: a candidate resource, that is an entry of the pattern map after the query pass and
  the mutation pass, is in the map that \<open>detectRESTPatterns\<close> returns if and only if both
  its \<open>list\<close> flag and its \<open>create\<close> flag are set. The \<open>list\<close> flag of a resource is set
  exactly when a root query field is plural for it (it returns a list of a named type, and
  singularizing its name gives the resource and changes the name); the \<open>create\<close> flag is set
  exactly when the query pass has made the resource a candidate and a mutation field
  carries the create prefix before the resource's name. The mutation pass adds no entry:
  the candidates are those of the query pass.
\<close>

theorem detected_iff_list_and_create:
  "(map_of (detectRESTPatterns c) resource = Some pattern \<longleftrightarrow>
      map_of (candidatePatterns c) resource = Some pattern \<and>
      hasOperation pattern ''list'' \<and> hasOperation pattern ''create'') \<and>
   (flagSet (candidatePatterns c) resource ''list'' \<longleftrightarrow>
      list_ex (pluralListField (c_config c) resource)
        (rootFields (c_schema c) (ast_Query (c_schema c)))) \<and>
   (flagSet (candidatePatterns c) resource ''create'' \<longleftrightarrow>
      resource \<in> fst ` set (queryPass c) \<and>
      list_ex (crudMutationFor (CRUDPrefixCreate (c_config c)) resource)
        (rootFields (c_schema c) (ast_Mutation (c_schema c)))) \<and>
   fst ` set (candidatePatterns c) = fst ` set (queryPass c)"
proof (intro conjI)
  show "map_of (detectRESTPatterns c) resource = Some pattern \<longleftrightarrow>
      map_of (candidatePatterns c) resource = Some pattern \<and>
      hasOperation pattern ''list'' \<and> hasOperation pattern ''create''"
    unfolding detectRESTPatterns_def
    by (simp add: map_of_filter_distinct[OF distinct_candidatePatterns] split: option.splits) blast
  show "flagSet (candidatePatterns c) resource ''list'' \<longleftrightarrow>
      list_ex (pluralListField (c_config c) resource)
        (rootFields (c_schema c) (ast_Query (c_schema c)))"
    by (rule list_flag_iff)
  show "flagSet (candidatePatterns c) resource ''create'' \<longleftrightarrow>
      resource \<in> fst ` set (queryPass c) \<and>
      list_ex (crudMutationFor (CRUDPrefixCreate (c_config c)) resource)
        (rootFields (c_schema c) (ast_Mutation (c_schema c)))"
    by (rule create_flag_iff)
  show "fst ` set (candidatePatterns c) = fst ` set (queryPass c)"
    unfolding candidatePatterns_def by (rule keys_mutationPass)
qed

theorem detected_iff_list_and_create_witness:
  "map_of (detectRESTPatterns sampleConverter) ''user'' =
     Some \<lparr> rp_Resource = ''user'', rp_Plural = ''users'', rp_Type = Some ''User'',
            rp_Operations = [(''list'', True), (''get'', True), (''create'', True)] \<rparr> \<and>
   list_ex (pluralListField defaultConfig ''user'')
     (rootFields sampleSchema (ast_Query sampleSchema)) \<and>
   list_ex (crudMutationFor ''create'' ''user'')
     (rootFields sampleSchema (ast_Mutation sampleSchema)) \<and>
   ''comment'' \<notin> fst ` set (candidatePatterns sampleConverter)"
proof -
  let ?p = "\<lparr> rp_Resource = ''user'', rp_Plural = ''users'', rp_Type = Some ''User'',
            rp_Operations = [(''list'', True), (''get'', True), (''create'', True)] \<rparr>"
  have cand: "map_of (candidatePatterns sampleConverter) ''user'' = Some ?p \<and>
      hasOperation ?p ''list'' \<and> hasOperation ?p ''create''"
    by code_simp
  have q: "''comment'' \<notin> fst ` set (queryPass sampleConverter)"
    by code_simp
  have cfg: "c_config sampleConverter = defaultConfig" "c_schema sampleConverter = sampleSchema"
    "CRUDPrefixCreate defaultConfig = ''create''"
    by (simp_all add: sampleConverter_def defaultConfig_def)
  have fl: "flagSet (candidatePatterns sampleConverter) ''user'' ''list''"
    "flagSet (candidatePatterns sampleConverter) ''user'' ''create''"
    using cand by (simp_all add: flagSet_def)
  from detected_iff_list_and_create[of sampleConverter "''user''" ?p]
    detected_iff_list_and_create[of sampleConverter "''comment''" ?p] cand q fl
  show ?thesis unfolding cfg by blast
qed


section \<open>Subscriptions\<close>

lemma find_first_required:
  "list_all (\<lambda>a. \<not> NonNull (ad_Type a)) pre \<Longrightarrow> NonNull (ad_Type arg) \<Longrightarrow>
   find (\<lambda>a. NonNull (ad_Type a)) (pre @ arg # post) = Some arg"
  by (induction pre) auto

lemma subscriptionParameters_used:
  "subscriptionParameters sch True args = map (queryParameter sch) args"
  by (induction args) auto

lemma subscriptionParameters_split:
  "list_all (\<lambda>a. \<not> NonNull (ad_Type a)) pre \<Longrightarrow> NonNull (ad_Type arg) \<Longrightarrow>
   subscriptionParameters sch False (pre @ arg # post) =
     map (queryParameter sch) pre @
     \<lparr> p_Name = ad_Name arg, p_In = ''path'', p_Description = ad_Description arg,
       p_Required = True, p_Schema = Some (convertFieldType sch (ad_Type arg)),
       p_Style = [], p_Explode = False \<rparr> # map (queryParameter sch) post"
  by (induction pre) (auto simp add: subscriptionParameters_used)

lemma queryParameter_In: "map p_In (map (queryParameter sch) args) = replicate (length args) ''query''"
  by (induction args) (simp_all add: queryParameter_def)

lemma queryParameter_Name: "map p_Name (map (queryParameter sch) args) = map ad_Name args"
  by (induction args) (simp_all add: queryParameter_def)

lemma applyDeprecated_keeps:
  "op_Parameters (applyDeprecated ds op) = op_Parameters op"
  "op_Responses (applyDeprecated ds op) = op_Responses op"
  by (auto simp add: applyDeprecated_def Let_def split: option.splits)

lemma convertSubscriptionField_parameters:
  "op_Parameters (convertSubscriptionField c field) =
     subscriptionParameters (c_schema c) False (fd_Arguments field)"
  by (simp add: convertSubscriptionField_def Let_def applyDeprecated_keeps split: prod.splits)

lemma sType_schemaOfTypeDescription: "sType (schemaOfTypeDescription t d) = t"
  by (simp add: schemaOfTypeDescription_def emptySchema_def)

lemma convertSubscriptionField_responses:
  "map (\<lambda>(code, r). (code, map (\<lambda>(ct, m). (ct, map_option sType (mt_Schema m))) (resp_Content r)))
       (op_Responses (convertSubscriptionField c field)) =
     [(''200'', [(''text/event-stream'', Some ''string'')])]"
  by (simp add: convertSubscriptionField_def Let_def applyDeprecated_keeps
      sType_schemaOfTypeDescription split: prod.splits)

lemma paths_ensurePath:
  "map_of (doc_Paths (c_doc (ensurePath p c))) q =
     (if q = p \<and> map_of (doc_Paths (c_doc c)) p = None then Some emptyPathItem
      else map_of (doc_Paths (c_doc c)) q)"
  by (simp add: ensurePath_def update_conv')

lemma paths_updatePath:
  "map_of (doc_Paths (c_doc (updatePath p f c))) q =
     (if q = p then map_option f (map_of (doc_Paths (c_doc c)) p)
      else map_of (doc_Paths (c_doc c)) q)"
  by (simp add: updatePath_def map_of_map_entry split: option.splits)

lemma paths_setGet:
  "map_of (doc_Paths (c_doc (setGet p op c))) q =
     (if q = p then
        Some ((case map_of (doc_Paths (c_doc c)) p of None \<Rightarrow> emptyPathItem | Some item \<Rightarrow> item)
                \<lparr> pi_Get := Some op \<rparr>)
      else map_of (doc_Paths (c_doc c)) q)"
  by (simp add: setGet_def paths_updatePath paths_ensurePath split: option.splits)

lemma getAt_setGet:
  "map_option pi_Get (map_of (doc_Paths (c_doc (setGet p op c))) q) =
     (if q = p then Some (Some op) else map_option pi_Get (map_of (doc_Paths (c_doc c)) q))"
  by (simp add: paths_setGet)

lemma frame_setGet:
  "c_config (setGet p op c) = c_config c" "c_schema (setGet p op c) = c_schema c"
  by (simp_all add: setGet_def updatePath_def ensurePath_def)

lemma frame_subscriptionField:
  "c_config (subscriptionField c f) = c_config c" "c_schema (subscriptionField c f) = c_schema c"
  by (simp_all add: subscriptionField_def Let_def frame_setGet)

lemma buildSubscriptionPath_cong:
  "c_config c' = c_config c \<Longrightarrow> buildSubscriptionPath c' f = buildSubscriptionPath c f"
  by (simp add: buildSubscriptionPath_def Let_def split: option.splits)

lemma convertSubscriptionField_cong:
  "c_schema c' = c_schema c \<Longrightarrow> convertSubscriptionField c' f = convertSubscriptionField c f"
  by (simp add: convertSubscriptionField_def Let_def split: prod.splits)

lemma frame_subscription_fold:
  "c_config (foldl subscriptionField c fs) = c_config c \<and>
   c_schema (foldl subscriptionField c fs) = c_schema c"
  by (induction fs arbitrary: c) (simp_all add: frame_subscriptionField)

text \<open>A later subscription field leaves the path alone when it is skipped or builds another path.\<close>

lemma subscription_fold_keeps:
  assumes "list_all (\<lambda>g. HasPrefix (fd_Name g) ''__'' \<or> buildSubscriptionPath c g \<noteq> p) fs"
  shows "map_of (doc_Paths (c_doc (foldl subscriptionField c fs))) p = map_of (doc_Paths (c_doc c)) p"
  using assms
proof (induction fs arbitrary: c)
  case Nil
  then show ?case by simp
next
  case (Cons g fs)
  have cfg: "c_config (subscriptionField c g) = c_config c"
    by (rule frame_subscriptionField)
  have "list_all (\<lambda>h. HasPrefix (fd_Name h) ''__'' \<or> buildSubscriptionPath (subscriptionField c g) h \<noteq> p) fs"
    using Cons.prems by (simp add: buildSubscriptionPath_cong[OF cfg])
  then have "map_of (doc_Paths (c_doc (foldl subscriptionField (subscriptionField c g) fs))) p =
        map_of (doc_Paths (c_doc (subscriptionField c g))) p"
    by (rule Cons.IH)
  also have "\<dots> = map_of (doc_Paths (c_doc c)) p"
    using Cons.prems by (auto simp add: subscriptionField_def Let_def paths_setGet)
  finally show ?case by simp
qed

text \<open>
  What \<open>convertSubscriptions\<close> does with the fields that it reads. Let \<open>field\<close> be a field
  that the subscription pointer of the receiver leads to, with a name that does not start
  with two underscores, and let \<open>arg\<close> be its first non-null argument (the arguments \<open>pre\<close>
  before it are nullable). Then the path built for the field is the path prefix followed by
  \<open>/{fieldName}/{argName}\<close>; the parameters of the operation are the arguments in
  declaration order, \<open>arg\<close> is the only one placed in the path, and every other argument,
  non-null or not, is a query parameter; the responses are exactly the entry for \<open>200\<close>,
  with the one content type \<open>text/event-stream\<close> and a schema of type string; and after
  \<open>convertSubscriptions\<close> the operation is the GET of that path, provided no later
  subscription field builds the same path.
\<close>

lemma convertSubscriptions_path_and_parameters:
  assumes args: "fd_Arguments field = pre @ arg # post"
    and pre: "list_all (\<lambda>a. \<not> NonNull (ad_Type a)) pre"
    and arg: "NonNull (ad_Type arg)"
    and name: "\<not> HasPrefix (fd_Name field) ''__''"
    and fields: "rootFields (c_schema c) (Some subscriptionType) = before @ field # after"
    and later: "list_all (\<lambda>g. HasPrefix (fd_Name g) ''__'' \<or>
                  buildSubscriptionPath c g \<noteq> buildSubscriptionPath c field) after"
  shows "buildSubscriptionPath c field =
           addPrefix (c_config c) (''/'' @ fd_Name field @ ''/{'' @ ad_Name arg @ ''}'') \<and>
         map p_Name (op_Parameters (convertSubscriptionField c field)) =
           map ad_Name (fd_Arguments field) \<and>
         map p_In (op_Parameters (convertSubscriptionField c field)) =
           replicate (length pre) ''query'' @ [''path''] @ replicate (length post) ''query'' \<and>
         map (\<lambda>(code, r). (code, map (\<lambda>(ct, m). (ct, map_option sType (mt_Schema m)))
                (resp_Content r))) (op_Responses (convertSubscriptionField c field)) =
           [(''200'', [(''text/event-stream'', Some ''string'')])] \<and>
         map_option pi_Get
           (map_of (doc_Paths (c_doc (convertSubscriptions c subscriptionType)))
              (buildSubscriptionPath c field)) =
           Some (Some (convertSubscriptionField c field))"
proof (intro conjI)
  show "buildSubscriptionPath c field =
           addPrefix (c_config c) (''/'' @ fd_Name field @ ''/{'' @ ad_Name arg @ ''}'')"
    by (simp add: buildSubscriptionPath_def args find_first_required[OF pre arg])
  have params: "op_Parameters (convertSubscriptionField c field) =
     map (queryParameter (c_schema c)) pre @
     \<lparr> p_Name = ad_Name arg, p_In = ''path'', p_Description = ad_Description arg,
       p_Required = True, p_Schema = Some (convertFieldType (c_schema c) (ad_Type arg)),
       p_Style = [], p_Explode = False \<rparr> # map (queryParameter (c_schema c)) post"
    by (simp add: convertSubscriptionField_parameters args subscriptionParameters_split[OF pre arg])
  show "map p_Name (op_Parameters (convertSubscriptionField c field)) =
           map ad_Name (fd_Arguments field)"
    using queryParameter_Name[of "c_schema c" pre] queryParameter_Name[of "c_schema c" post]
    by (simp add: params args)
  show "map p_In (op_Parameters (convertSubscriptionField c field)) =
           replicate (length pre) ''query'' @ [''path''] @ replicate (length post) ''query''"
    using queryParameter_In[of "c_schema c" pre] queryParameter_In[of "c_schema c" post]
    by (simp add: params)
  show "map (\<lambda>(code, r). (code, map (\<lambda>(ct, m). (ct, map_option sType (mt_Schema m)))
                (resp_Content r))) (op_Responses (convertSubscriptionField c field)) =
           [(''200'', [(''text/event-stream'', Some ''string'')])]"
    by (rule convertSubscriptionField_responses)
  let ?p = "buildSubscriptionPath c field"
  let ?c1 = "foldl subscriptionField c before"
  have fr: "c_config ?c1 = c_config c" "c_schema ?c1 = c_schema c"
    using frame_subscription_fold[of c before] by simp_all
  let ?c2 = "subscriptionField ?c1 field"
  have fr2: "c_config ?c2 = c_config c"
    by (simp add: frame_subscriptionField fr)
  have step: "map_option pi_Get (map_of (doc_Paths (c_doc ?c2)) ?p) =
        Some (Some (convertSubscriptionField c field))"
    using name
    by (simp add: subscriptionField_def Let_def getAt_setGet
        buildSubscriptionPath_cong[OF fr(1)] convertSubscriptionField_cong[OF fr(2)])
  have "list_all (\<lambda>g. HasPrefix (fd_Name g) ''__'' \<or> buildSubscriptionPath ?c2 g \<noteq> ?p) after"
    using later by (simp add: buildSubscriptionPath_cong[OF fr2])
  then have keep: "map_of (doc_Paths (c_doc (foldl subscriptionField ?c2 after))) ?p =
        map_of (doc_Paths (c_doc ?c2)) ?p"
    by (rule subscription_fold_keeps)
  have "convertSubscriptions c subscriptionType =
        foldl subscriptionField c (before @ field # after)"
    using fields by (simp add: convertSubscriptions_def rootFields_def deref_def Let_def)
  then show "map_option pi_Get
           (map_of (doc_Paths (c_doc (convertSubscriptions c subscriptionType))) ?p) =
           Some (Some (convertSubscriptionField c field))"
    using step keep by simp
qed

text \<open>
  C5 (the path is built from the name that \<open>convertType\<close> has left in the parsed schema):
  in the sample, whose subscription type is named \<open>Subscription\<close> and is therefore not
  handed to \<open>convertType\<close>, the document has the path \<open>/messageStream/{channelId}\<close> with a
  GET operation, the first non-null argument is the one path parameter, the other two
  arguments are query parameters, and the one response is \<open>200\<close> with the content type
  \<open>text/event-stream\<close> and a schema of type string. For the subscription type \<open>Events\<close> the
  parsed field is \<open>messageStream\<close>, it returns the object type \<open>Post\<close>, and the document has
  no path \<open>/messageStream/{channelId}\<close>: the operation is under
  \<open>/messageStreamId/{channelId}\<close>.
\<close>

theorem subscription_path_uses_renamed_field:
  "Convert sampleLibrary defaultConfig [] = Inr sampleDocument \<and>
   map_option
     (\<lambda>op. (map (\<lambda>p. (p_Name p, p_In p)) (op_Parameters op),
            map (\<lambda>(code, r). (code, map (\<lambda>(ct, m). (ct, map_option sType (mt_Schema m)))
                   (resp_Content r))) (op_Responses op)))
     (getOperationOf sampleDocument ''/messageStream/{channelId}'') =
     Some ([(''since'', ''query''), (''channelId'', ''path''), (''userId'', ''query'')],
           [(''200'', [(''text/event-stream'', Some ''string'')])]) \<and>
   map_option (\<lambda>d. map (\<lambda>g. (fd_Name g, fd_Type g)) (def_Fields d))
     (deref eventsSchema (ast_Subscription eventsSchema)) =
     Some [(''messageStream'', NamedT ''Post'' True)] \<and>
   map_sum id
     (\<lambda>doc. (map fst (doc_Paths doc),
             getOperationOf doc ''/messageStream/{channelId}'',
             map_option
               (\<lambda>op. (op_OperationID op, map (\<lambda>p. (p_Name p, p_In p)) (op_Parameters op)))
               (getOperationOf doc ''/messageStreamId/{channelId}'')))
     (Convert eventsLibrary defaultConfig []) =
     Inr ([''/version'', ''/messageStreamId/{channelId}''], None,
          Some (''subscribeMessageStreamId'', [(''channelId'', ''path''), (''userId'', ''query'')]))"
  by code_simp


section \<open>Responses of the emitted operations\<close>

lemma list_all_update:
  "list_all P al \<Longrightarrow> P (k, v) \<Longrightarrow> list_all P (AList.update k v al)"
  by (induction al) auto

lemma list_all_map_entry:
  "list_all P al \<Longrightarrow> (\<And>v. P (k, v) \<Longrightarrow> P (k, f v)) \<Longrightarrow> list_all P (AList.map_entry k f al)"
  by (induction al) auto

lemma ok_ensurePath:
  "everyOperationHas200 (doc_Paths (c_doc c)) \<Longrightarrow>
   everyOperationHas200 (doc_Paths (c_doc (ensurePath p c)))"
  by (simp add: ensurePath_def everyOperationHas200_def list_all_update operationsOf_def
      emptyPathItem_def)

lemma ok_updatePath:
  assumes "everyOperationHas200 (doc_Paths (c_doc c))"
    and "\<And>item. list_all hasResponse200 (operationsOf item) \<Longrightarrow>
           list_all hasResponse200 (operationsOf (f item))"
  shows "everyOperationHas200 (doc_Paths (c_doc (updatePath p f c)))"
  using assms unfolding updatePath_def everyOperationHas200_def
  by (auto intro!: list_all_map_entry)

lemma ok_set_slot:
  assumes "hasResponse200 op" "list_all hasResponse200 (operationsOf item)"
  shows "list_all hasResponse200 (operationsOf (item\<lparr> pi_Get := Some op \<rparr>))"
    "list_all hasResponse200 (operationsOf (item\<lparr> pi_Post := Some op \<rparr>))"
    "list_all hasResponse200 (operationsOf (item\<lparr> pi_Put := Some op \<rparr>))"
    "list_all hasResponse200 (operationsOf (item\<lparr> pi_Delete := Some op \<rparr>))"
  using assms by (auto simp add: operationsOf_def split: option.splits)

lemma ok_setGet:
  "everyOperationHas200 (doc_Paths (c_doc c)) \<Longrightarrow> hasResponse200 op \<Longrightarrow>
   everyOperationHas200 (doc_Paths (c_doc (setGet p op c)))"
  unfolding setGet_def by (intro ok_updatePath ok_ensurePath ok_set_slot)

lemma has200_jsonResponse200: "\<exists>y. map_of (jsonResponse200 s) ''200'' = Some y"
  by (simp add: jsonResponse200_def)

lemma has200_plainOperation: "hasResponse200 (plainOperation i s ps sc)"
  by (simp add: hasResponse200_def plainOperation_def has200_jsonResponse200)

lemma applyDeprecated_responses: "op_Responses (applyDeprecated ds op) = op_Responses op"
  by (auto simp add: applyDeprecated_def Let_def split: option.splits)

lemma has200_convertQueryField: "hasResponse200 (convertQueryField c f)"
  by (simp add: hasResponse200_def convertQueryField_def Let_def applyDeprecated_responses
      has200_jsonResponse200 split: prod.splits)

lemma has200_convertMutationField: "hasResponse200 (convertMutationField c f s)"
  by (simp add: hasResponse200_def convertMutationField_def Let_def applyDeprecated_responses
      has200_jsonResponse200 split: prod.splits)

lemma has200_convertSubscriptionField: "hasResponse200 (convertSubscriptionField c f)"
  by (simp add: hasResponse200_def convertSubscriptionField_def Let_def
      applyDeprecated_responses split: prod.splits)

lemma has200_update_parameters:
  "hasResponse200 op \<Longrightarrow> hasResponse200 (op\<lparr> op_Parameters := ps \<rparr>)"
  "hasResponse200 op \<Longrightarrow> hasResponse200 (op\<lparr> op_Parameters := ps, op_RequestBody := b \<rparr>)"
  by (simp_all add: hasResponse200_def)

lemma ok_queryPatternList:
  "queryPatternList r p (c, pf) = Inr (c', pf') \<Longrightarrow>
   everyOperationHas200 (doc_Paths (c_doc c)) \<Longrightarrow>
   everyOperationHas200 (doc_Paths (c_doc c'))"
  by (auto simp add: queryPatternList_def Let_def ok_setGet has200_plainOperation
      split: if_splits option.splits)

lemma ok_queryPatternGet:
  "queryPatternGet r p (c, pf) = Inr (c', pf') \<Longrightarrow>
   everyOperationHas200 (doc_Paths (c_doc c)) \<Longrightarrow>
   everyOperationHas200 (doc_Paths (c_doc c'))"
  by (auto simp add: queryPatternGet_def Let_def ok_setGet has200_plainOperation
      split: if_splits option.splits)

lemma ok_queryPatterns:
  "queryPatterns ps (c, pf) = Inr (c', pf') \<Longrightarrow>
   everyOperationHas200 (doc_Paths (c_doc c)) \<Longrightarrow>
   everyOperationHas200 (doc_Paths (c_doc c'))"
proof (induction ps arbitrary: c pf)
  case Nil
  then show ?case by simp
next
  case (Cons e ps)
  obtain r p where e: "e = (r, p)" by (cases e)
  from Cons.prems(1) obtain c1 pf1 c2 pf2 where
    s1: "queryPatternList r p (c, pf) = Inr (c1, pf1)" and
    s2: "queryPatternGet r p (c1, pf1) = Inr (c2, pf2)" and
    s3: "queryPatterns ps (c2, pf2) = Inr (c', pf')"
    unfolding e by (auto split: sum.splits)
  from ok_queryPatternList[OF s1 Cons.prems(2)] have "everyOperationHas200 (doc_Paths (c_doc c1))" .
  from ok_queryPatternGet[OF s2 this] have "everyOperationHas200 (doc_Paths (c_doc c2))" .
  from Cons.IH[OF s3 this] show ?case .
qed

lemma ok_foldl:
  assumes "\<And>c x. P c \<Longrightarrow> P (step c x)"
  shows "P c \<Longrightarrow> P (foldl step c xs)"
  by (induction xs arbitrary: c) (simp_all add: assms)

lemma ok_remainingQuery:
  "everyOperationHas200 (doc_Paths (c_doc c)) \<Longrightarrow>
   everyOperationHas200 (doc_Paths (c_doc (remainingQuery pf c f)))"
  by (simp add: remainingQuery_def ok_setGet has200_convertQueryField)

lemma ok_subResourceField:
  "everyOperationHas200 (doc_Paths (c_doc c)) \<Longrightarrow>
   everyOperationHas200 (doc_Paths (c_doc (subResourceField d c f)))"
  by (simp add: subResourceField_def Let_def ok_setGet has200_plainOperation split: option.splits)

lemma ok_subResourceType:
  "everyOperationHas200 (doc_Paths (c_doc c)) \<Longrightarrow>
   everyOperationHas200 (doc_Paths (c_doc (subResourceType c k)))"
  unfolding subResourceType_def
  by (auto split: option.splits
      intro: ok_foldl[where P = "\<lambda>c. everyOperationHas200 (doc_Paths (c_doc c))"]
        ok_subResourceField)

lemma ok_subResources:
  "everyOperationHas200 (doc_Paths (c_doc c)) \<Longrightarrow>
   everyOperationHas200 (doc_Paths (c_doc (subResources c)))"
  unfolding subResources_def
  by (rule ok_foldl[where P = "\<lambda>c. everyOperationHas200 (doc_Paths (c_doc c))"])
     (rule ok_subResourceType)

lemma ok_convertQueries:
  assumes "convertQueries c q ps = Inr c'" "everyOperationHas200 (doc_Paths (c_doc c))"
  shows "everyOperationHas200 (doc_Paths (c_doc c'))"
proof -
  from assms(1) obtain c1 pf where
    s1: "queryPatterns ps (c, []) = Inr (c1, pf)" and
    s2: "c' = subResources (foldl (remainingQuery pf) c1
            (case map_of (ast_Types (c_schema c1)) q of None \<Rightarrow> [] | Some d \<Rightarrow> def_Fields d))"
    by (auto simp add: convertQueries_def Let_def split: sum.splits)
  have "everyOperationHas200 (doc_Paths (c_doc c1))"
    by (rule ok_queryPatterns[OF s1 assms(2)])
  then have "everyOperationHas200 (doc_Paths (c_doc (foldl (remainingQuery pf) c1
            (case map_of (ast_Types (c_schema c1)) q of None \<Rightarrow> [] | Some d \<Rightarrow> def_Fields d))))"
    by (rule ok_foldl[where P = "\<lambda>c. everyOperationHas200 (doc_Paths (c_doc c))", rotated])
       (rule ok_remainingQuery)
  then show ?thesis unfolding s2 by (rule ok_subResources)
qed

lemma ok_mutationPatternCreate:
  "everyOperationHas200 (doc_Paths (c_doc (fst st))) \<Longrightarrow>
   everyOperationHas200 (doc_Paths (c_doc (fst (mutationPatternCreate fs r p st))))"
  by (auto simp add: mutationPatternCreate_def Let_def ok_ensurePath
      has200_convertMutationField split: prod.splits option.splits
      intro!: ok_updatePath ok_set_slot)

lemma ok_mutationPatternUpdate:
  "everyOperationHas200 (doc_Paths (c_doc (fst st))) \<Longrightarrow>
   everyOperationHas200 (doc_Paths (c_doc (fst (mutationPatternUpdate fs r p st))))"
  by (auto simp add: mutationPatternUpdate_def Let_def ok_ensurePath
      has200_convertMutationField has200_update_parameters split: prod.splits option.splits
      intro!: ok_updatePath ok_set_slot)

lemma ok_mutationPatternDelete:
  "everyOperationHas200 (doc_Paths (c_doc (fst st))) \<Longrightarrow>
   everyOperationHas200 (doc_Paths (c_doc (fst (mutationPatternDelete fs r p st))))"
  by (auto simp add: mutationPatternDelete_def Let_def ok_ensurePath
      has200_convertMutationField has200_update_parameters split: prod.splits option.splits
      intro!: ok_updatePath ok_set_slot)

lemma ok_mutationPattern:
  "everyOperationHas200 (doc_Paths (c_doc (fst st))) \<Longrightarrow>
   everyOperationHas200 (doc_Paths (c_doc (fst (mutationPattern fs st e))))"
  by (simp add: mutationPattern_def ok_mutationPatternCreate ok_mutationPatternUpdate
      ok_mutationPatternDelete split: prod.splits)

lemma ok_remainingMutation:
  "everyOperationHas200 (doc_Paths (c_doc c)) \<Longrightarrow>
   everyOperationHas200 (doc_Paths (c_doc (remainingMutation pf c f)))"
  by (auto simp add: remainingMutation_def Let_def ok_ensurePath has200_convertMutationField
      intro!: ok_updatePath ok_set_slot)

lemma ok_convertMutations:
  assumes "everyOperationHas200 (doc_Paths (c_doc c))"
  shows "everyOperationHas200 (doc_Paths (c_doc (convertMutations c m ps)))"
proof -
  let ?fs = "case map_of (ast_Types (c_schema c)) m of None \<Rightarrow> [] | Some d \<Rightarrow> def_Fields d"
  have "everyOperationHas200 (doc_Paths (c_doc (fst (foldl (mutationPattern ?fs) (c, []) ps))))"
    by (rule ok_foldl[where P = "\<lambda>st. everyOperationHas200 (doc_Paths (c_doc (fst st)))"])
       (simp_all add: ok_mutationPattern assms)
  then show ?thesis
    unfolding convertMutations_def Let_def
    by (auto split: prod.splits
        intro: ok_foldl[where P = "\<lambda>c. everyOperationHas200 (doc_Paths (c_doc c))"]
          ok_remainingMutation)
qed

lemma ok_subscriptionField:
  "everyOperationHas200 (doc_Paths (c_doc c)) \<Longrightarrow>
   everyOperationHas200 (doc_Paths (c_doc (subscriptionField c f)))"
  by (simp add: subscriptionField_def Let_def ok_setGet has200_convertSubscriptionField)

lemma ok_convertSubscriptions:
  "everyOperationHas200 (doc_Paths (c_doc c)) \<Longrightarrow>
   everyOperationHas200 (doc_Paths (c_doc (convertSubscriptions c s)))"
  unfolding convertSubscriptions_def Let_def
  by (rule ok_foldl[where P = "\<lambda>c. everyOperationHas200 (doc_Paths (c_doc c))"])
     (rule ok_subscriptionField)

lemma paths_setComponentSchema:
  "doc_Paths (c_doc (setComponentSchema n s c)) = doc_Paths (c_doc c)"
  by (simp add: setComponentSchema_def)

lemma paths_convertTypeDef:
  "doc_Paths (c_doc (convertTypeDef lib c k)) = doc_Paths (c_doc c)"
  by (auto simp add: convertTypeDef_def convertEnumType_def convertUnionType_def
      convertInterfaceType_def convertType_def Let_def paths_setComponentSchema
      split: option.splits DefinitionKind.splits prod.splits)

lemma paths_convertTypes:
  "doc_Paths (c_doc (convertTypes lib c)) = doc_Paths (c_doc c)"
  unfolding convertTypes_def
  by (rule ok_foldl[where P = "\<lambda>c'. doc_Paths (c_doc c') = doc_Paths (c_doc c)"])
     (simp_all add: paths_convertTypeDef)

lemma ok_convertRootTypes:
  assumes "convertRootTypes c1 ps = Inr c" "everyOperationHas200 (doc_Paths (c_doc c1))"
  shows "everyOperationHas200 (doc_Paths (c_doc c))"
proof -
  define third where "third c2 = (case ast_Mutation (c_schema c2) of None \<Rightarrow> c2
                       | Some m \<Rightarrow> convertMutations c2 m ps)" for c2
  from assms(1) obtain c2 where
    c2: "(case ast_Query (c_schema c1) of None \<Rightarrow> Inr c1
          | Some q \<Rightarrow> convertQueries c1 q ps) = Inr c2" and
    c: "c = (case ast_Subscription (c_schema (third c2)) of None \<Rightarrow> third c2
             | Some s \<Rightarrow> convertSubscriptions (third c2) s)"
    unfolding convertRootTypes_def Let_def third_def by (auto split: sum.splits)
  have ok2: "everyOperationHas200 (doc_Paths (c_doc c2))"
    using c2 assms(2) by (auto split: option.splits intro: ok_convertQueries)
  have ok3: "everyOperationHas200 (doc_Paths (c_doc (third c2)))"
    unfolding third_def using ok2 by (auto split: option.splits intro: ok_convertMutations)
  show ?thesis
    unfolding c using ok3 by (auto split: option.splits intro: ok_convertSubscriptions)
qed

lemma Convert_state_parsed:
  "LoadSchema lib src = Inr sch \<Longrightarrow>
   Convert_state lib cfg src =
     convertRootTypes (convertTypes lib (initialConverter cfg src sch))
       (if DetectRESTPatterns cfg then detectRESTPatterns (initialConverter cfg src sch) else [])"
  by (simp add: Convert_state_def Let_def)

lemma ok_Convert_state:
  assumes "Convert_state lib cfg src = Inr c"
  shows "everyOperationHas200 (doc_Paths (c_doc c))"
proof -
  from assms obtain sch where sch: "LoadSchema lib src = Inr sch"
    by (auto simp add: Convert_state_def split: sum.splits)
  have "everyOperationHas200 (doc_Paths (c_doc (convertTypes lib (initialConverter cfg src sch))))"
    by (simp add: paths_convertTypes initialConverter_def initialDocument_def
        everyOperationHas200_def)
  with assms show ?thesis
    unfolding Convert_state_parsed[OF sch] by (rule ok_convertRootTypes)
qed

text \<open>
  C10: in the document that \<open>Convert\<close> returns, every operation of every path item
  (whichever pass wrote it) has a responses map that is not empty and has an entry for the
  status \<open>200\<close>.
\<close>

theorem every_operation_has_response_200:
  assumes "Convert lib cfg schemaSource = Inr doc"
    and "(path, item) \<in> set (doc_Paths doc)"
    and "op \<in> set (operationsOf item)"
  shows "op_Responses op \<noteq> [] \<and> map_of (op_Responses op) ''200'' \<noteq> None"
proof -
  from assms(1) obtain c where c: "Convert_state lib cfg schemaSource = Inr c" and d: "doc = c_doc c"
    by (auto simp add: Convert_def split: sum.splits)
  from ok_Convert_state[OF c] assms(2,3) have "hasResponse200 op"
    unfolding d everyOperationHas200_def list_all_iff by fastforce
  then show ?thesis unfolding hasResponse200_def by auto
qed

theorem every_operation_has_response_200_witness:
  "Convert sampleLibrary defaultConfig [] = Inr sampleDocument \<and>
   (''/users'', sampleUsersItem) \<in> set (doc_Paths sampleDocument) \<and>
   sampleCreateUser \<in> set (operationsOf sampleUsersItem) \<and>
   op_Responses sampleCreateUser \<noteq> [] \<and>
   map_of (op_Responses sampleCreateUser) ''200'' \<noteq> None"
proof -
  have h1: "Convert sampleLibrary defaultConfig [] = Inr sampleDocument"
    by code_simp
  have h2: "(''/users'', sampleUsersItem) \<in> set (doc_Paths sampleDocument)"
    by code_simp
  have h3: "sampleCreateUser \<in> set (operationsOf sampleUsersItem)"
    by code_simp
  from every_operation_has_response_200[OF h1 h2 h3] h1 h2 h3 show ?thesis by simp
qed


section \<open>Outcomes of Convert\<close>

lemma list_all_map_entry_distinct:
  "distinct (map fst al) \<Longrightarrow> list_all (\<lambda>e. fst e \<noteq> k \<longrightarrow> Q e) al \<Longrightarrow>
   (\<And>v. Q (k, f v)) \<Longrightarrow> list_all Q (AList.map_entry k f al)"
proof (induction al)
  case Nil
  then show ?case by simp
next
  case (Cons p al)
  show ?case
  proof (cases "fst p = k")
    case True
    have "fst p \<notin> fst ` set al" using Cons.prems(1) by simp
    then have "\<forall>e\<in>set al. fst e \<noteq> k" unfolding True by blast
    then have "list_all Q al" using Cons.prems(2) by (simp add: list_all_iff)
    then show ?thesis using True Cons.prems(3) by simp
  next
    case False
    then show ?thesis using Cons by auto
  qed
qed

lemma typeBound_markOperation:
  "list_all (\<lambda>e. fst e \<noteq> k \<longrightarrow> typeBound sch e) ps \<Longrightarrow>
   list_all (\<lambda>e. fst e \<noteq> k \<longrightarrow> typeBound sch e) (markOperation r op ps)"
  unfolding markOperation_def
  by (rule list_all_map_entry) (simp_all add: typeBound_def)

lemma typeBound_markOperation_all:
  "list_all (typeBound sch) ps \<Longrightarrow> list_all (typeBound sch) (markOperation r op ps)"
  unfolding markOperation_def
  by (rule list_all_map_entry) (simp_all add: typeBound_def)

lemma typeBound_ensurePattern:
  "list_all (typeBound sch) ps \<Longrightarrow>
   list_all (\<lambda>e. fst e \<noteq> r \<longrightarrow> typeBound sch e) (ensurePattern r pl ps)"
proof -
  assume a: "list_all (typeBound sch) ps"
  then have b: "list_all (\<lambda>e. fst e \<noteq> r \<longrightarrow> typeBound sch e) ps"
    by (simp add: list_all_iff)
  show ?thesis
    unfolding ensurePattern_def
    by (simp add: b list_all_update)
qed

lemma lookupType_deref:
  "map_of (ast_Types sch) n \<noteq> None \<Longrightarrow> deref sch (lookupType sch n) \<noteq> None"
  by (auto simp add: lookupType_def deref_def split: option.splits)

lemma typeBound_bind_step:
  assumes "distinct (map fst ps)" "list_all (typeBound sch) ps"
    "map_of (ast_Types sch) n \<noteq> None"
  shows "list_all (typeBound sch)
           (bindType r (lookupType sch n) (markOperation r op (ensurePattern r pl ps)))"
  unfolding bindType_def
proof (rule list_all_map_entry_distinct)
  show "distinct (map fst (markOperation r op (ensurePattern r pl ps)))"
    by (intro distinct_markOperation distinct_ensurePattern assms(1))
  show "list_all (\<lambda>e. fst e \<noteq> r \<longrightarrow> typeBound sch e) (markOperation r op (ensurePattern r pl ps))"
    by (intro typeBound_markOperation typeBound_ensurePattern assms(2))
  show "\<And>v. typeBound sch (r, v\<lparr>rp_Type := lookupType sch n\<rparr>)"
    using lookupType_deref[OF assms(3)] by (simp add: typeBound_def)
qed

lemma distinct_bind_step:
  "distinct (map fst ps) \<Longrightarrow>
   distinct (map fst (bindType r t (markOperation r op (ensurePattern r pl ps))))"
  by (intro distinct_bindType distinct_markOperation distinct_ensurePattern)

lemma Type_Name_list_elem:
  "Elem t = Some elem \<Longrightarrow> NamedType elem \<noteq> [] \<Longrightarrow> NamedType elem = Type_Name t"
  by (cases t; cases elem) auto

lemma typeBound_detectQueryField:
  assumes "distinct (map fst ps) \<and> list_all (typeBound (c_schema c)) ps"
    and "map_of (ast_Types (c_schema c)) (Type_Name (fd_Type f)) \<noteq> None"
  shows "distinct (map fst (detectQueryField c ps f)) \<and>
         list_all (typeBound (c_schema c)) (detectQueryField c ps f)"
proof -
  have 1: "distinct (map fst (detectListField c ps f)) \<and>
           list_all (typeBound (c_schema c)) (detectListField c ps f)"
    using assms
    by (auto simp add: detectListField_def Let_def Type_Name_list_elem
        intro!: typeBound_bind_step distinct_bind_step split: option.splits)
  then show ?thesis
    using assms(2)
    by (auto simp add: detectQueryField_def detectGetField_def Let_def
        intro!: typeBound_bind_step distinct_bind_step)
qed

lemma typeBound_query_fold:
  "distinct (map fst ps) \<and> list_all (typeBound (c_schema c)) ps \<Longrightarrow>
   list_all (\<lambda>f. map_of (ast_Types (c_schema c)) (Type_Name (fd_Type f)) \<noteq> None) fs \<Longrightarrow>
   distinct (map fst (foldl (detectQueryField c) ps fs)) \<and>
   list_all (typeBound (c_schema c)) (foldl (detectQueryField c) ps fs)"
proof (induction fs arbitrary: ps)
  case Nil
  then show ?case by simp
next
  case (Cons f fs)
  from Cons.prems(2) have f: "map_of (ast_Types (c_schema c)) (Type_Name (fd_Type f)) \<noteq> None"
    and fs: "list_all (\<lambda>f. map_of (ast_Types (c_schema c)) (Type_Name (fd_Type f)) \<noteq> None) fs"
    by simp_all
  from Cons.IH[OF typeBound_detectQueryField[OF Cons.prems(1) f] fs] show ?case by simp
qed

lemma typeBound_queryPass:
  "queryTypesDeclared (c_schema c) \<Longrightarrow> list_all (typeBound (c_schema c)) (queryPass c)"
  unfolding queryPass_def queryTypesDeclared_def rootFields_def
  using typeBound_query_fold[of "[]" c]
  by (auto split: option.splits)

lemma typeBound_detectMutationField:
  "list_all (typeBound sch) ps \<Longrightarrow> list_all (typeBound sch) (detectMutationField c ps f)"
  by (simp add: detectMutationField_def detectCRUD_def Let_def typeBound_markOperation_all)

lemma typeBound_mutationPass:
  "list_all (typeBound sch) ps \<Longrightarrow> list_all (typeBound sch) (mutationPass c ps)"
  unfolding mutationPass_def
  by (auto split: option.splits
      intro: ok_foldl[where P = "list_all (typeBound sch)"] typeBound_detectMutationField)

lemma typeBound_detectRESTPatterns:
  "queryTypesDeclared (c_schema c) \<Longrightarrow> list_all (typeBound (c_schema c)) (detectRESTPatterns c)"
  unfolding detectRESTPatterns_def candidatePatterns_def
  using typeBound_mutationPass[OF typeBound_queryPass, of c c]
  by (simp add: list_all_iff)

text \<open>The type conversion keeps the keys of the store.\<close>

lemma keys_update_present:
  "map_of al k = Some v \<Longrightarrow> fst ` set (AList.update k v' al) = fst ` set al"
  by (auto simp add: dom_update dest: map_of_SomeD intro: rev_image_eqI)

lemma schema_setComponentSchema: "c_schema (setComponentSchema n s c) = c_schema c"
  by (simp add: setComponentSchema_def)

lemma keys_convertTypeDef:
  "fst ` set (ast_Types (c_schema (convertTypeDef lib c k))) = fst ` set (ast_Types (c_schema c))"
  by (auto simp add: convertTypeDef_def convertEnumType_def convertUnionType_def
      convertInterfaceType_def convertType_def Let_def schema_setComponentSchema
      keys_update_present
      split: option.splits DefinitionKind.splits prod.splits)

lemma keys_convertTypes:
  "fst ` set (ast_Types (c_schema (convertTypes lib c))) = fst ` set (ast_Types (c_schema c))"
  unfolding convertTypes_def
  by (rule ok_foldl[where P = "\<lambda>c'. fst ` set (ast_Types (c_schema c')) =
        fst ` set (ast_Types (c_schema c))"])
     (simp_all add: keys_convertTypeDef)

lemma deref_keys:
  "fst ` set (ast_Types sch') = fst ` set (ast_Types sch) \<Longrightarrow>
   deref sch' p \<noteq> None \<longleftrightarrow> deref sch p \<noteq> None"
  by (cases p) (simp_all add: deref_def in_keys_iff[symmetric])

lemma typeBound_keys:
  "fst ` set (ast_Types sch') = fst ` set (ast_Types sch) \<Longrightarrow>
   typeBound sch' = typeBound sch"
  using deref_keys[of sch' sch] by (intro ext) (simp add: typeBound_def)

text \<open>With bound patterns the first loop of \<open>convertQueries\<close> does not panic.\<close>

lemma queryPatternList_total:
  "typeBound (c_schema c) (r, p) \<Longrightarrow>
   \<exists>c' pf'. queryPatternList r p (c, pf) = Inr (c', pf') \<and> c_schema c' = c_schema c"
  by (auto simp add: queryPatternList_def typeBound_def Let_def frame_setGet
      split: option.splits)

lemma queryPatternGet_total:
  "typeBound (c_schema c) (r, p) \<Longrightarrow>
   \<exists>c' pf'. queryPatternGet r p (c, pf) = Inr (c', pf') \<and> c_schema c' = c_schema c"
  by (auto simp add: queryPatternGet_def typeBound_def Let_def frame_setGet
      split: option.splits)

lemma queryPatterns_total:
  "list_all (typeBound (c_schema c)) ps \<Longrightarrow> \<exists>st. queryPatterns ps (c, pf) = Inr st"
proof (induction ps arbitrary: c pf)
  case Nil
  then show ?case by simp
next
  case (Cons e ps)
  obtain r p where e: "e = (r, p)" by (cases e)
  from Cons.prems have b: "typeBound (c_schema c) (r, p)"
    and rest: "list_all (typeBound (c_schema c)) ps"
    by (simp_all add: e)
  from queryPatternList_total[OF b] obtain c1 pf1 where
    s1: "queryPatternList r p (c, pf) = Inr (c1, pf1)" and f1: "c_schema c1 = c_schema c"
    by blast
  from queryPatternGet_total[of c1 r p pf1] b f1 obtain c2 pf2 where
    s2: "queryPatternGet r p (c1, pf1) = Inr (c2, pf2)" and f2: "c_schema c2 = c_schema c"
    by auto
  from Cons.IH[of c2 pf2] rest f2 obtain st where "queryPatterns ps (c2, pf2) = Inr st"
    by auto
  then show ?case by (simp add: e s1 s2)
qed

lemma convertQueries_total:
  "list_all (typeBound (c_schema c)) ps \<Longrightarrow> \<exists>c'. convertQueries c q ps = Inr c'"
  using queryPatterns_total[of c ps "[]"]
  by (auto simp add: convertQueries_def Let_def split: prod.splits)

lemma convertRootTypes_total:
  "list_all (typeBound (c_schema c)) ps \<Longrightarrow> \<exists>c'. convertRootTypes c ps = Inr c'"
proof (cases "ast_Query (c_schema c)")
  case None
  then show ?thesis by (simp add: convertRootTypes_def Let_def)
next
  case (Some q)
  assume "list_all (typeBound (c_schema c)) ps"
  from convertQueries_total[OF this, of q] obtain c' where "convertQueries c q ps = Inr c'" ..
  then show ?thesis by (simp add: convertRootTypes_def Let_def Some)
qed

text \<open>The only failure after parsing is the panic.\<close>

lemma queryPatterns_error:
  "queryPatterns ps st = Inl e \<Longrightarrow> e = NilPointerDereference"
proof (induction ps arbitrary: st)
  case Nil
  then show ?case by simp
next
  case (Cons x ps)
  obtain r p where x: "x = (r, p)" by (cases x)
  obtain c pf where st: "st = (c, pf)" by (cases st)
  from Cons.prems show ?case
    unfolding x st
    by (auto simp add: queryPatternList_def queryPatternGet_def Let_def
        split: sum.splits if_splits option.splits prod.splits dest: Cons.IH)
qed

lemma convertRootTypes_error:
  "convertRootTypes c ps = Inl e \<Longrightarrow> e = NilPointerDereference"
  unfolding convertRootTypes_def convertQueries_def Let_def
  by (auto split: sum.splits option.splits prod.splits dest: queryPatterns_error)

lemma Convert_state_total:
  assumes "LoadSchema lib src = Inr sch" "queryTypesDeclared sch"
  shows "\<exists>c. Convert_state lib cfg src = Inr c"
proof -
  let ?c0 = "initialConverter cfg src sch"
  have s0: "c_schema ?c0 = sch" by (simp add: initialConverter_def)
  have "list_all (typeBound sch) (detectRESTPatterns ?c0)"
    using typeBound_detectRESTPatterns[of ?c0] assms(2) by (simp add: s0)
  then have "list_all (typeBound sch)
      (if DetectRESTPatterns cfg then detectRESTPatterns ?c0 else [])"
    by simp
  moreover have "typeBound (c_schema (convertTypes lib ?c0)) = typeBound sch"
    using typeBound_keys[OF keys_convertTypes[of lib ?c0]] by (simp add: s0)
  ultimately show ?thesis
    unfolding Convert_state_parsed[OF assms(1)]
    by (intro convertRootTypes_total) simp
qed

lemma Convert_parse_failure:
  "LoadSchema lib src = Inl msg \<Longrightarrow>
   Convert lib cfg src = Inl (ParseError (''failed to parse GraphQL schema: '' @ msg))"
  by (simp add: Convert_def Convert_state_def)

lemma Convert_ParseError_iff:
  "(\<exists>m. Convert lib cfg src = Inl (ParseError m)) \<longleftrightarrow> (\<exists>msg. LoadSchema lib src = Inl msg)"
proof (cases "LoadSchema lib src")
  case (Inl msg)
  then show ?thesis by (simp add: Convert_parse_failure)
next
  case (Inr sch)
  have "Convert lib cfg src \<noteq> Inl (ParseError m)" for m
  proof
    assume "Convert lib cfg src = Inl (ParseError m)"
    then have "Convert_state lib cfg src = Inl (ParseError m)"
      by (auto simp add: Convert_def split: sum.splits)
    then show False
      unfolding Convert_state_parsed[OF Inr] by (auto dest: convertRootTypes_error)
  qed
  then show ?thesis by (simp add: Inr)
qed

text \<open>
  C6: if the parser fails, \<open>Convert\<close> returns the error that wraps the parser's message,
  and no document; if the parser returns a schema (in which, as the parser's validation
  ensures, every type named by a field of the query type is declared), \<open>Convert\<close> returns a
  document; and \<open>Convert\<close> returns an error exactly when the parser fails. The anomalies
  are passed over: a constraint argument that does not scan as a number leaves the schema
  as it is, and a pattern operation whose mutation field is not found sets no operation
  and marks no field as processed.
\<close>

theorem Convert_error_iff_parse_failure:
  "(LoadSchema lib schemaSource = Inl msg \<longrightarrow>
      Convert lib cfg schemaSource =
        Inl (ParseError (''failed to parse GraphQL schema: '' @ msg))) \<and>
   (LoadSchema lib schemaSource = Inr sch \<and> queryTypesDeclared sch \<longrightarrow>
      (\<exists>doc. Convert lib cfg schemaSource = Inr doc)) \<and>
   ((\<exists>m. Convert lib cfg schemaSource = Inl (ParseError m)) \<longleftrightarrow>
      (\<exists>msg. LoadSchema lib schemaSource = Inl msg)) \<and>
   ((arg_Name a = ''minLength'' \<or> arg_Name a = ''maxLength'') \<and>
    parseInt lib (Trim (val_Raw (arg_Value a)) [CHR 0x22]) = None \<longrightarrow>
      applyConstraint lib s a = s) \<and>
   ((arg_Name a = ''min'' \<or> arg_Name a = ''max'') \<and>
    parseFloat lib (Trim (val_Raw (arg_Value a)) [CHR 0x22]) = None \<longrightarrow>
      applyConstraint lib s a = s) \<and>
   (find (\<lambda>field. fd_Name field = CRUDPrefixCreate (c_config c) @ capitalize r) fs = None \<longrightarrow>
      mutationPatternCreate fs r p (c, pf) =
        (if hasOperation p ''create''
         then ensurePath (addPrefix (c_config c) (''/'' @ rp_Plural p)) c else c, pf)) \<and>
   (find (\<lambda>field. fd_Name field = CRUDPrefixUpdate (c_config c) @ capitalize r) fs = None \<longrightarrow>
      mutationPatternUpdate fs r p (c, pf) =
        (if hasOperation p ''update''
         then ensurePath (addPrefix (c_config c) (''/'' @ rp_Plural p @ ''/{id}'')) c else c, pf)) \<and>
   (find (\<lambda>field. fd_Name field = CRUDPrefixDelete (c_config c) @ capitalize r) fs = None \<longrightarrow>
      mutationPatternDelete fs r p (c, pf) =
        (if hasOperation p ''delete''
         then ensurePath (addPrefix (c_config c) (''/'' @ rp_Plural p @ ''/{id}'')) c else c, pf))"
proof (intro conjI impI)
  show "Convert lib cfg schemaSource =
        Inl (ParseError (''failed to parse GraphQL schema: '' @ msg))"
    if "LoadSchema lib schemaSource = Inl msg"
    using that by (rule Convert_parse_failure)
  show "\<exists>doc. Convert lib cfg schemaSource = Inr doc"
    if "LoadSchema lib schemaSource = Inr sch \<and> queryTypesDeclared sch"
    using Convert_state_total[of lib schemaSource sch cfg] that
    by (auto simp add: Convert_def)
  show "(\<exists>m. Convert lib cfg schemaSource = Inl (ParseError m)) \<longleftrightarrow>
      (\<exists>msg. LoadSchema lib schemaSource = Inl msg)"
    by (rule Convert_ParseError_iff)
  show "applyConstraint lib s a = s"
    if "(arg_Name a = ''minLength'' \<or> arg_Name a = ''maxLength'') \<and>
        parseInt lib (Trim (val_Raw (arg_Value a)) [CHR 0x22]) = None"
    using that by (auto simp add: applyConstraint_def Let_def)
  show "applyConstraint lib s a = s"
    if "(arg_Name a = ''min'' \<or> arg_Name a = ''max'') \<and>
        parseFloat lib (Trim (val_Raw (arg_Value a)) [CHR 0x22]) = None"
    using that by (auto simp add: applyConstraint_def Let_def)
  show "mutationPatternCreate fs r p (c, pf) =
        (if hasOperation p ''create''
         then ensurePath (addPrefix (c_config c) (''/'' @ rp_Plural p)) c else c, pf)"
    if "find (\<lambda>field. fd_Name field = CRUDPrefixCreate (c_config c) @ capitalize r) fs = None"
    using that by (simp add: mutationPatternCreate_def Let_def)
  show "mutationPatternUpdate fs r p (c, pf) =
        (if hasOperation p ''update''
         then ensurePath (addPrefix (c_config c) (''/'' @ rp_Plural p @ ''/{id}'')) c else c, pf)"
    if "find (\<lambda>field. fd_Name field = CRUDPrefixUpdate (c_config c) @ capitalize r) fs = None"
    using that by (simp add: mutationPatternUpdate_def Let_def)
  show "mutationPatternDelete fs r p (c, pf) =
        (if hasOperation p ''delete''
         then ensurePath (addPrefix (c_config c) (''/'' @ rp_Plural p @ ''/{id}'')) c else c, pf)"
    if "find (\<lambda>field. fd_Name field = CRUDPrefixDelete (c_config c) @ capitalize r) fs = None"
    using that by (simp add: mutationPatternDelete_def Let_def)
qed

theorem Convert_error_iff_parse_failure_witness:
  "Convert sampleLibrary defaultConfig ''type'' =
     Inl (ParseError ''failed to parse GraphQL schema: Unexpected <EOF>'') \<and>
   (\<exists>doc. Convert sampleLibrary defaultConfig [] = Inr doc) \<and>
   applyConstraint sampleLibrary emptySchema
     \<lparr> arg_Name = ''minLength'', arg_Value = \<lparr> val_Raw = ''three'', val_String = ''three'' \<rparr> \<rparr> =
     emptySchema"
proof -
  let ?a = "\<lparr> arg_Name = ''minLength'',
              arg_Value = \<lparr> val_Raw = ''three'', val_String = ''three'' \<rparr> \<rparr>"
  have h1: "LoadSchema sampleLibrary ''type'' = Inl ''Unexpected <EOF>''"
    by (simp add: sampleLibrary_def)
  have h2: "LoadSchema sampleLibrary [] = Inr sampleSchema \<and> queryTypesDeclared sampleSchema"
    by code_simp
  have h3: "(arg_Name ?a = ''minLength'' \<or> arg_Name ?a = ''maxLength'') \<and>
      parseInt sampleLibrary (Trim (val_Raw (arg_Value ?a)) [CHR 0x22]) = None"
    by (simp add: parseInt_def sampleLibrary_def)
  from Convert_error_iff_parse_failure[of sampleLibrary "''type''" "''Unexpected <EOF>''"
      defaultConfig] h1
  have r1: "Convert sampleLibrary defaultConfig ''type'' =
     Inl (ParseError (''failed to parse GraphQL schema: '' @ ''Unexpected <EOF>''))"
    by blast
  from Convert_error_iff_parse_failure[of sampleLibrary "[]" _ defaultConfig sampleSchema] h2
  have r2: "\<exists>doc. Convert sampleLibrary defaultConfig [] = Inr doc"
    by blast
  from Convert_error_iff_parse_failure[of sampleLibrary _ _ _ _ ?a emptySchema] h3
  have r3: "applyConstraint sampleLibrary emptySchema ?a = emptySchema"
    by blast
  from r1 r2 r3 show ?thesis by simp
qed


section \<open>Type converter\<close>

lemma schema_properties_required:
  "sProperties (set_sType v0 s) = sProperties s"
  "sProperties (set_sFormat v1 s) = sProperties s"
  "sProperties (set_sDescription v2 s) = sProperties s"
  "sProperties (set_sProperties v3 s) = v3"
  "sProperties (set_sRequired v4 s) = sProperties s"
  "sProperties (set_sItems v5 s) = sProperties s"
  "sProperties (set_sRef v6 s) = sProperties s"
  "sProperties (set_sDeprecated v7 s) = sProperties s"
  "sProperties (set_sEnum v8 s) = sProperties s"
  "sProperties (set_sOneOf v9 s) = sProperties s"
  "sProperties (set_sMinLength v10 s) = sProperties s"
  "sProperties (set_sMaxLength v11 s) = sProperties s"
  "sProperties (set_sMinimum v12 s) = sProperties s"
  "sProperties (set_sMaximum v13 s) = sProperties s"
  "sProperties (set_sPattern v14 s) = sProperties s"
  "sRequired (set_sType v0 s) = sRequired s"
  "sRequired (set_sFormat v1 s) = sRequired s"
  "sRequired (set_sDescription v2 s) = sRequired s"
  "sRequired (set_sProperties v3 s) = sRequired s"
  "sRequired (set_sRequired v4 s) = v4"
  "sRequired (set_sItems v5 s) = sRequired s"
  "sRequired (set_sRef v6 s) = sRequired s"
  "sRequired (set_sDeprecated v7 s) = sRequired s"
  "sRequired (set_sEnum v8 s) = sRequired s"
  "sRequired (set_sOneOf v9 s) = sRequired s"
  "sRequired (set_sMinLength v10 s) = sRequired s"
  "sRequired (set_sMaxLength v11 s) = sRequired s"
  "sRequired (set_sMinimum v12 s) = sRequired s"
  "sRequired (set_sMaximum v13 s) = sRequired s"
  "sRequired (set_sPattern v14 s) = sRequired s"
  by (cases s; simp)+

lemma addProperty_properties:
  "sProperties (addProperty g p s) = AList.update (fd_Name g) p (sProperties s)"
  by (simp add: addProperty_def Let_def schema_properties_required)

lemma addProperty_required:
  "sRequired (addProperty g p s) =
     (if NonNull (fd_Type g) then sRequired s @ [fd_Name g] else sRequired s)"
  by (simp add: addProperty_def Let_def schema_properties_required)

lemma dropped_not_reference: "droppedField f \<Longrightarrow> \<not> referenceField f"
  by (auto simp add: droppedField_def referenceField_def split: option.splits)

lemma Elem_None_Type_Name: "Elem t = None \<Longrightarrow> Type_Name t = NamedType t"
  by (cases t) simp_all

lemma convertTypeField_cases:
  "convertTypeField lib c s f =
     (if droppedField f then (f, s)
      else if referenceField f then
        (renamedField f,
         addProperty (renamedField f)
           (objectReferenceSchema (c_config c) (Type_Name (fd_Type f)) (fd_Name f)) s)
      else (f, addProperty f (fieldPropSchema lib c f) s))"
  by (auto simp add: convertTypeField_def droppedField_def referenceField_def renamedField_def
      Let_def split: option.splits)

lemma fst_convertTypeField: "fst (convertTypeField lib c s f) = renamedField f"
  by (auto simp add: convertTypeField_cases renamedField_def dest: dropped_not_reference)

lemma fst_convertTypeFields: "fst (convertTypeFields lib c s fs) = map renamedField fs"
proof (induction fs arbitrary: s)
  case Nil
  then show ?case by simp
next
  case (Cons f fs)
  obtain f1 s1 where a: "convertTypeField lib c s f = (f1, s1)"
    by (cases "convertTypeField lib c s f")
  obtain fs1 s2 where b: "convertTypeFields lib c s1 fs = (fs1, s2)"
    by (cases "convertTypeFields lib c s1 fs")
  have "f1 = renamedField f" using fst_convertTypeField[of lib c s f] a by simp
  moreover have "fs1 = map renamedField fs" using Cons.IH[of s1] b by simp
  ultimately show ?case by (simp add: a b)
qed

lemma snd_convertTypeFields_Cons:
  "snd (convertTypeFields lib c s (f # fs)) =
     snd (convertTypeFields lib c (snd (convertTypeField lib c s f)) fs)"
  by (auto split: prod.splits)

lemma snd_convertTypeFields_append:
  "snd (convertTypeFields lib c s (pre @ post)) =
     snd (convertTypeFields lib c (snd (convertTypeFields lib c s pre)) post)"
proof (induction pre arbitrary: s)
  case Nil
  then show ?case by simp
next
  case (Cons f pre)
  show ?case
    unfolding append_Cons snd_convertTypeFields_Cons Cons.IH ..
qed

text \<open>A field that is dropped or stored under another key leaves the key alone.\<close>

lemma convertTypeField_other_key:
  assumes "droppedField f \<or> fd_Name (renamedField f) \<noteq> k"
  shows "map_of (sProperties (snd (convertTypeField lib c s f))) k = map_of (sProperties s) k"
    and "k \<in> set (sRequired (snd (convertTypeField lib c s f))) \<longleftrightarrow> k \<in> set (sRequired s)"
  using assms
  by (auto simp add: convertTypeField_cases addProperty_properties addProperty_required
      update_conv' renamedField_def)

lemma convertTypeFields_other_key:
  assumes "list_all (\<lambda>g. droppedField g \<or> fd_Name (renamedField g) \<noteq> k) fs"
  shows "map_of (sProperties (snd (convertTypeFields lib c s fs))) k = map_of (sProperties s) k \<and>
         (k \<in> set (sRequired (snd (convertTypeFields lib c s fs))) \<longleftrightarrow> k \<in> set (sRequired s))"
  using assms
proof (induction fs arbitrary: s)
  case Nil
  then show ?case by simp
next
  case (Cons f fs)
  from Cons.prems have f: "droppedField f \<or> fd_Name (renamedField f) \<noteq> k"
    and fs: "list_all (\<lambda>g. droppedField g \<or> fd_Name (renamedField g) \<noteq> k) fs"
    by simp_all
  show ?case
    unfolding snd_convertTypeFields_Cons
    using Cons.IH[OF fs, of "snd (convertTypeField lib c s f)"]
      convertTypeField_other_key[OF f, of lib c s]
    by simp
qed

lemma convertTypeField_required_mono:
  "k \<in> set (sRequired s) \<Longrightarrow> k \<in> set (sRequired (snd (convertTypeField lib c s f)))"
  by (auto simp add: convertTypeField_cases addProperty_required)

lemma convertTypeFields_required_mono:
  "k \<in> set (sRequired s) \<Longrightarrow> k \<in> set (sRequired (snd (convertTypeFields lib c s fs)))"
proof (induction fs arbitrary: s)
  case Nil
  then show ?case by simp
next
  case (Cons f fs)
  show ?case
    unfolding snd_convertTypeFields_Cons
    by (intro Cons.IH convertTypeField_required_mono Cons.prems)
qed

text \<open>The reference field itself.\<close>

lemma convertTypeField_reference:
  assumes "referenceField f"
  shows "map_of (sProperties (snd (convertTypeField lib c s f))) (fd_Name f @ ''Id'') =
           Some (objectReferenceSchema (c_config c) (Type_Name (fd_Type f)) (fd_Name f))"
    and "NonNull (fd_Type f) \<Longrightarrow>
           fd_Name f @ ''Id'' \<in> set (sRequired (snd (convertTypeField lib c s f)))"
  using assms dropped_not_reference[of f]
  by (auto simp add: convertTypeField_cases addProperty_properties addProperty_required
      update_conv' renamedField_def)

lemma convertTypeFields_reference:
  assumes "referenceField f"
    and "list_all (\<lambda>g. droppedField g \<or> fd_Name (renamedField g) \<noteq> fd_Name f @ ''Id'') post"
  shows "map_of (sProperties (snd (convertTypeFields lib c s (pre @ f # post))))
           (fd_Name f @ ''Id'') =
           Some (objectReferenceSchema (c_config c) (Type_Name (fd_Type f)) (fd_Name f))"
  unfolding snd_convertTypeFields_append snd_convertTypeFields_Cons
  using convertTypeFields_other_key[OF assms(2)] convertTypeField_reference(1)[OF assms(1)]
  by simp

lemma convertTypeFields_reference_required:
  assumes "referenceField f" "NonNull (fd_Type f)"
  shows "fd_Name f @ ''Id'' \<in> set (sRequired (snd (convertTypeFields lib c s (pre @ f # post))))"
  unfolding snd_convertTypeFields_append snd_convertTypeFields_Cons
  by (intro convertTypeFields_required_mono convertTypeField_reference(2) assms)

lemma update_as_map:
  "distinct (map fst al) \<Longrightarrow> map_of al k = Some d \<Longrightarrow>
   AList.update k v al = map (\<lambda>e. if fst e = k then (k, v) else e) al"
proof (induction al)
  case Nil
  then show ?case by simp
next
  case (Cons p al)
  show ?case
  proof (cases "fst p = k")
    case True
    then have "k \<notin> fst ` set al" using Cons.prems(1) by auto
    then have "map (\<lambda>e. if fst e = k then (k, v) else e) al = al"
      by (induction al) auto
    then show ?thesis using True by (cases p) simp
  next
    case False
    then have "map_of al k = Some d" using Cons.prems(2) by (cases p) (simp split: if_splits)
    then show ?thesis using Cons False by (cases p) auto
  qed
qed

lemma def_Name_afterConversion: "def_Name (afterConversion d) = def_Name d"
  by (simp add: afterConversion_def)

lemma def_Kind_afterConversion: "def_Kind (afterConversion d) = def_Kind d"
  by (simp add: afterConversion_def)

lemma convertType_eq:
  assumes "map_of (ast_Types (c_schema c)) k = Some d"
    "def_Kind d = Object \<or> def_Kind d = InputObject"
  shows "convertType lib c k =
           setComponentSchema (def_Name d)
             (snd (convertTypeFields lib c (initialObjectSchema d) (def_Fields d)))
             (c\<lparr> c_schema := (c_schema c)\<lparr> ast_Types := AList.update k
                  (d\<lparr> def_Fields := map renamedField (def_Fields d) \<rparr>)
                  (ast_Types (c_schema c)) \<rparr> \<rparr>)"
  using assms
  by (auto simp add: convertType_def Let_def initialObjectSchema_def case_prod_beta
      fst_convertTypeFields)

lemma convertType_schema:
  assumes "map_of (ast_Types (c_schema c)) k = Some d"
    "def_Kind d = Object \<or> def_Kind d = InputObject"
  shows "c_schema (convertType lib c k) =
           (c_schema c)\<lparr> ast_Types := AList.update k
              (d\<lparr> def_Fields := map renamedField (def_Fields d) \<rparr>) (ast_Types (c_schema c)) \<rparr>"
  unfolding convertType_eq[OF assms] by (simp add: schema_setComponentSchema)

lemma convertTypeDef_schema:
  assumes "map_of (ast_Types (c_schema c)) k = Some d"
  shows "c_schema (convertTypeDef lib c k) =
           (c_schema c)\<lparr> ast_Types := AList.update k (afterConversion d) (ast_Types (c_schema c)) \<rparr>"
proof (cases "convertedDefinition d")
  case True
  then have k: "def_Kind d = Object \<or> def_Kind d = InputObject"
    and b: "\<not> isBuiltInType (def_Name d)"
    by (simp_all add: convertedDefinition_def)
  have "convertTypeDef lib c k = convertType lib c k"
    using assms k b by (auto simp add: convertTypeDef_def)
  then show ?thesis
    using convertType_schema[OF assms k] True by (simp add: afterConversion_def)
next
  case False
  then have a: "afterConversion d = d" by (simp add: afterConversion_def)
  have "c_schema (convertTypeDef lib c k) = c_schema c"
    using assms False
    by (auto simp add: convertTypeDef_def convertedDefinition_def convertEnumType_def
        convertUnionType_def convertInterfaceType_def convertType_def Let_def
        schema_setComponentSchema split: DefinitionKind.splits)
  then show ?thesis
    using update_triv[OF assms] by (simp add: a)
qed

lemma convertTypeDef_absent:
  "map_of (ast_Types (c_schema c)) k = None \<Longrightarrow> convertTypeDef lib c k = c"
  by (simp add: convertTypeDef_def)

lemma config_convertTypeDef: "c_config (convertTypeDef lib c k) = c_config c"
  by (auto simp add: convertTypeDef_def convertEnumType_def convertUnionType_def
      convertInterfaceType_def convertType_def Let_def setComponentSchema_def
      split: option.splits DefinitionKind.splits prod.splits)

lemma config_types_fold: "c_config (foldl (convertTypeDef lib) c ks) = c_config c"
  by (induction ks arbitrary: c) (simp_all add: config_convertTypeDef)

text \<open>The store after the conversion of the definitions under the keys \<open>ks\<close>.\<close>

lemma types_fold:
  assumes "distinct (map fst (ast_Types (c_schema c)))" "distinct ks"
    "set ks \<subseteq> fst ` set (ast_Types (c_schema c))"
  shows "c_schema (foldl (convertTypeDef lib) c ks) =
           (c_schema c)\<lparr> ast_Types :=
              map (\<lambda>e. if fst e \<in> set ks then (fst e, afterConversion (snd e)) else e)
                (ast_Types (c_schema c)) \<rparr>"
  using assms
proof (induction ks arbitrary: c)
  case Nil
  then show ?case by simp
next
  case (Cons k ks)
  let ?types = "ast_Types (c_schema c)"
  from Cons.prems(3) obtain d where d: "map_of ?types k = Some d"
    by (auto simp add: in_keys_iff)
  let ?c1 = "convertTypeDef lib c k"
  have eq: "(if fst e = k then (k, afterConversion d) else e) =
            (if fst e = k then (fst e, afterConversion (snd e)) else e)" if "e \<in> set ?types" for e
  proof (cases "fst e = k")
    case True
    then have "map_of ?types k = Some (snd e)"
      using that Cons.prems(1) by (cases e) auto
    then show ?thesis using d True by simp
  next
    case False
    then show ?thesis by simp
  qed
  have s1: "c_schema ?c1 = (c_schema c)\<lparr> ast_Types :=
      map (\<lambda>e. if fst e = k then (fst e, afterConversion (snd e)) else e) ?types \<rparr>"
    unfolding convertTypeDef_schema[OF d] update_as_map[OF Cons.prems(1) d]
    using eq by (simp cong: map_cong)
  have keys1: "map fst (ast_Types (c_schema ?c1)) = map fst ?types"
    unfolding s1 by (simp add: comp_def cong: map_cong)
  have p1: "distinct (map fst (ast_Types (c_schema ?c1)))"
    unfolding keys1 by (rule Cons.prems(1))
  have p2: "distinct ks" using Cons.prems(2) by simp
  have p3: "set ks \<subseteq> fst ` set (ast_Types (c_schema ?c1))"
    using Cons.prems(3) keys1 by (metis image_set insert_subset list.simps(15))
  have k: "k \<notin> set ks" using Cons.prems(2) by simp
  show ?case
    unfolding foldl_Cons Cons.IH[OF p1 p2 p3]
    unfolding s1
    using k by (auto simp add: comp_def)
qed

lemma keys_are_distinct_all:
  "distinct (map fst al) \<Longrightarrow> distinct (map fst al) \<and> set (map fst al) \<subseteq> fst ` set al"
  by simp

lemma convertTypes_schema:
  assumes "distinct (map fst (ast_Types (c_schema c)))"
  shows "c_schema (convertTypes lib c) =
           (c_schema c)\<lparr> ast_Types :=
              map (\<lambda>e. (fst e, afterConversion (snd e))) (ast_Types (c_schema c)) \<rparr>"
proof -
  have "set (map fst (ast_Types (c_schema c))) \<subseteq> fst ` set (ast_Types (c_schema c))"
    by simp
  from types_fold[OF assms assms this]
  show ?thesis unfolding convertTypes_def by (simp cong: map_cong)
qed

lemma config_convertTypes: "c_config (convertTypes lib c) = c_config c"
  unfolding convertTypes_def by (rule config_types_fold)

lemma typesByName_entry:
  "typesByName sch \<Longrightarrow> map_of (ast_Types sch) k = Some d \<Longrightarrow> def_Name d = k"
  unfolding typesByName_def list_all_iff by (auto dest!: map_of_SomeD)

lemma typesByName_convertTypeDef:
  assumes "typesByName (c_schema c)"
  shows "typesByName (c_schema (convertTypeDef lib c k))"
proof (cases "map_of (ast_Types (c_schema c)) k")
  case None
  then show ?thesis using assms by (simp add: convertTypeDef_absent)
next
  case (Some d)
  have n: "def_Name (afterConversion d) = k"
    using typesByName_entry[OF assms Some] by (simp add: def_Name_afterConversion)
  show ?thesis
    unfolding convertTypeDef_schema[OF Some] typesByName_def
    using assms n
    by (simp add: typesByName_def distinct_update list_all_update)
qed

lemma typesByName_fold:
  "typesByName (c_schema c) \<Longrightarrow> typesByName (c_schema (foldl (convertTypeDef lib) c ks))"
  by (induction ks arbitrary: c) (simp_all add: typesByName_convertTypeDef)

lemma components_setComponentSchema:
  "map_of (comp_Schemas (doc_Components (c_doc (setComponentSchema n s c)))) T =
     (if T = n then Some s else map_of (comp_Schemas (doc_Components (c_doc c))) T)"
  by (simp add: setComponentSchema_def update_conv')

lemma components_convertTypeDef_other:
  assumes "typesByName (c_schema c)" "k \<noteq> T"
  shows "map_of (comp_Schemas (doc_Components (c_doc (convertTypeDef lib c k)))) T =
         map_of (comp_Schemas (doc_Components (c_doc c))) T"
proof (cases "map_of (ast_Types (c_schema c)) k")
  case None
  then show ?thesis by (simp add: convertTypeDef_absent)
next
  case (Some d)
  have n: "def_Name d \<noteq> T"
    using typesByName_entry[OF assms(1) Some] assms(2) by simp
  show ?thesis
    using Some n
    by (auto simp add: convertTypeDef_def convertEnumType_def convertUnionType_def
        convertInterfaceType_def convertType_def Let_def components_setComponentSchema
        split: DefinitionKind.splits prod.splits)
qed

lemma components_fold_other:
  "typesByName (c_schema c) \<Longrightarrow> T \<notin> set ks \<Longrightarrow>
   map_of (comp_Schemas (doc_Components (c_doc (foldl (convertTypeDef lib) c ks)))) T =
   map_of (comp_Schemas (doc_Components (c_doc c))) T"
proof (induction ks arbitrary: c)
  case Nil
  then show ?case by simp
next
  case (Cons k ks)
  have "k \<noteq> T" "T \<notin> set ks" using Cons.prems(2) by auto
  then show ?case
    using Cons.IH[OF typesByName_convertTypeDef[OF Cons.prems(1)], of lib k]
      components_convertTypeDef_other[OF Cons.prems(1), of k T lib]
    by simp
qed

lemma components_convertTypeDef_at:
  assumes "map_of (ast_Types (c_schema c)) T = Some d" "convertedDefinition d" "def_Name d = T"
  shows "map_of (comp_Schemas (doc_Components (c_doc (convertTypeDef lib c T)))) T =
         Some (snd (convertTypeFields lib c (initialObjectSchema d) (def_Fields d)))"
proof -
  have k: "def_Kind d = Object \<or> def_Kind d = InputObject"
    and b: "\<not> isBuiltInType (def_Name d)"
    using assms(2) by (simp_all add: convertedDefinition_def)
  have "convertTypeDef lib c T = convertType lib c T"
    using assms(1) k b by (auto simp add: convertTypeDef_def)
  then show ?thesis
    unfolding convertType_eq[OF assms(1) k]
    by (simp add: components_setComponentSchema assms(3))
qed

lemma map_of_map_if:
  "map_of (map (\<lambda>e. if fst e \<in> S then (fst e, g (snd e)) else e) al) k =
     (if k \<in> S then map_option g (map_of al k) else map_of al k)"
  by (induction al) auto

text \<open>
  The component schema of a converted definition is what the field loop yields for its
  fields, run in a receiver with the configuration of the start.
\<close>

lemma component_convertTypes:
  assumes wf: "typesByName (c_schema c)"
    and d: "map_of (ast_Types (c_schema c)) T = Some d"
    and conv: "convertedDefinition d"
  shows "\<exists>c1. c_config c1 = c_config c \<and>
           map_of (comp_Schemas (doc_Components (c_doc (convertTypes lib c)))) T =
             Some (snd (convertTypeFields lib c1 (initialObjectSchema d) (def_Fields d)))"
proof -
  let ?keys = "map fst (ast_Types (c_schema c))"
  have dist: "distinct ?keys" using wf by (simp add: typesByName_def)
  have "T \<in> set ?keys" using d by (auto dest!: map_of_SomeD intro: rev_image_eqI)
  then obtain ks1 ks2 where split: "?keys = ks1 @ T # ks2"
    by (auto dest: split_list)
  have T1: "T \<notin> set ks1" and T2: "T \<notin> set ks2" and d1: "distinct ks1"
    using dist unfolding split by auto
  have sub1: "set ks1 \<subseteq> fst ` set (ast_Types (c_schema c))"
    using split by (metis Un_iff image_set set_append subsetI)
  let ?c1 = "foldl (convertTypeDef lib) c ks1"
  have dC1: "map_of (ast_Types (c_schema ?c1)) T = Some d"
    unfolding types_fold[OF dist d1 sub1] using T1 d by (simp add: map_of_map_if)
  have wf1: "typesByName (c_schema ?c1)" by (rule typesByName_fold[OF wf])
  let ?c2 = "convertTypeDef lib ?c1 T"
  have n: "def_Name d = T" by (rule typesByName_entry[OF wf d])
  have at: "map_of (comp_Schemas (doc_Components (c_doc ?c2))) T =
         Some (snd (convertTypeFields lib ?c1 (initialObjectSchema d) (def_Fields d)))"
    by (rule components_convertTypeDef_at[OF dC1 conv n])
  have wf2: "typesByName (c_schema ?c2)" by (rule typesByName_convertTypeDef[OF wf1])
  have "convertTypes lib c = foldl (convertTypeDef lib) ?c2 ks2"
    unfolding convertTypes_def split by simp
  then have "map_of (comp_Schemas (doc_Components (c_doc (convertTypes lib c)))) T =
         Some (snd (convertTypeFields lib ?c1 (initialObjectSchema d) (def_Fields d)))"
    using components_fold_other[OF wf2 T2, of lib] at by simp
  moreover have "c_config ?c1 = c_config c" by (rule config_types_fold)
  ultimately show ?thesis by blast
qed


section \<open>What the path passes leave unchanged\<close>

lemma sameExceptPaths_refl: "sameExceptPaths c c"
  by (simp add: sameExceptPaths_def)

lemma sameExceptPaths_trans:
  "sameExceptPaths a b \<Longrightarrow> sameExceptPaths b c \<Longrightarrow> sameExceptPaths a c"
  by (simp add: sameExceptPaths_def)

lemma same_foldl:
  assumes "\<And>c x. sameExceptPaths c (step c x)"
  shows "sameExceptPaths c (foldl step c xs)"
proof (induction xs arbitrary: c)
  case Nil
  then show ?case by (simp add: sameExceptPaths_refl)
next
  case (Cons x xs)
  show ?case
    using sameExceptPaths_trans[OF assms[of c x] Cons.IH[of "step c x"]] by simp
qed

lemma same_ensurePath: "sameExceptPaths c (ensurePath p c)"
  by (simp add: sameExceptPaths_def ensurePath_def)

lemma same_updatePath: "sameExceptPaths c (updatePath p f c)"
  by (simp add: sameExceptPaths_def updatePath_def)

lemma same_setGet: "sameExceptPaths c (setGet p op c)"
  unfolding setGet_def
  by (rule sameExceptPaths_trans[OF same_ensurePath same_updatePath])

lemma same_queryPatternList:
  "queryPatternList r p (c, pf) = Inr (c', pf') \<Longrightarrow> sameExceptPaths c c'"
  by (auto simp add: queryPatternList_def Let_def same_setGet sameExceptPaths_refl
      split: if_splits option.splits)

lemma same_queryPatternGet:
  "queryPatternGet r p (c, pf) = Inr (c', pf') \<Longrightarrow> sameExceptPaths c c'"
  by (auto simp add: queryPatternGet_def Let_def same_setGet sameExceptPaths_refl
      split: if_splits option.splits)

lemma same_queryPatterns:
  "queryPatterns ps (c, pf) = Inr (c', pf') \<Longrightarrow> sameExceptPaths c c'"
proof (induction ps arbitrary: c pf)
  case Nil
  then show ?case by (simp add: sameExceptPaths_refl)
next
  case (Cons e ps)
  obtain r p where e: "e = (r, p)" by (cases e)
  from Cons.prems obtain c1 pf1 c2 pf2 where
    s1: "queryPatternList r p (c, pf) = Inr (c1, pf1)" and
    s2: "queryPatternGet r p (c1, pf1) = Inr (c2, pf2)" and
    s3: "queryPatterns ps (c2, pf2) = Inr (c', pf')"
    unfolding e by (auto split: sum.splits)
  show ?case
    by (rule sameExceptPaths_trans[OF same_queryPatternList[OF s1]
          sameExceptPaths_trans[OF same_queryPatternGet[OF s2] Cons.IH[OF s3]]])
qed

lemma same_remainingQuery: "sameExceptPaths c (remainingQuery pf c f)"
  by (simp add: remainingQuery_def same_setGet sameExceptPaths_refl)

lemma same_subResourceField: "sameExceptPaths c (subResourceField d c f)"
  by (simp add: subResourceField_def Let_def same_setGet sameExceptPaths_refl
      split: option.splits)

lemma same_subResourceType: "sameExceptPaths c (subResourceType c k)"
  unfolding subResourceType_def
  by (auto split: option.splits simp add: sameExceptPaths_refl
      intro: same_foldl same_subResourceField)

lemma same_subResources: "sameExceptPaths c (subResources c)"
  unfolding subResources_def by (rule same_foldl) (rule same_subResourceType)

lemma convertQueries_split:
  assumes "convertQueries c q ps = Inr c'"
  obtains c1 pf where "queryPatterns ps (c, []) = Inr (c1, pf)"
    and "c' = subResources (foldl (remainingQuery pf) c1 (rootFields (c_schema c1) (Some q)))"
  using assms
  by (auto simp add: convertQueries_def Let_def rootFields_def deref_def split: sum.splits)

lemma same_convertQueries:
  assumes "convertQueries c q ps = Inr c'"
  shows "sameExceptPaths c c'"
proof -
  from assms obtain c1 pf where
    s1: "queryPatterns ps (c, []) = Inr (c1, pf)" and
    s2: "c' = subResources (foldl (remainingQuery pf) c1 (rootFields (c_schema c1) (Some q)))"
    by (rule convertQueries_split)
  have "sameExceptPaths c1 (foldl (remainingQuery pf) c1 (rootFields (c_schema c1) (Some q)))"
    by (rule same_foldl) (rule same_remainingQuery)
  from sameExceptPaths_trans[OF same_queryPatterns[OF s1]
      sameExceptPaths_trans[OF this same_subResources]]
  show ?thesis unfolding s2 .
qed

lemma same_mutationPattern: "sameExceptPaths (fst st) (fst (mutationPattern fs st e))"
proof -
  obtain c pf where st: "st = (c, pf)" by (cases st)
  obtain r p where e: "e = (r, p)" by (cases e)
  have 1: "sameExceptPaths (fst s) (fst (mutationPatternCreate fs r p s))" for s
    by (cases s)
       (auto simp add: mutationPatternCreate_def Let_def sameExceptPaths_refl same_ensurePath
          split: option.splits
          intro: sameExceptPaths_trans[OF same_ensurePath same_updatePath])
  have 2: "sameExceptPaths (fst s) (fst (mutationPatternUpdate fs r p s))" for s
    by (cases s)
       (auto simp add: mutationPatternUpdate_def Let_def sameExceptPaths_refl same_ensurePath
          split: option.splits
          intro: sameExceptPaths_trans[OF same_ensurePath same_updatePath])
  have 3: "sameExceptPaths (fst s) (fst (mutationPatternDelete fs r p s))" for s
    by (cases s)
       (auto simp add: mutationPatternDelete_def Let_def sameExceptPaths_refl same_ensurePath
          split: option.splits
          intro: sameExceptPaths_trans[OF same_ensurePath same_updatePath])
  show ?thesis
    unfolding e mutationPattern_def prod.case
    by (rule sameExceptPaths_trans[OF 1 sameExceptPaths_trans[OF 2 3]])
qed

lemma same_mutation_fold:
  "sameExceptPaths (fst st) (fst (foldl (mutationPattern fs) st ps))"
proof (induction ps arbitrary: st)
  case Nil
  then show ?case by (simp add: sameExceptPaths_refl)
next
  case (Cons e ps)
  show ?case
    using sameExceptPaths_trans[OF same_mutationPattern[of st fs e]
        Cons.IH[of "mutationPattern fs st e"]]
    by simp
qed

lemma same_remainingMutation: "sameExceptPaths c (remainingMutation pf c f)"
  by (auto simp add: remainingMutation_def Let_def sameExceptPaths_refl
      intro: sameExceptPaths_trans[OF same_ensurePath same_updatePath])

lemma same_convertMutations: "sameExceptPaths c (convertMutations c m ps)"
proof -
  let ?fs = "case map_of (ast_Types (c_schema c)) m of None \<Rightarrow> [] | Some d \<Rightarrow> def_Fields d"
  obtain c1 pf where f: "foldl (mutationPattern ?fs) (c, []) ps = (c1, pf)"
    by (cases "foldl (mutationPattern ?fs) (c, []) ps")
  have a: "sameExceptPaths c c1"
    using same_mutation_fold[of "(c, [])" ?fs ps] f by simp
  have b: "sameExceptPaths c1 (foldl (remainingMutation pf) c1 ?fs)"
    by (rule same_foldl) (rule same_remainingMutation)
  show ?thesis
    unfolding convertMutations_def Let_def f prod.case
    by (rule sameExceptPaths_trans[OF a b])
qed

lemma same_subscriptionField: "sameExceptPaths c (subscriptionField c f)"
  by (simp add: subscriptionField_def Let_def same_setGet sameExceptPaths_refl)

lemma same_convertSubscriptions: "sameExceptPaths c (convertSubscriptions c s)"
  unfolding convertSubscriptions_def Let_def
  by (rule same_foldl) (rule same_subscriptionField)

text \<open>The three phases of \<open>convertRootTypes\<close>.\<close>

lemma convertRootTypes_split:
  assumes "convertRootTypes c1 ps = Inr c"
  obtains c2 c3 where
    "(case ast_Query (c_schema c1) of None \<Rightarrow> Inr c1
      | Some q \<Rightarrow> convertQueries c1 q ps) = Inr c2"
    and "c3 = (case ast_Mutation (c_schema c2) of None \<Rightarrow> c2
               | Some m \<Rightarrow> convertMutations c2 m ps)"
    and "c = (case ast_Subscription (c_schema c3) of None \<Rightarrow> c3
              | Some s \<Rightarrow> convertSubscriptions c3 s)"
  using assms unfolding convertRootTypes_def Let_def by (auto split: sum.splits)

lemma same_convertRootTypes:
  assumes "convertRootTypes c1 ps = Inr c"
  shows "sameExceptPaths c1 c"
proof -
  from assms obtain c2 c3 where
    q: "(case ast_Query (c_schema c1) of None \<Rightarrow> Inr c1
         | Some q \<Rightarrow> convertQueries c1 q ps) = Inr c2" and
    m: "c3 = (case ast_Mutation (c_schema c2) of None \<Rightarrow> c2
              | Some m \<Rightarrow> convertMutations c2 m ps)" and
    s: "c = (case ast_Subscription (c_schema c3) of None \<Rightarrow> c3
             | Some s \<Rightarrow> convertSubscriptions c3 s)"
    by (rule convertRootTypes_split)
  have a: "sameExceptPaths c1 c2"
    using q by (auto split: option.splits simp add: sameExceptPaths_refl
        intro: same_convertQueries)
  have b: "sameExceptPaths c2 c3"
    unfolding m by (auto split: option.splits simp add: sameExceptPaths_refl
        same_convertMutations)
  have c: "sameExceptPaths c3 c"
    unfolding s by (auto split: option.splits simp add: sameExceptPaths_refl
        same_convertSubscriptions)
  show ?thesis by (rule sameExceptPaths_trans[OF a sameExceptPaths_trans[OF b c]])
qed

text \<open>The component schema of a converted definition in the document of \<open>Convert\<close>.\<close>

lemma component_Convert:
  assumes parse: "LoadSchema lib src = Inr sch"
    and run: "Convert lib cfg src = Inr doc"
    and wf: "typesByName sch"
    and d: "map_of (ast_Types sch) T = Some d"
    and conv: "convertedDefinition d"
  shows "\<exists>c1. c_config c1 = cfg \<and>
           componentOf doc T =
             Some (snd (convertTypeFields lib c1 (initialObjectSchema d) (def_Fields d)))"
proof -
  let ?c0 = "initialConverter cfg src sch"
  have s0: "c_schema ?c0 = sch" "c_config ?c0 = cfg" by (simp_all add: initialConverter_def)
  from run obtain c where c: "Convert_state lib cfg src = Inr c" and doc: "doc = c_doc c"
    by (auto simp add: Convert_def split: sum.splits)
  from c have "convertRootTypes (convertTypes lib ?c0)
       (if DetectRESTPatterns cfg then detectRESTPatterns ?c0 else []) = Inr c"
    unfolding Convert_state_parsed[OF parse] .
  from same_convertRootTypes[OF this]
  have comp: "doc_Components (c_doc c) = doc_Components (c_doc (convertTypes lib ?c0))"
    by (simp add: sameExceptPaths_def)
  from component_convertTypes[of ?c0 T d lib] wf d conv s0
  obtain c1 where "c_config c1 = cfg"
    "map_of (comp_Schemas (doc_Components (c_doc (convertTypes lib ?c0)))) T =
       Some (snd (convertTypeFields lib c1 (initialObjectSchema d) (def_Fields d)))"
    by auto
  then show ?thesis unfolding componentOf_def doc comp by blast
qed

section \<open>Reference fields\<close>

text \<open>
  C2, as stated, fails in three ways. In the sample the query type has the field \<open>user\<close>,
  a non-list reference to the declared object type \<open>User\<close>, and there is no component
  schema for \<open>Query\<close> at all; the description that the code writes for \<open>Post.author\<close>
  separates its two halves with an ASCII hyphen, not with a dash (the bytes E2 80 94); and
  in the schema with colliding names the later field \<open>Comment.authorId\<close> replaces the
  property that \<open>Comment.author\<close> was stored under, which is left as \<open>{type: string}\<close>
  without a description.
\<close>

theorem reference_field_counterexample:
  "componentOf sampleDocument ''Query'' = None \<and>
   map_option (\<lambda>s. map_option sDescription (map_of (sProperties s) ''authorId''))
     (componentOf sampleDocument ''Post'') =
     Some (Some ''Reference to User.id - use GET /users/{authorId}'') \<and>
   ''Reference to User.id - use GET /users/{authorId}'' \<noteq>
     ''Reference to User.id '' @ [CHR 0xE2, CHR 0x80, CHR 0x94] @ '' use GET /users/{authorId}'' \<and>
   map_option (\<lambda>s. map_of (sProperties s) ''authorId'') (componentOf collisionDocument ''Comment'') =
     Some (Some (schemaOfType ''string'')) \<and>
   schemaOfType ''string'' \<noteq>
     schemaOfTypeDescription ''string'' ''Reference to User.id - use GET /users/{authorId}''"
  by code_simp

text \<open>
  C2, amended: let \<open>T\<close> be an object or input-object type that is not built-in (not
  \<open>Query\<close>, \<open>Mutation\<close>, \<open>Subscription\<close> and not starting with two underscores), and \<open>f\<close> a
  field of \<open>T\<close> whose type is a non-list reference to a type \<open>X\<close> that the schema
  declares as an object, input object, enum, union or interface type and that is neither
  built-in nor named like one of the five built-in scalars. If no later field of \<open>T\<close> is
  stored under the key
  \<open>f\<close> + \<open>Id\<close>, the component schema of \<open>T\<close> has under that key the property
  \<open>{type: string, description: "Reference to X.id - use GET /<pluralized lower-cased X>/{fId}"}\<close>,
  the separator being an ASCII hyphen; and if \<open>f\<close> is non-null, \<open>f\<close> + \<open>Id\<close> is in the
  required list of \<open>T\<close>.
\<close>

theorem reference_field_becomes_id_property:
  assumes "LoadSchema lib schemaSource = Inr sch"
    and "Convert lib cfg schemaSource = Inr doc"
    and "typesByName sch"
    and "map_of (ast_Types sch) T = Some typeDef"
    and "def_Kind typeDef = Object \<or> def_Kind typeDef = InputObject"
    and "\<not> isBuiltInType T"
    and "def_Fields typeDef = pre @ f # post"
    and "fd_Type f = NamedT X nn"
    and "\<not> isScalarType X" and "\<not> isBuiltInType X"
    and "list_all (\<lambda>g. droppedField g \<or> fd_Name (renamedField g) \<noteq> fd_Name f @ ''Id'') post"
    and "declaredComposite sch X"
  shows "\<exists>s. componentOf doc T = Some s \<and>
           map_of (sProperties s) (fd_Name f @ ''Id'') =
             Some (schemaOfTypeDescription ''string''
                     (''Reference to '' @ X @ ''.id - use GET /'' @
                      pluralize cfg (ToLower X) @ ''/{'' @ fd_Name f @ ''Id}'')) \<and>
           (nn \<longrightarrow> fd_Name f @ ''Id'' \<in> set (sRequired s))"
proof -
  have n: "def_Name typeDef = T" by (rule typesByName_entry[OF assms(3,4)])
  have conv: "convertedDefinition typeDef"
    using assms(5,6) n by (simp add: convertedDefinition_def)
  from component_Convert[OF assms(1-4) conv] obtain c1 where
    cfg: "c_config c1 = cfg" and
    comp: "componentOf doc T =
       Some (snd (convertTypeFields lib c1 (initialObjectSchema typeDef) (pre @ f # post)))"
    unfolding assms(7) by blast
  have ref: "referenceField f"
    using assms(8-10) by (simp add: referenceField_def)
  have tn: "Type_Name (fd_Type f) = X" "NonNull (fd_Type f) = nn"
    using assms(8) by simp_all
  let ?s = "snd (convertTypeFields lib c1 (initialObjectSchema typeDef) (pre @ f # post))"
  have p: "map_of (sProperties ?s) (fd_Name f @ ''Id'') =
      Some (objectReferenceSchema cfg X (fd_Name f))"
    using convertTypeFields_reference[OF ref assms(11), of lib c1 _ pre] by (simp add: cfg tn)
  have r: "nn \<longrightarrow> fd_Name f @ ''Id'' \<in> set (sRequired ?s)"
    using convertTypeFields_reference_required[OF ref, of lib c1 _ pre post] by (simp add: tn)
  show ?thesis
    using comp p r by (simp add: objectReferenceSchema_def)
qed

theorem reference_field_becomes_id_property_witness:
  "\<exists>s. componentOf sampleDocument ''Post'' = Some s \<and>
     map_of (sProperties s) ''authorId'' =
       Some (schemaOfTypeDescription ''string''
               ''Reference to User.id - use GET /users/{authorId}'') \<and>
     ''authorId'' \<in> set (sRequired s)"
proof -
  let ?pre = "[mkField ''id'' [] (NamedT ''ID'' True)]"
  let ?f = "mkField ''author'' [] (NamedT ''User'' True)"
  let ?post = "[mkField ''tags'' [] (ListT (NamedT ''String'' True) True),
                mkField ''reviewer'' [] (NamedT ''__Type'' False)]"
  let ?d = "mkDefinition Object ''Post'' (?pre @ ?f # ?post)"
  have h1: "LoadSchema sampleLibrary [] = Inr sampleSchema" by (simp add: sampleLibrary_def)
  have h2: "Convert sampleLibrary defaultConfig [] = Inr sampleDocument" by code_simp
  have h3: "typesByName sampleSchema" by code_simp
  have h4: "map_of (ast_Types sampleSchema) ''Post'' = Some ?d" by code_simp
  have h5: "def_Kind ?d = Object \<or> def_Kind ?d = InputObject" by (simp add: mkDefinition_def)
  have h6: "\<not> isBuiltInType ''Post''" by code_simp
  have h7: "def_Fields ?d = ?pre @ ?f # ?post" by (simp add: mkDefinition_def)
  have h8: "fd_Type ?f = NamedT ''User'' True" by (simp add: mkField_def)
  have h9: "\<not> isScalarType ''User''" by code_simp
  have h10: "\<not> isBuiltInType ''User''" by code_simp
  have h11: "list_all (\<lambda>g. droppedField g \<or> fd_Name (renamedField g) \<noteq> fd_Name ?f @ ''Id'') ?post"
    by code_simp
  have h12: "declaredComposite sampleSchema ''User''" by code_simp
  have e: "''Reference to '' @ ''User'' @ ''.id - use GET /'' @
      pluralize defaultConfig (ToLower ''User'') @ ''/{'' @ fd_Name ?f @ ''Id}'' =
      ''Reference to User.id - use GET /users/{authorId}''"
    by code_simp
  have k: "fd_Name ?f @ ''Id'' = ''authorId''" by (simp add: mkField_def)
  from reference_field_becomes_id_property[OF h1 h2 h3 h4 h5 h6 h7 h8 h9 h10 h11 h12]
  show ?thesis unfolding e k by simp
qed

section \<open>The parsed schema after Convert\<close>

text \<open>
  C8 (the code renames a field of the parsed schema): before \<open>Convert\<close> the fields of
  \<open>Post\<close> in the sample are \<open>id\<close>, \<open>author\<close>, \<open>tags\<close> and \<open>reviewer\<close>; in the schema that
  the receiver holds when \<open>Convert\<close> returns, \<open>author\<close> is named \<open>authorId\<close>. The root
  pointers lead into the same definitions: for a query type named \<open>RootQuery\<close> with the
  field \<open>me: User\<close>, the path that the document gets is \<open>/meId\<close>.
\<close>

theorem Convert_renames_parsed_field:
  "map_option (\<lambda>d. map fd_Name (def_Fields d)) (map_of (ast_Types sampleSchema) ''Post'') =
     Some [''id'', ''author'', ''tags'', ''reviewer''] \<and>
   map_sum id
     (\<lambda>c. map_option (\<lambda>d. map fd_Name (def_Fields d)) (map_of (ast_Types (c_schema c)) ''Post''))
     (Convert_state sampleLibrary defaultConfig []) =
     Inr (Some [''id'', ''authorId'', ''tags'', ''reviewer'']) \<and>
   map_option (\<lambda>d. map fd_Name (def_Fields d)) (deref aliasSchema (ast_Query aliasSchema)) =
     Some [''me''] \<and>
   map_sum id (\<lambda>doc. map fst (doc_Paths doc)) (Convert aliasLibrary defaultConfig []) =
     Inr [''/meId'']"
  by code_simp

section \<open>Introspection fields\<close>

text \<open>
  C7 (the loop over the remaining mutations has no test for the introspection prefix):
  when the query type is also the mutation type, the fields that the mutation pointer leads
  to include \<open>__schema\<close> and \<open>__type\<close>, which the parser has added to the query type. The
  loop over the remaining queries skips them, so neither path has a GET operation; the loop
  over the remaining mutations does not, and the document has the paths \<open>/__schema\<close> and
  \<open>/__type\<close>, each with a POST operation for the field.
\<close>

theorem shared_root_introspection_fields_are_emitted:
  "map_option (\<lambda>d. map fd_Name (def_Fields d))
     (deref sharedRootSchema (ast_Mutation sharedRootSchema)) =
     Some [''version'', ''__schema'', ''__type''] \<and>
   HasPrefix ''__schema'' ''__'' \<and> HasPrefix ''__type'' ''__'' \<and>
   map_sum id
     (\<lambda>doc. map (\<lambda>path. map_option
                  (\<lambda>item. (map_option op_OperationID (pi_Get item),
                           map_option op_OperationID (pi_Post item)))
                  (map_of (doc_Paths doc) path))
             [''/__schema'', ''/__type''])
     (Convert sharedRootLibrary defaultConfig []) =
     Inr [Some (None, Some ''__schema''), Some (None, Some ''__type'')]"
  by code_simp


section \<open>Sub-resource endpoints\<close>

lemma getOperationOf_setGet:
  "getOperationOf (c_doc (setGet q op c)) p =
     (if p = q then Some op else getOperationOf (c_doc c) p)"
  by (simp add: getOperationOf_def paths_setGet)

lemma getOperationOf_ensurePath:
  "getOperationOf (c_doc (ensurePath q c)) p = getOperationOf (c_doc c) p"
  by (simp add: getOperationOf_def paths_ensurePath emptyPathItem_def)

lemma getOperationOf_updatePath:
  "(\<And>item. pi_Get (f item) = pi_Get item) \<Longrightarrow>
   getOperationOf (c_doc (updatePath q f c)) p = getOperationOf (c_doc c) p"
  by (auto simp add: getOperationOf_def paths_updatePath split: option.splits)

lemma subResourceField_eq:
  "subResourceField d c g =
     (case subResourceTarget g of
        None \<Rightarrow> c
      | Some E' \<Rightarrow>
          setGet (subResourcePath (c_config c) (def_Name d) (fd_Name g))
            (plainOperation (''get'' @ def_Name d @ capitalize (fd_Name g))
               (''Get '' @ fd_Name g @ '' by '' @ ToLower (def_Name d)) [idPathParameter]
               (schemaArrayOf (schemaOfRef (''#/components/schemas/'' @ E'))))
            c)"
  by (auto simp add: subResourceField_def subResourceTarget_def subResourcePath_def Let_def
      split: option.splits)

lemma responses_plainOperation:
  "op_Responses (plainOperation i s ps sc) = jsonResponse200 sc"
  by (simp add: plainOperation_def)

text \<open>One field of the third loop: it keeps the responses at \<open>p\<close> or sets the agreed ones.\<close>

lemma subResourceField_keeps:
  assumes "case subResourceTarget g of None \<Rightarrow> True
           | Some E' \<Rightarrow> subResourcePath (c_config c) (def_Name d) (fd_Name g) \<noteq> p \<or> E' = E"
    and "getResponsesOf (c_doc c) p = Some (arrayOfRefResponses E)"
  shows "getResponsesOf (c_doc (subResourceField d c g)) p = Some (arrayOfRefResponses E)"
  using assms
  by (auto simp add: subResourceField_eq getResponsesOf_def getOperationOf_setGet
      responses_plainOperation arrayOfRefResponses_def split: option.splits)

lemma subResourceField_sets:
  assumes "subResourceTarget f = Some E"
  shows "getResponsesOf (c_doc (subResourceField d c f))
           (subResourcePath (c_config c) (def_Name d) (fd_Name f)) =
         Some (arrayOfRefResponses E)"
  using assms
  by (simp add: subResourceField_eq getResponsesOf_def getOperationOf_setGet
      responses_plainOperation arrayOfRefResponses_def)

lemma config_subResourceField: "c_config (subResourceField d c g) = c_config c"
  using same_subResourceField[of c d g] by (simp add: sameExceptPaths_def)

lemma config_subResource_fold: "c_config (foldl (subResourceField d) c gs) = c_config c"
  by (induction gs arbitrary: c) (simp_all add: config_subResourceField)

lemma subResource_fold_keeps:
  assumes "list_all (\<lambda>g. case subResourceTarget g of None \<Rightarrow> True
             | Some E' \<Rightarrow> subResourcePath (c_config c) (def_Name d) (fd_Name g) \<noteq> p \<or> E' = E) gs"
    and "getResponsesOf (c_doc c) p = Some (arrayOfRefResponses E)"
  shows "getResponsesOf (c_doc (foldl (subResourceField d) c gs)) p = Some (arrayOfRefResponses E)"
  using assms
proof (induction gs arbitrary: c)
  case Nil
  then show ?case by simp
next
  case (Cons g gs)
  from Cons.prems(1) have
    g: "case subResourceTarget g of None \<Rightarrow> True
        | Some E' \<Rightarrow> subResourcePath (c_config c) (def_Name d) (fd_Name g) \<noteq> p \<or> E' = E"
    and gs: "list_all (\<lambda>h. case subResourceTarget h of None \<Rightarrow> True
        | Some E' \<Rightarrow> subResourcePath (c_config (subResourceField d c g)) (def_Name d) (fd_Name h) \<noteq> p
            \<or> E' = E) gs"
    unfolding config_subResourceField by simp_all
  show ?case
    unfolding foldl_Cons
    by (rule Cons.IH[OF gs subResourceField_keeps[OF g Cons.prems(2)]])
qed

lemma subResource_fold_sets:
  assumes "list_all (\<lambda>g. case subResourceTarget g of None \<Rightarrow> True
             | Some E' \<Rightarrow> subResourcePath (c_config c) (def_Name d) (fd_Name g) \<noteq> p \<or> E' = E) gs"
    and "f \<in> set gs" "subResourceTarget f = Some E"
    and "p = subResourcePath (c_config c) (def_Name d) (fd_Name f)"
  shows "getResponsesOf (c_doc (foldl (subResourceField d) c gs)) p = Some (arrayOfRefResponses E)"
proof -
  from assms(2) obtain pre post where gs: "gs = pre @ f # post" by (auto dest: split_list)
  let ?c1 = "foldl (subResourceField d) c pre"
  have cfg1: "c_config ?c1 = c_config c" by (rule config_subResource_fold)
  let ?c2 = "subResourceField d ?c1 f"
  have cfg2: "c_config ?c2 = c_config c" by (simp add: config_subResourceField cfg1)
  have at: "getResponsesOf (c_doc ?c2) p = Some (arrayOfRefResponses E)"
    using subResourceField_sets[OF assms(3), of d ?c1] by (simp add: cfg1 assms(4))
  have post: "list_all (\<lambda>g. case subResourceTarget g of None \<Rightarrow> True
             | Some E' \<Rightarrow> subResourcePath (c_config ?c2) (def_Name d) (fd_Name g) \<noteq> p \<or> E' = E) post"
    using assms(1) unfolding gs cfg2 by simp
  show ?thesis
    unfolding gs foldl_append foldl_Cons
    by (rule subResource_fold_keeps[OF post at])
qed

text \<open>One type of the third loop.\<close>

lemma pathAgrees_entry:
  "pathAgrees cfg sch p E \<Longrightarrow> map_of (ast_Types sch) k = Some d \<Longrightarrow> typeAgrees cfg p E d"
  unfolding pathAgrees_def list_all_iff by (auto dest!: map_of_SomeD)

lemma subResourceType_keeps:
  assumes "pathAgrees (c_config c) (c_schema c) p E"
    and "getResponsesOf (c_doc c) p = Some (arrayOfRefResponses E)"
  shows "getResponsesOf (c_doc (subResourceType c k)) p = Some (arrayOfRefResponses E)"
proof (cases "map_of (ast_Types (c_schema c)) k")
  case None
  then show ?thesis using assms(2) by (simp add: subResourceType_def)
next
  case (Some d)
  from pathAgrees_entry[OF assms(1) Some] show ?thesis
    unfolding subResourceType_def typeAgrees_def using Some assms(2)
    by (auto intro: subResource_fold_keeps)
qed

lemma subResourceType_sets:
  assumes "pathAgrees (c_config c) (c_schema c) p E"
    and "map_of (ast_Types (c_schema c)) T = Some d"
    and "\<not> isBuiltInType (def_Name d)" "def_Kind d = Object"
    and "f \<in> set (def_Fields d)" "subResourceTarget f = Some E"
    and "p = subResourcePath (c_config c) (def_Name d) (fd_Name f)"
  shows "getResponsesOf (c_doc (subResourceType c T)) p = Some (arrayOfRefResponses E)"
proof -
  from pathAgrees_entry[OF assms(1,2)] assms(3,4)
  have "list_all (\<lambda>g. case subResourceTarget g of None \<Rightarrow> True
             | Some E' \<Rightarrow> subResourcePath (c_config c) (def_Name d) (fd_Name g) \<noteq> p \<or> E' = E)
          (def_Fields d)"
    by (simp add: typeAgrees_def)
  from subResource_fold_sets[OF this assms(5,6,7)] show ?thesis
    using assms(2,3,4) by (simp add: subResourceType_def)
qed

lemma same_subResource_types_fold:
  "sameExceptPaths c (foldl subResourceType c ks)"
  by (rule same_foldl) (rule same_subResourceType)

lemma subResource_types_fold_keeps:
  assumes "pathAgrees (c_config c) (c_schema c) p E"
    and "getResponsesOf (c_doc c) p = Some (arrayOfRefResponses E)"
  shows "getResponsesOf (c_doc (foldl subResourceType c ks)) p = Some (arrayOfRefResponses E)"
  using assms
proof (induction ks arbitrary: c)
  case Nil
  then show ?case by simp
next
  case (Cons k ks)
  have s: "c_config (subResourceType c k) = c_config c" "c_schema (subResourceType c k) = c_schema c"
    using same_subResourceType[of c k] by (simp_all add: sameExceptPaths_def)
  have a: "pathAgrees (c_config (subResourceType c k)) (c_schema (subResourceType c k)) p E"
    unfolding s by (rule Cons.prems(1))
  show ?case
    unfolding foldl_Cons
    by (rule Cons.IH[OF a subResourceType_keeps[OF Cons.prems]])
qed

lemma subResources_sets:
  assumes "pathAgrees (c_config c) (c_schema c) p E"
    and "map_of (ast_Types (c_schema c)) T = Some d"
    and "\<not> isBuiltInType (def_Name d)" "def_Kind d = Object"
    and "f \<in> set (def_Fields d)" "subResourceTarget f = Some E"
    and "p = subResourcePath (c_config c) (def_Name d) (fd_Name f)"
  shows "getResponsesOf (c_doc (subResources c)) p = Some (arrayOfRefResponses E)"
proof -
  let ?keys = "map fst (ast_Types (c_schema c))"
  have "T \<in> set ?keys" using assms(2) by (auto dest!: map_of_SomeD intro: rev_image_eqI)
  then obtain ks1 ks2 where split: "?keys = ks1 @ T # ks2" by (auto dest: split_list)
  let ?c1 = "foldl subResourceType c ks1"
  have s1: "c_config ?c1 = c_config c" "c_schema ?c1 = c_schema c"
    using same_subResource_types_fold[of c ks1] by (simp_all add: sameExceptPaths_def)
  let ?c2 = "subResourceType ?c1 T"
  have s2: "c_config ?c2 = c_config c" "c_schema ?c2 = c_schema c"
    using same_subResourceType[of ?c1 T] s1 by (simp_all add: sameExceptPaths_def)
  have at: "getResponsesOf (c_doc ?c2) p = Some (arrayOfRefResponses E)"
  proof (rule subResourceType_sets[where d = d and f = f])
    show "pathAgrees (c_config ?c1) (c_schema ?c1) p E" unfolding s1 by (rule assms(1))
    show "map_of (ast_Types (c_schema ?c1)) T = Some d" unfolding s1 by (rule assms(2))
    show "p = subResourcePath (c_config ?c1) (def_Name d) (fd_Name f)"
      unfolding s1 by (rule assms(7))
  qed (rule assms(3) assms(4) assms(5) assms(6))+
  have agrees2: "pathAgrees (c_config ?c2) (c_schema ?c2) p E" unfolding s2 by (rule assms(1))
  have "getResponsesOf (c_doc (foldl subResourceType ?c2 ks2)) p = Some (arrayOfRefResponses E)"
    by (rule subResource_types_fold_keeps[OF agrees2 at])
  then show ?thesis unfolding subResources_def split by simp
qed

lemma getResponsesOf_ensurePath:
  "getResponsesOf (c_doc (ensurePath q c)) p = getResponsesOf (c_doc c) p"
  by (simp add: getResponsesOf_def getOperationOf_ensurePath)

lemma getResponsesOf_updatePath:
  "(\<And>item. pi_Get (f item) = pi_Get item) \<Longrightarrow>
   getResponsesOf (c_doc (updatePath q f c)) p = getResponsesOf (c_doc c) p"
  by (simp add: getResponsesOf_def getOperationOf_updatePath)

lemma getResponsesOf_setGet_other:
  "p \<noteq> q \<Longrightarrow> getResponsesOf (c_doc (setGet q op c)) p = getResponsesOf (c_doc c) p"
  by (simp add: getResponsesOf_def getOperationOf_setGet)

text \<open>The mutation pass writes POST, PUT and DELETE operations only.\<close>

lemma get_mutationPattern:
  "getResponsesOf (c_doc (fst (mutationPattern fs st e))) p = getResponsesOf (c_doc (fst st)) p"
proof -
  obtain r pat where e: "e = (r, pat)" by (cases e)
  have 1: "getResponsesOf (c_doc (fst (mutationPatternCreate fs r pat s))) p =
           getResponsesOf (c_doc (fst s)) p" for s
    by (cases s)
       (simp add: mutationPatternCreate_def Let_def getResponsesOf_ensurePath
          getResponsesOf_updatePath split: option.splits)
  have 2: "getResponsesOf (c_doc (fst (mutationPatternUpdate fs r pat s))) p =
           getResponsesOf (c_doc (fst s)) p" for s
    by (cases s)
       (simp add: mutationPatternUpdate_def Let_def getResponsesOf_ensurePath
          getResponsesOf_updatePath split: option.splits)
  have 3: "getResponsesOf (c_doc (fst (mutationPatternDelete fs r pat s))) p =
           getResponsesOf (c_doc (fst s)) p" for s
    by (cases s)
       (simp add: mutationPatternDelete_def Let_def getResponsesOf_ensurePath
          getResponsesOf_updatePath split: option.splits)
  show ?thesis unfolding e mutationPattern_def prod.case by (simp only: 1 2 3)
qed

lemma get_mutation_fold:
  "getResponsesOf (c_doc (fst (foldl (mutationPattern fs) st ps))) p =
     getResponsesOf (c_doc (fst st)) p"
  by (induction ps arbitrary: st) (simp_all add: get_mutationPattern)

lemma get_remainingMutation:
  "getResponsesOf (c_doc (remainingMutation pf c g)) p = getResponsesOf (c_doc c) p"
  by (simp add: remainingMutation_def Let_def getResponsesOf_ensurePath getResponsesOf_updatePath)

lemma get_remaining_fold:
  "getResponsesOf (c_doc (foldl (remainingMutation pf) c gs)) p = getResponsesOf (c_doc c) p"
  by (induction gs arbitrary: c) (simp_all add: get_remainingMutation)

lemma get_convertMutations:
  "getResponsesOf (c_doc (convertMutations c m ps)) p = getResponsesOf (c_doc c) p"
proof -
  let ?fs = "case map_of (ast_Types (c_schema c)) m of None \<Rightarrow> [] | Some d \<Rightarrow> def_Fields d"
  obtain c1 pf where f: "foldl (mutationPattern ?fs) (c, []) ps = (c1, pf)"
    by (cases "foldl (mutationPattern ?fs) (c, []) ps")
  have a: "getResponsesOf (c_doc c1) p = getResponsesOf (c_doc c) p"
    using get_mutation_fold[of ?fs "(c, [])" ps p] f by simp
  show ?thesis
    unfolding convertMutations_def Let_def f prod.case get_remaining_fold a ..
qed

text \<open>Names and paths.\<close>

lemma slash_not_nameChar: "CHR ''/'' \<notin> set nameChars"
  by (simp add: nameChars_def)

lemma brace_not_nameChar: "CHR ''}'' \<notin> set nameChars"
  by (simp add: nameChars_def)

lemma validName_no_slash: "validName n \<Longrightarrow> CHR ''/'' \<notin> set n"
  unfolding validName_def list_all_iff using slash_not_nameChar by blast

lemma validName_last: "validName n \<Longrightarrow> last n \<noteq> CHR ''}''"
proof -
  assume v: "validName n"
  then have "n \<noteq> []" by (simp add: validName_def)
  then have "last n \<in> set n" by simp
  with v have "last n \<in> set nameChars" unfolding validName_def list_all_iff by blast
  with brace_not_nameChar show ?thesis by auto
qed

lemma validName_nonempty: "validName n \<Longrightarrow> n \<noteq> []"
  by (simp add: validName_def)

lemma addPrefix_inject: "addPrefix cfg a = addPrefix cfg b \<Longrightarrow> a = b"
  by (simp add: addPrefix_def split: if_splits)

lemma subscription_path_differs:
  assumes "CHR ''/'' \<notin> set (fd_Name g)" "validName fname"
  shows "buildSubscriptionPath c g \<noteq> subResourcePath (c_config c) T fname"
proof
  assume eq: "buildSubscriptionPath c g = subResourcePath (c_config c) T fname"
  let ?plural = "pluralize (c_config c) (ToLower T)"
  show False
  proof (cases "find (\<lambda>arg. NonNull (ad_Type arg)) (fd_Arguments g)")
    case None
    with eq have "''/'' @ fd_Name g = ''/'' @ ?plural @ ''/{id}/'' @ fname"
      by (auto simp add: buildSubscriptionPath_def subResourcePath_def Let_def
          dest!: addPrefix_inject)
    then have "fd_Name g = ?plural @ ''/{id}/'' @ fname" by simp
    then have "CHR ''/'' \<in> set (fd_Name g)" by simp
    with assms(1) show False by simp
  next
    case (Some arg)
    with eq have "''/'' @ fd_Name g @ ''/{'' @ ad_Name arg @ ''}'' =
                  ''/'' @ ?plural @ ''/{id}/'' @ fname"
      by (auto simp add: buildSubscriptionPath_def subResourcePath_def Let_def
          dest!: addPrefix_inject)
    then have "last (''/'' @ fd_Name g @ ''/{'' @ ad_Name arg @ ''}'') =
               last (''/'' @ ?plural @ ''/{id}/'' @ fname)" by (rule arg_cong)
    then have "last fname = CHR ''}''"
      using validName_nonempty[OF assms(2)] by simp
    with validName_last[OF assms(2)] show False by simp
  qed
qed

lemma get_subscriptionField:
  assumes "CHR ''/'' \<notin> set (fd_Name g)" "validName fname"
  shows "getResponsesOf (c_doc (subscriptionField c g)) (subResourcePath (c_config c) T fname) =
         getResponsesOf (c_doc c) (subResourcePath (c_config c) T fname)"
  using subscription_path_differs[OF assms, of c T]
  by (simp add: subscriptionField_def Let_def getResponsesOf_setGet_other)

lemma config_subscriptionField: "c_config (subscriptionField c g) = c_config c"
  using same_subscriptionField[of c g] by (simp add: sameExceptPaths_def)

lemma get_subscription_fold:
  assumes "list_all (\<lambda>g. CHR ''/'' \<notin> set (fd_Name g)) gs" "validName fname"
  shows "getResponsesOf (c_doc (foldl subscriptionField c gs))
           (subResourcePath (c_config c) T fname) =
         getResponsesOf (c_doc c) (subResourcePath (c_config c) T fname)"
  using assms(1)
proof (induction gs arbitrary: c)
  case Nil
  then show ?case by simp
next
  case (Cons g gs)
  from Cons.prems have g: "CHR ''/'' \<notin> set (fd_Name g)"
    and gs: "list_all (\<lambda>g. CHR ''/'' \<notin> set (fd_Name g)) gs" by simp_all
  show ?case
    unfolding foldl_Cons
    using Cons.IH[OF gs, of "subscriptionField c g"] get_subscriptionField[OF g assms(2), of c T]
    by (simp add: config_subscriptionField)
qed

text \<open>The conversion of the types keeps the sub-resource endpoints of a definition.\<close>

lemma subResourceTarget_renamedField:
  "subResourceTarget (renamedField g) = subResourceTarget g"
  by (simp add: subResourceTarget_def renamedField_def)

lemma renamedField_list: "subResourceTarget g = Some E \<Longrightarrow> renamedField g = g"
  by (auto simp add: subResourceTarget_def renamedField_def referenceField_def
      split: option.splits)

lemma typeAgrees_afterConversion:
  assumes "typeAgrees cfg p E d"
  shows "typeAgrees cfg p E (afterConversion d)"
proof (cases "convertedDefinition d")
  case False
  then show ?thesis using assms by (simp add: afterConversion_def)
next
  case True
  then have k: "\<not> isBuiltInType (def_Name d)" "def_Kind d = Object \<or> def_Kind d = InputObject"
    by (simp_all add: convertedDefinition_def)
  show ?thesis
  proof (cases "def_Kind d = Object")
    case False
    then show ?thesis by (simp add: typeAgrees_def afterConversion_def)
  next
    case obj: True
    from assms k(1) obj have
      all: "\<forall>g \<in> set (def_Fields d). case subResourceTarget g of None \<Rightarrow> True
             | Some E' \<Rightarrow> subResourcePath cfg (def_Name d) (fd_Name g) \<noteq> p \<or> E' = E"
      by (simp add: typeAgrees_def list_all_iff)
    have "case subResourceTarget (renamedField g) of None \<Rightarrow> True
          | Some E' \<Rightarrow> subResourcePath cfg (def_Name d) (fd_Name (renamedField g)) \<noteq> p \<or> E' = E"
      if "g \<in> set (def_Fields d)" for g
    proof (cases "subResourceTarget g")
      case None
      then show ?thesis by (simp add: subResourceTarget_renamedField)
    next
      case (Some E')
      from all that have "case subResourceTarget g of None \<Rightarrow> True
             | Some E' \<Rightarrow> subResourcePath cfg (def_Name d) (fd_Name g) \<noteq> p \<or> E' = E" by (rule bspec)
      then show ?thesis
        unfolding renamedField_list[OF Some] .
    qed
    then show ?thesis
      using True
      by (simp add: typeAgrees_def afterConversion_def list_all_iff cong: option.case_cong)
  qed
qed

lemma no_slash_renamedField:
  "validName (fd_Name g) \<Longrightarrow> CHR ''/'' \<notin> set (fd_Name (renamedField g))"
  using validName_no_slash[of "fd_Name g"] by (simp add: renamedField_def)

lemma no_slash_afterConversion:
  assumes "list_all (\<lambda>g. validName (fd_Name g)) (def_Fields d)"
  shows "list_all (\<lambda>g. CHR ''/'' \<notin> set (fd_Name g)) (def_Fields (afterConversion d))"
  using assms
  by (auto simp add: afterConversion_def list_all_iff no_slash_renamedField validName_no_slash)

lemma map_of_converted:
  "map_of (map (\<lambda>e. (fst e, g (snd e))) al) k = map_option g (map_of al k)"
  by (induction al) auto

lemma pathAgrees_converted:
  assumes "pathAgrees cfg sch p E"
  shows "pathAgrees cfg
           (sch\<lparr> ast_Types := map (\<lambda>e. (fst e, afterConversion (snd e))) (ast_Types sch) \<rparr>) p E"
  using assms
  by (simp add: pathAgrees_def list_all_iff typeAgrees_afterConversion)

text \<open>
  The responses of the sub-resource endpoint in the document of a run whose schema has a
  query type.
\<close>

lemma subResource_Convert:
  assumes parse: "LoadSchema lib src = Inr sch"
    and run: "Convert lib cfg src = Inr doc"
    and wf: "typesByName sch"
    and query: "ast_Query sch = Some q"
    and d: "map_of (ast_Types sch) T = Some d"
    and obj: "def_Kind d = Object"
    and nb: "\<not> isBuiltInType T"
    and f: "f \<in> set (def_Fields d)"
    and target: "subResourceTarget f = Some E"
    and agrees: "pathAgrees cfg sch (subResourcePath cfg T (fd_Name f)) E"
    and fname: "validName (fd_Name f)"
    and subs: "list_all (\<lambda>g. validName (fd_Name g)) (rootFields sch (ast_Subscription sch))"
  shows "getResponsesOf doc (subResourcePath cfg T (fd_Name f)) = Some (arrayOfRefResponses E)"
proof -
  let ?p = "subResourcePath cfg T (fd_Name f)"
  let ?c0 = "initialConverter cfg src sch"
  let ?c1 = "convertTypes lib ?c0"
  let ?sch1 = "sch\<lparr> ast_Types := map (\<lambda>e. (fst e, afterConversion (snd e))) (ast_Types sch) \<rparr>"
  let ?ps = "if DetectRESTPatterns cfg then detectRESTPatterns ?c0 else []"
  have s0: "c_schema ?c0 = sch" "c_config ?c0 = cfg" by (simp_all add: initialConverter_def)
  have dist: "distinct (map fst (ast_Types sch))" using wf by (simp add: typesByName_def)
  have n: "def_Name d = T" by (rule typesByName_entry[OF wf d])
  have s1: "c_schema ?c1 = ?sch1"
    using convertTypes_schema[of ?c0 lib] dist by (simp add: s0)
  have g1: "c_config ?c1 = cfg" by (simp add: config_convertTypes s0)
  from run obtain c where c: "Convert_state lib cfg src = Inr c" and doc: "doc = c_doc c"
    by (auto simp add: Convert_def split: sum.splits)
  from c have root: "convertRootTypes ?c1 ?ps = Inr c"
    unfolding Convert_state_parsed[OF parse] .
  from convertRootTypes_split[OF root] obtain c2 c3 where
    r1: "(case ast_Query (c_schema ?c1) of None \<Rightarrow> Inr ?c1
          | Some q \<Rightarrow> convertQueries ?c1 q ?ps) = Inr c2"
    and r2: "c3 = (case ast_Mutation (c_schema c2) of None \<Rightarrow> c2
                   | Some m \<Rightarrow> convertMutations c2 m ?ps)"
    and r3: "c = (case ast_Subscription (c_schema c3) of None \<Rightarrow> c3
                  | Some s \<Rightarrow> convertSubscriptions c3 s)"
    by blast
  from r1 have cq: "convertQueries ?c1 q ?ps = Inr c2" by (simp add: s1 query)
  from convertQueries_split[OF cq] obtain cA pf where
    q1: "queryPatterns ?ps (?c1, []) = Inr (cA, pf)"
    and q2: "c2 = subResources (foldl (remainingQuery pf) cA (rootFields (c_schema cA) (Some q)))"
    by blast
  let ?cB = "foldl (remainingQuery pf) cA (rootFields (c_schema cA) (Some q))"
  have "sameExceptPaths cA ?cB" by (rule same_foldl) (rule same_remainingQuery)
  from sameExceptPaths_trans[OF same_queryPatterns[OF q1] this]
  have sB: "c_schema ?cB = ?sch1" "c_config ?cB = cfg"
    by (simp_all add: sameExceptPaths_def s1 g1)
  have at2: "getResponsesOf (c_doc c2) ?p = Some (arrayOfRefResponses E)"
    unfolding q2
  proof (rule subResources_sets[where T = T and d = "afterConversion d" and f = f])
    show "pathAgrees (c_config ?cB) (c_schema ?cB) ?p E"
      unfolding sB by (rule pathAgrees_converted[OF agrees])
    show "map_of (ast_Types (c_schema ?cB)) T = Some (afterConversion d)"
      unfolding sB by (simp add: map_of_converted d)
    show "\<not> isBuiltInType (def_Name (afterConversion d))"
      using nb n by (simp add: afterConversion_def)
    show "def_Kind (afterConversion d) = Object"
      using obj by (simp add: afterConversion_def)
    have "renamedField f \<in> set (map renamedField (def_Fields d))" using f by simp
    then show "f \<in> set (def_Fields (afterConversion d))"
      using f unfolding renamedField_list[OF target] by (simp add: afterConversion_def)
    show "subResourceTarget f = Some E" by (rule target)
    show "?p = subResourcePath (c_config ?cB) (def_Name (afterConversion d)) (fd_Name f)"
      unfolding sB using n by (simp add: afterConversion_def)
  qed
  have same2: "sameExceptPaths ?c1 c2" by (rule same_convertQueries[OF cq])
  have at3: "getResponsesOf (c_doc c3) ?p = Some (arrayOfRefResponses E)"
    unfolding r2 using at2 by (simp add: get_convertMutations split: option.splits)
  have same3: "sameExceptPaths c2 c3"
    unfolding r2 by (simp add: sameExceptPaths_refl same_convertMutations split: option.splits)
  from sameExceptPaths_trans[OF same2 same3]
  have s3: "c_schema c3 = ?sch1" "c_config c3 = cfg"
    by (simp_all add: sameExceptPaths_def s1 g1)
  have "getResponsesOf (c_doc c) ?p = Some (arrayOfRefResponses E)"
  proof (cases "ast_Subscription sch")
    case None
    then show ?thesis unfolding r3 using at3 by (simp add: s3)
  next
    case (Some s)
    show ?thesis
    proof (cases "map_of (ast_Types sch) s")
      case None
      then show ?thesis
        unfolding r3 using at3 Some
        by (simp add: s3 convertSubscriptions_def map_of_converted)
    next
      case sd: (Some sdef)
      from subs have "list_all (\<lambda>g. validName (fd_Name g)) (def_Fields sdef)"
        using Some sd by (simp add: rootFields_def deref_def)
      from no_slash_afterConversion[OF this]
      have ns: "list_all (\<lambda>g. CHR ''/'' \<notin> set (fd_Name g)) (def_Fields (afterConversion sdef))" .
      have "getResponsesOf (c_doc (foldl subscriptionField c3 (def_Fields (afterConversion sdef))))
              (subResourcePath (c_config c3) T (fd_Name f)) =
            getResponsesOf (c_doc c3) (subResourcePath (c_config c3) T (fd_Name f))"
        by (rule get_subscription_fold[OF ns fname])
      then show ?thesis
        unfolding r3 using at3 Some sd
        by (simp add: s3 convertSubscriptions_def map_of_converted)
    qed
  qed
  then show ?thesis unfolding doc .
qed

text \<open>The component schema of the type has nothing under the name of the field.\<close>

lemma dropped_Convert:
  assumes parse: "LoadSchema lib src = Inr sch"
    and run: "Convert lib cfg src = Inr doc"
    and wf: "typesByName sch"
    and d: "map_of (ast_Types sch) T = Some d"
    and obj: "def_Kind d = Object"
    and nb: "\<not> isBuiltInType T"
    and others: "list_all (\<lambda>g. droppedField g \<or> fd_Name (renamedField g) \<noteq> k) (def_Fields d)"
  shows "\<exists>s. componentOf doc T = Some s \<and> map_of (sProperties s) k = None \<and>
           k \<notin> set (sRequired s)"
proof -
  have n: "def_Name d = T" by (rule typesByName_entry[OF wf d])
  have conv: "convertedDefinition d"
    using obj nb n by (simp add: convertedDefinition_def)
  from component_Convert[OF parse run wf d conv] obtain c1 where
    comp: "componentOf doc T =
       Some (snd (convertTypeFields lib c1 (initialObjectSchema d) (def_Fields d)))"
    by blast
  have init: "sProperties (initialObjectSchema d) = []" "sRequired (initialObjectSchema d) = []"
    by (simp_all add: initialObjectSchema_def schema_properties_required schemaOfType_def
        emptySchema_def)
  from convertTypeFields_other_key[OF others, of lib c1 "initialObjectSchema d"]
  show ?thesis using comp by (simp add: init)
qed

text \<open>
  C3, as stated, fails in five ways. In the sample the query type is an object type with
  the field \<open>users: [User!]!\<close>, and the document has neither a component schema for
  \<open>Query\<close> nor a path \<open>/querys/{id}/users\<close>. In the schema with colliding names the
  component schema of \<open>Bus\<close> keeps \<open>kinds\<close>, a non-null list of the built-in object type
  \<open>__Type\<close>, as a property and in \<open>required\<close>; it has a property under the name of the
  list field \<open>ownerId: [Tag!]!\<close>, stored there for the reference field \<open>owner\<close>; and
  \<open>Bus.stops: [Stop!]!\<close> and \<open>Buse.stops: [Tag!]!\<close> share the path \<open>/buses/{id}/stops\<close>,
  whose response is an array of references to one element type only (that of the type
  which the loop visits last; \<open>Tag\<close> in the order of the sample). And for a schema without a query type the document has no path at
  all, although \<open>User.posts\<close> is a non-null list of the object type \<open>Post\<close>.
\<close>

theorem sub_resource_counterexample:
  "map_option (\<lambda>d. (def_Kind d, map fd_Type (filter (\<lambda>g. fd_Name g = ''users'') (def_Fields d))))
     (map_of (ast_Types sampleSchema) ''Query'') =
     Some (Object, [ListT (NamedT ''User'' True) True]) \<and>
   Convert sampleLibrary defaultConfig [] = Inr sampleDocument \<and>
   componentOf sampleDocument ''Query'' = None \<and>
   getOperationOf sampleDocument ''/querys/{id}/users'' = None \<and>
   Convert collisionLibrary defaultConfig [] = Inr collisionDocument \<and>
   map_option (\<lambda>d. map (\<lambda>g. (fd_Name g, fd_Type g)) (def_Fields d))
     (map_of (ast_Types collisionSchema) ''Bus'') =
     Some [(''stops'', ListT (NamedT ''Stop'' True) True),
           (''ownerId'', ListT (NamedT ''Tag'' True) True),
           (''owner'', NamedT ''User'' False),
           (''kinds'', ListT (NamedT ''__Type'' True) True)] \<and>
   map_option (\<lambda>s. (map fst (sProperties s), sRequired s)) (componentOf collisionDocument ''Bus'') =
     Some ([''ownerId'', ''kinds''], [''kinds'']) \<and>
   subResourcePath defaultConfig ''Bus'' ''stops'' = ''/buses/{id}/stops'' \<and>
   getResponsesOf collisionDocument ''/buses/{id}/stops'' = Some (arrayOfRefResponses ''Tag'') \<and>
   arrayOfRefResponses ''Tag'' \<noteq> arrayOfRefResponses ''Stop'' \<and>
   map_sum id (\<lambda>doc. (doc_Paths doc, map fst (comp_Schemas (doc_Components doc))))
     (Convert noQueryLibrary defaultConfig []) =
     Inr ([], [''User'', ''Post''])"
  by code_simp

text \<open>
  C3, amended: let the schema have a query type, let \<open>T\<close> be an object type that is not
  built-in, and \<open>f\<close> a field of \<open>T\<close> whose type is a list (non-null or not) of the named
  type \<open>E\<close>, which the schema declares as an object, input object, enum, union or interface
  type and which is neither built-in nor named like one of the five built-in scalars. If no field
  of \<open>T\<close> is stored under the key \<open>f\<close>, the component schema of \<open>T\<close> has no property
  \<open>f\<close>, and \<open>f\<close> is not in its required list. If moreover every sub-resource endpoint of
  the schema with the path \<open>/<pluralized lower-cased T>/{id}/f\<close> (after the path prefix) has
  the element type \<open>E\<close>, and \<open>f\<close> and the subscription fields have names of letters, digits
  and underscores, then the document has that path with a GET operation whose responses
  are the one response \<open>200\<close> with an array of references to the component schema of \<open>E\<close>.
\<close>

theorem list_field_becomes_sub_resource:
  assumes "LoadSchema lib schemaSource = Inr sch"
    and "Convert lib cfg schemaSource = Inr doc"
    and "typesByName sch"
    and "ast_Query sch = Some queryType"
    and "map_of (ast_Types sch) T = Some typeDef"
    and "def_Kind typeDef = Object"
    and "\<not> isBuiltInType T"
    and "f \<in> set (def_Fields typeDef)"
    and "fd_Type f = ListT (NamedT E nnE) nn"
    and "E \<noteq> []" and "\<not> isScalarType E" and "\<not> isBuiltInType E"
    and "list_all (\<lambda>g. droppedField g \<or> fd_Name (renamedField g) \<noteq> fd_Name f)
           (def_Fields typeDef)"
    and "pathAgrees cfg sch (subResourcePath cfg T (fd_Name f)) E"
    and "validName (fd_Name f)"
    and "list_all (\<lambda>g. validName (fd_Name g)) (rootFields sch (ast_Subscription sch))"
    and "declaredComposite sch E"
  shows "(\<exists>s. componentOf doc T = Some s \<and> map_of (sProperties s) (fd_Name f) = None \<and>
            fd_Name f \<notin> set (sRequired s)) \<and>
         getResponsesOf doc (subResourcePath cfg T (fd_Name f)) =
           Some (jsonResponse200
                   (schemaArrayOf (schemaOfRef (''#/components/schemas/'' @ E))))"
proof -
  have target: "subResourceTarget f = Some E"
    using assms(9-11) by (simp add: subResourceTarget_def)
  have a: "\<exists>s. componentOf doc T = Some s \<and> map_of (sProperties s) (fd_Name f) = None \<and>
            fd_Name f \<notin> set (sRequired s)"
    by (rule dropped_Convert[OF assms(1-3) assms(5-7) assms(13)])
  have b: "getResponsesOf doc (subResourcePath cfg T (fd_Name f)) = Some (arrayOfRefResponses E)"
    by (rule subResource_Convert[OF assms(1-8) target assms(14-16)])
  show ?thesis using a b unfolding arrayOfRefResponses_def by (rule conjI)
qed

theorem list_field_becomes_sub_resource_witness:
  "(\<exists>s. componentOf sampleDocument ''User'' = Some s \<and> map_of (sProperties s) ''posts'' = None \<and>
      ''posts'' \<notin> set (sRequired s)) \<and>
   getResponsesOf sampleDocument ''/users/{id}/posts'' =
     Some (jsonResponse200 (schemaArrayOf (schemaOfRef ''#/components/schemas/Post'')))"
proof -
  let ?f = "mkField ''posts'' [] (ListT (NamedT ''Post'' True) True)"
  let ?d = "mkDefinition Object ''User''
              [mkField ''id'' [] (NamedT ''ID'' True), mkField ''name'' [] (NamedT ''String'' True), ?f]"
  have h1: "LoadSchema sampleLibrary [] = Inr sampleSchema" by (simp add: sampleLibrary_def)
  have h2: "Convert sampleLibrary defaultConfig [] = Inr sampleDocument" by code_simp
  have h3: "typesByName sampleSchema" by code_simp
  have h4: "ast_Query sampleSchema = Some ''Query''" by code_simp
  have h5: "map_of (ast_Types sampleSchema) ''User'' = Some ?d" by code_simp
  have h6: "def_Kind ?d = Object" by (simp add: mkDefinition_def)
  have h7: "\<not> isBuiltInType ''User''" by code_simp
  have h8: "?f \<in> set (def_Fields ?d)" by (simp add: mkDefinition_def)
  have h9: "fd_Type ?f = ListT (NamedT ''Post'' True) True" by (simp add: mkField_def)
  have h10: "''Post'' \<noteq> []" by simp
  have h11: "\<not> isScalarType ''Post''" by code_simp
  have h12: "\<not> isBuiltInType ''Post''" by code_simp
  have h13: "list_all (\<lambda>g. droppedField g \<or> fd_Name (renamedField g) \<noteq> fd_Name ?f) (def_Fields ?d)"
    by code_simp
  have h14: "pathAgrees defaultConfig sampleSchema
               (subResourcePath defaultConfig ''User'' (fd_Name ?f)) ''Post''"
    by code_simp
  have h15: "validName (fd_Name ?f)" by code_simp
  have h16: "list_all (\<lambda>g. validName (fd_Name g))
               (rootFields sampleSchema (ast_Subscription sampleSchema))"
    by code_simp
  have h17: "declaredComposite sampleSchema ''Post''" by code_simp
  have k: "fd_Name ?f = ''posts''" by (simp add: mkField_def)
  have p: "subResourcePath defaultConfig ''User'' ''posts'' = ''/users/{id}/posts''" by code_simp
  have e: "''#/components/schemas/'' @ ''Post'' = ''#/components/schemas/Post''" by simp
  from list_field_becomes_sub_resource[OF h1 h2 h3 h4 h5 h6 h7 h8 h9 h10 h11 h12 h13 h14 h15 h16
      h17]
  show ?thesis unfolding k p e .
qed


end
